(* ===== verification/Prelude.thy ===== *)
theory Prelude
  imports Main "HOL-Library.Word" "HOL-Library.Sublist"
begin

text \<open>
  The vocabulary every component shares.  Rust code of this library is stateful, fallible and may
  panic or wait forever, so an operation is a function from a state to an optional pair of an
  outcome and a state: \<open>None\<close> is a call that never returns, \<open>Ok\<close> and \<open>Err\<close> are the two
  constructors of \<^verbatim>\<open>Result\<close>, \<open>Panic\<close> is unwinding.  The theory defines the outcome type,
  \<^verbatim>\<open>std::io::Error\<close>, the combinators that stand for \<^verbatim>\<open>?\<close> and \<^verbatim>\<open>match\<close>, the two provided
  methods of \<^verbatim>\<open>std::io\<close> the library calls (\<^verbatim>\<open>read_exact\<close> and \<^verbatim>\<open>write_all\<close>), and the
  interfaces \<open>byte_stream\<close> and \<open>byte_duplex\<close>: what a client may rely on of a
  \<^verbatim>\<open>NetStream\<close>.
\<close>

section \<open>Machine types, errors and outcomes\<close>

type_synonym u8 = "8 word"
type_synonym u32 = "32 word"
type_synonym u64 = "64 word"
type_synonym usize = "64 word"
type_synonym bytes = "u8 list"
type_synonym duration = nat
type_synonym raw_fd = nat

text \<open>The kinds of \<^verbatim>\<open>std::io::ErrorKind\<close>; every kind the sources mention is a constructor.\<close>

datatype ErrorKind =
    NotFound | PermissionDenied | ConnectionRefused | ConnectionReset | ConnectionAborted
  | NotConnected | AddrInUse | AddrNotAvailable | BrokenPipe | AlreadyExists | WouldBlock
  | InvalidInput | InvalidData | TimedOut | WriteZero | Interrupted | UnexpectedEof
  | OutOfMemory | Other

text \<open>
  \<^verbatim>\<open>std::io::Error\<close>: built from a bare kind (\<^verbatim>\<open>ErrorKind::X.into()\<close>), from an operating
  system code together with the kind the code decodes to, or from a kind and a payload
  (\<^verbatim>\<open>io::Error::new\<close>; the payload is kept as its displayed text).
\<close>

datatype io_error = SimpleError ErrorKind | OsError int ErrorKind | CustomError ErrorKind string

fun kind :: "io_error \<Rightarrow> ErrorKind" where
  "kind (SimpleError k) = k"
| "kind (OsError c k) = k"
| "kind (CustomError k s) = k"

fun raw_os_error :: "io_error \<Rightarrow> int option" where
  "raw_os_error (OsError c k) = Some c"
| "raw_os_error _ = None"

datatype ('e, 'a) outcome = Ok 'a | Err 'e | Panic string

type_synonym ('x, 'e, 'a) prog = "'x \<Rightarrow> (('e, 'a) outcome \<times> 'x) option"
type_synonym ('x, 'a) io = "('x, io_error, 'a) prog"

section \<open>Combinators\<close>

named_theorems io_simps \<open>characterisations of the combinators on each outcome\<close>

definition ret :: "'a \<Rightarrow> ('x, 'e, 'a) prog" where
  "ret a x = Some (Ok a, x)"

definition fail :: "'e \<Rightarrow> ('x, 'e, 'a) prog" where
  "fail e x = Some (Err e, x)"

definition panic :: "string \<Rightarrow> ('x, 'e, 'a) prog" where
  "panic msg x = Some (Panic msg, x)"

text \<open>Rust's \<^verbatim>\<open>match m { Ok(a) => .., Err(e) => .. }\<close>; a panic unwinds past it.\<close>

definition match_io ::
  "('x, 'e, 'a) prog \<Rightarrow> ('a \<Rightarrow> ('x, 'f, 'b) prog) \<Rightarrow> ('e \<Rightarrow> ('x, 'f, 'b) prog) \<Rightarrow> ('x, 'f, 'b) prog"
where
  "match_io m ok err x = Option.bind (m x) (\<lambda>(r, y). case r of
      Ok a \<Rightarrow> ok a y
    | Err e \<Rightarrow> err e y
    | Panic msg \<Rightarrow> Some (Panic msg, y))"

text \<open>The \<^verbatim>\<open>?\<close> operator followed by the rest of the body.\<close>

definition bind_io :: "('x, 'e, 'a) prog \<Rightarrow> ('a \<Rightarrow> ('x, 'e, 'b) prog) \<Rightarrow> ('x, 'e, 'b) prog" where
  "bind_io m f = match_io m f fail"

text \<open>Running a method of a part of the state: \<open>g\<close> selects the part, \<open>u\<close> stores it back.\<close>

definition zoom :: "('x \<Rightarrow> 'y) \<Rightarrow> ('y \<Rightarrow> 'x \<Rightarrow> 'x) \<Rightarrow> ('y, 'e, 'a) prog \<Rightarrow> ('x, 'e, 'a) prog" where
  "zoom g u m x = map_option (\<lambda>(r, y). (r, u y x)) (m (g x))"

lemma ret_apply [simp]: "ret a x = Some (Ok a, x)"
  by (simp add: ret_def)

lemma fail_apply [simp]: "fail e x = Some (Err e, x)"
  by (simp add: fail_def)

lemma panic_apply [simp]: "panic m x = Some (Panic m, x)"
  by (simp add: panic_def)

lemma match_io_eqs [simp]:
  "m x = None \<Longrightarrow> match_io m ok err x = None"
  "m x = Some (Ok a, y) \<Longrightarrow> match_io m ok err x = ok a y"
  "m x = Some (Err e, y) \<Longrightarrow> match_io m ok err x = err e y"
  "m x = Some (Panic p, y) \<Longrightarrow> match_io m ok err x = Some (Panic p, y)"
  by (simp_all add: match_io_def)

lemma bind_io_eqs [simp]:
  "m x = None \<Longrightarrow> bind_io m f x = None"
  "m x = Some (Ok a, y) \<Longrightarrow> bind_io m f x = f a y"
  "m x = Some (Err e, y) \<Longrightarrow> bind_io m f x = Some (Err e, y)"
  "m x = Some (Panic p, y) \<Longrightarrow> bind_io m f x = Some (Panic p, y)"
  by (simp_all add: bind_io_def)

lemma prog_cases [case_names Never Ok Err Panic]:
  obtains "m x = None" | a y where "m x = Some (Ok a, y)"
    | e y where "m x = Some (Err e, y)" | p y where "m x = Some (Panic p, y)"
proof (cases "m x")
  case (Some ry)
  then show ?thesis using that by (cases ry; cases "fst ry") auto
qed (use that in simp)

lemma bind_io_Ok [io_simps]:
  "bind_io m f x = Some (Ok b, z) \<longleftrightarrow> (\<exists>a y. m x = Some (Ok a, y) \<and> f a y = Some (Ok b, z))"
  by (cases m x rule: prog_cases) auto

lemma bind_io_Err [io_simps]:
  "bind_io m f x = Some (Err e, z) \<longleftrightarrow>
     m x = Some (Err e, z) \<or> (\<exists>a y. m x = Some (Ok a, y) \<and> f a y = Some (Err e, z))"
  by (cases m x rule: prog_cases) auto

lemma bind_io_Panic [io_simps]:
  "bind_io m f x = Some (Panic p, z) \<longleftrightarrow>
     m x = Some (Panic p, z) \<or> (\<exists>a y. m x = Some (Ok a, y) \<and> f a y = Some (Panic p, z))"
  by (cases m x rule: prog_cases) auto

lemma match_io_Some [io_simps]:
  "match_io m ok err x = Some z \<longleftrightarrow>
     (\<exists>a y. m x = Some (Ok a, y) \<and> ok a y = Some z) \<or>
     (\<exists>e y. m x = Some (Err e, y) \<and> err e y = Some z) \<or>
     (\<exists>p y. m x = Some (Panic p, y) \<and> z = (Panic p, y))"
  by (cases m x rule: prog_cases) auto

lemma zoom_Some [io_simps]:
  "zoom g u m x = Some (r, z) \<longleftrightarrow> (\<exists>y. m (g x) = Some (r, y) \<and> z = u y x)"
  by (auto simp: zoom_def)

lemma zoom_apply [simp]:
  "m (g x) = None \<Longrightarrow> zoom g u m x = None"
  "m (g x) = Some (r, y) \<Longrightarrow> zoom g u m x = Some (r, u y x)"
  by (simp_all add: zoom_def)

text \<open>A call returns a value, or an error, with the given property; used to evaluate concrete runs.\<close>

definition yields :: "(('e, 'a) outcome \<times> 'x) option \<Rightarrow> ('a \<Rightarrow> 'x \<Rightarrow> bool) \<Rightarrow> bool" where
  "yields z P = (case z of Some (Ok a, x) \<Rightarrow> P a x | _ \<Rightarrow> False)"

lemma yieldsE:
  assumes "yields z P"
  obtains a x where "z = Some (Ok a, x)" and "P a x"
proof (cases z)
  case (Some rx)
  then show ?thesis using assms that by (cases rx; cases "fst rx") (auto simp: yields_def)
qed (use assms in \<open>simp add: yields_def\<close>)

definition raises :: "(('e, 'a) outcome \<times> 'x) option \<Rightarrow> ('e \<Rightarrow> 'x \<Rightarrow> bool) \<Rightarrow> bool" where
  "raises z P = (case z of Some (Err e, x) \<Rightarrow> P e x | _ \<Rightarrow> False)"

lemma raisesE:
  assumes "raises z P"
  obtains e x where "z = Some (Err e, x)" and "P e x"
proof (cases z)
  case (Some rx)
  then show ?thesis using assms that by (cases rx; cases "fst rx") (auto simp: raises_def)
qed (use assms in \<open>simp add: raises_def\<close>)

text \<open>Evaluation of short buffers; not a default rule, since some buffers are 65535 bytes long.\<close>

lemma replicate_numeral: "replicate (numeral k) a = a # replicate (pred_numeral k) a"
  by (simp add: numeral_eq_Suc)

section \<open>Provided methods of std::io\<close>

text \<open>
  \<^verbatim>\<open>Read::read_exact\<close>: read until the buffer is full, retrying on \<open>Interrupted\<close>; end of input
  is \<open>UnexpectedEof\<close>.  A reader takes the buffer and returns the count it filled and the buffer.
  The filled part and the part still to be filled are kept apart, as the slice the loop shortens.
\<close>

partial_function (option) read_exact_from ::
  "(bytes \<Rightarrow> ('x, nat \<times> bytes) io) \<Rightarrow> bytes \<Rightarrow> bytes \<Rightarrow> ('x, bytes) io"
where
  "read_exact_from rd filled rest x =
     (if rest = [] then Some (Ok filled, x)
      else Option.bind (rd rest x) (\<lambda>(r, y). case r of
          Ok (n, rest') \<Rightarrow>
            (if n = 0 then Some (Err (SimpleError UnexpectedEof), y)
             else if length rest' < n then Some (Panic ''range start index out of range'', y)
             else read_exact_from rd (filled @ take n rest') (drop n rest') y)
        | Err e \<Rightarrow>
            (if kind e = Interrupted then read_exact_from rd filled rest y else Some (Err e, y))
        | Panic msg \<Rightarrow> Some (Panic msg, y)))"

definition read_exact :: "(bytes \<Rightarrow> ('x, nat \<times> bytes) io) \<Rightarrow> bytes \<Rightarrow> ('x, bytes) io" where
  "read_exact rd buf = read_exact_from rd [] buf"

text \<open>
  \<^verbatim>\<open>Write::write_all\<close>: write until nothing is left, retrying on \<open>Interrupted\<close>; a writer that
  takes nothing is \<open>WriteZero\<close>.
\<close>

partial_function (option) write_all :: "(bytes \<Rightarrow> ('x, nat) io) \<Rightarrow> bytes \<Rightarrow> ('x, unit) io" where
  "write_all wr buf x =
     (if buf = [] then Some (Ok (), x)
      else Option.bind (wr buf x) (\<lambda>(r, y). case r of
          Ok n \<Rightarrow>
            (if n = 0 then Some (Err (SimpleError WriteZero), y)
             else if length buf < n then Some (Panic ''range start index out of range'', y)
             else write_all wr (drop n buf) y)
        | Err e \<Rightarrow> (if kind e = Interrupted then write_all wr buf y else Some (Err e, y))
        | Panic msg \<Rightarrow> Some (Panic msg, y)))"

declare read_exact_from.simps [code] write_all.simps [code]

lemma read_exact_Nil [simp]: "read_exact rd [] x = Some (Ok [], x)"
  by (simp add: read_exact_def read_exact_from.simps)

lemma write_all_Nil [simp]: "write_all wr [] x = Some (Ok (), x)"
  by (simp add: write_all.simps)

text \<open>
  Induction over the run of each loop, one case per way an iteration can go.
\<close>

lemma read_exact_from_run [consumes 1, case_names Done Eof Range More Retry Error Panicked]:
  assumes run: "read_exact_from rd filled rest x = Some z"
    and Done: "\<And>filled x. P filled [] x (Ok filled, x)"
    and Eof: "\<And>filled rest x rest' y. rest \<noteq> [] \<Longrightarrow> rd rest x = Some (Ok (0, rest'), y) \<Longrightarrow>
      P filled rest x (Err (SimpleError UnexpectedEof), y)"
    and Range: "\<And>filled rest x n rest' y. rest \<noteq> [] \<Longrightarrow> rd rest x = Some (Ok (n, rest'), y) \<Longrightarrow>
      length rest' < n \<Longrightarrow> P filled rest x (Panic ''range start index out of range'', y)"
    and More: "\<And>filled rest x n rest' y z. rest \<noteq> [] \<Longrightarrow> rd rest x = Some (Ok (n, rest'), y) \<Longrightarrow>
      0 < n \<Longrightarrow> n \<le> length rest' \<Longrightarrow> P (filled @ take n rest') (drop n rest') y z \<Longrightarrow>
      P filled rest x z"
    and Retry: "\<And>filled rest x e y z. rest \<noteq> [] \<Longrightarrow> rd rest x = Some (Err e, y) \<Longrightarrow>
      kind e = Interrupted \<Longrightarrow> P filled rest y z \<Longrightarrow> P filled rest x z"
    and Error: "\<And>filled rest x e y. rest \<noteq> [] \<Longrightarrow> rd rest x = Some (Err e, y) \<Longrightarrow>
      kind e \<noteq> Interrupted \<Longrightarrow> P filled rest x (Err e, y)"
    and Panicked: "\<And>filled rest x m y. rest \<noteq> [] \<Longrightarrow> rd rest x = Some (Panic m, y) \<Longrightarrow>
      P filled rest x (Panic m, y)"
  shows "P filled rest x z"
proof (rule read_exact_from.raw_induct [where xa = "(((rd, filled), rest), x)" and
    P = "\<lambda>rd' filled rest x z. rd' = rd \<longrightarrow> P filled rest x z", unfolded prod.case,
    OF _ run, THEN mp, OF _ refl])
  fix loop rd' filled rest x z
  assume IH: "\<And>rd' filled rest x z. loop rd' filled rest x = Some z \<Longrightarrow> rd' = rd \<longrightarrow> P filled rest x z"
    and body: "(if rest = [] then Some (Ok filled, x)
      else Option.bind (rd' rest x) (\<lambda>(r, y). case r of
          Ok (n, rest') \<Rightarrow>
            (if n = 0 then Some (Err (SimpleError UnexpectedEof), y)
             else if length rest' < n then Some (Panic ''range start index out of range'', y)
             else loop rd' (filled @ take n rest') (drop n rest') y)
        | Err e \<Rightarrow> (if kind e = Interrupted then loop rd' filled rest y else Some (Err e, y))
        | Panic msg \<Rightarrow> Some (Panic msg, y))) = Some z"
  show "rd' = rd \<longrightarrow> P filled rest x z"
  proof
    assume rd': "rd' = rd"
    show "P filled rest x z"
    proof (cases "rest = []")
      case True
      with body Done show ?thesis by auto
    next
      case False
      show ?thesis
      proof (cases "rd rest" x rule: prog_cases)
        case (Ok a y)
        obtain n rest' where a: "a = (n, rest')" by (cases a)
        show ?thesis
          using body False rd' Ok a Eof [OF False, of x rest' y] Range [OF False, of x n rest' y]
            More [OF False, of x n rest' y] IH [of rd]
          by (auto split: if_splits)
      qed (use body False rd' Retry Error Panicked IH [of rd] in \<open>auto split: if_splits\<close>)
    qed
  qed
qed

lemma write_all_run [consumes 1, case_names Done Zero Range More Retry Error Panicked]:
  assumes run: "write_all wr buf x = Some z"
    and Done: "\<And>x. P [] x (Ok (), x)"
    and Zero: "\<And>buf x y. buf \<noteq> [] \<Longrightarrow> wr buf x = Some (Ok 0, y) \<Longrightarrow>
      P buf x (Err (SimpleError WriteZero), y)"
    and Range: "\<And>buf x n y. buf \<noteq> [] \<Longrightarrow> wr buf x = Some (Ok n, y) \<Longrightarrow> length buf < n \<Longrightarrow>
      P buf x (Panic ''range start index out of range'', y)"
    and More: "\<And>buf x n y z. buf \<noteq> [] \<Longrightarrow> wr buf x = Some (Ok n, y) \<Longrightarrow> 0 < n \<Longrightarrow>
      n \<le> length buf \<Longrightarrow> P (drop n buf) y z \<Longrightarrow> P buf x z"
    and Retry: "\<And>buf x e y z. buf \<noteq> [] \<Longrightarrow> wr buf x = Some (Err e, y) \<Longrightarrow> kind e = Interrupted \<Longrightarrow>
      P buf y z \<Longrightarrow> P buf x z"
    and Error: "\<And>buf x e y. buf \<noteq> [] \<Longrightarrow> wr buf x = Some (Err e, y) \<Longrightarrow> kind e \<noteq> Interrupted \<Longrightarrow>
      P buf x (Err e, y)"
    and Panicked: "\<And>buf x m y. buf \<noteq> [] \<Longrightarrow> wr buf x = Some (Panic m, y) \<Longrightarrow> P buf x (Panic m, y)"
  shows "P buf x z"
proof (rule write_all.raw_induct [where xa = "((wr, buf), x)" and
    P = "\<lambda>wr' buf x z. wr' = wr \<longrightarrow> P buf x z", unfolded prod.case,
    OF _ run, THEN mp, OF _ refl])
  fix loop wr' buf x z
  assume IH: "\<And>wr' buf x z. loop wr' buf x = Some z \<Longrightarrow> wr' = wr \<longrightarrow> P buf x z"
    and body: "(if buf = [] then Some (Ok (), x)
      else Option.bind (wr' buf x) (\<lambda>(r, y). case r of
          Ok n \<Rightarrow>
            (if n = 0 then Some (Err (SimpleError WriteZero), y)
             else if length buf < n then Some (Panic ''range start index out of range'', y)
             else loop wr' (drop n buf) y)
        | Err e \<Rightarrow> (if kind e = Interrupted then loop wr' buf y else Some (Err e, y))
        | Panic msg \<Rightarrow> Some (Panic msg, y))) = Some z"
  show "wr' = wr \<longrightarrow> P buf x z"
  proof
    assume wr': "wr' = wr"
    show "P buf x z"
    proof (cases "buf = []")
      case True
      with body Done show ?thesis by auto
    next
      case False
      show ?thesis
      proof (cases "wr buf" x rule: prog_cases)
        case (Ok n y)
        show ?thesis
          using body False wr' Ok Zero [OF False, of x y] Range [OF False, of x n y]
            More [OF False, of x n y] IH [of wr]
          by (auto split: if_splits)
      qed (use body False wr' Retry Error Panicked IH [of wr] in \<open>auto split: if_splits\<close>)
    qed
  qed
qed

text \<open>
  The loops return whenever every call of the underlying operation returns and the interruptions
  run out, which a measure of the state that each interruption lowers says.  \<open>I\<close> is an invariant
  of the state the calls keep.
\<close>

lemma read_exact_from_returns:
  assumes ret: "\<And>buf x. I x \<Longrightarrow> rd buf x \<noteq> None"
    and keep: "\<And>buf x r y. I x \<Longrightarrow> rd buf x = Some (r, y) \<Longrightarrow> I y"
    and len: "\<And>buf x n buf' y. rd buf x = Some (Ok (n, buf'), y) \<Longrightarrow> length buf' = length buf"
    and intr: "\<And>buf x e y. I x \<Longrightarrow> rd buf x = Some (Err e, y) \<Longrightarrow> kind e = Interrupted \<Longrightarrow>
      \<mu> y < (\<mu> x :: nat)"
    and "I x"
  shows "\<exists>r y. read_exact_from rd filled rest x = Some (r, y) \<and> I y"
  using \<open>I x\<close>
proof (induction "(rest, x)" arbitrary: rest x filled
    rule: wf_induct_rule [OF wf_measures [of "[length \<circ> fst, \<mu> \<circ> snd]"]])
  case (1 rest x)
  note unfold = read_exact_from.simps [of rd filled rest x]
  show ?case
  proof (cases "rd rest" x rule: prog_cases)
    case (Ok a y)
    obtain n rest' where a: "a = (n, rest')" by (cases a)
    have "\<exists>r z. read_exact_from rd (filled @ take n rest') (drop n rest') y = Some (r, z) \<and> I z"
      if "rest \<noteq> []" "0 < n" using that "1.hyps" [of "drop n rest'" y] len [OF Ok [unfolded a]]
        keep [OF "1.prems" Ok] by (cases rest') auto
    with Ok a keep [OF "1.prems" Ok] "1.prems" show ?thesis by (auto simp: unfold)
  next
    case (Err e y)
    with intr [OF "1.prems" this] "1.hyps" [of rest y] keep [OF "1.prems" Err] "1.prems"
    show ?thesis by (auto simp: unfold)
  qed (use ret [OF "1.prems", of rest] keep "1.prems" in \<open>auto simp: unfold\<close>)
qed

lemma write_all_returns:
  assumes ret: "\<And>buf x. I x \<Longrightarrow> wr buf x \<noteq> None"
    and keep: "\<And>buf x r y. I x \<Longrightarrow> wr buf x = Some (r, y) \<Longrightarrow> I y"
    and intr: "\<And>buf x e y. I x \<Longrightarrow> wr buf x = Some (Err e, y) \<Longrightarrow> kind e = Interrupted \<Longrightarrow>
      \<mu> y < (\<mu> x :: nat)"
    and "I x"
  shows "\<exists>r y. write_all wr buf x = Some (r, y) \<and> I y"
  using \<open>I x\<close>
proof (induction "(buf, x)" arbitrary: buf x
    rule: wf_induct_rule [OF wf_measures [of "[length \<circ> fst, \<mu> \<circ> snd]"]])
  case (1 buf x)
  note unfold = write_all.simps [of wr buf x]
  show ?case
  proof (cases "wr buf" x rule: prog_cases)
    case (Ok n y)
    have "\<exists>r z. write_all wr (drop n buf) y = Some (r, z) \<and> I z" if "buf \<noteq> []" "0 < n"
      using that "1.hyps" [of "drop n buf" y] keep [OF "1.prems" Ok] by (cases buf) auto
    with Ok keep [OF "1.prems" Ok] "1.prems" show ?thesis by (auto simp: unfold)
  next
    case (Err e y)
    with intr [OF "1.prems" this] "1.hyps" [of buf y] keep [OF "1.prems" Err] "1.prems"
    show ?thesis by (auto simp: unfold)
  qed (use ret [OF "1.prems", of buf] keep "1.prems" in \<open>auto simp: unfold\<close>)
qed

section \<open>What a stream promises\<close>

text \<open>
  The contract of \<^verbatim>\<open>io::Read\<close> and \<^verbatim>\<open>io::Write\<close> that slicing relies on: a count never exceeds
  the buffer it was given, a buffer keeps its length, and neither method panics.
\<close>

locale byte_stream =
  fixes rd :: "bytes \<Rightarrow> ('x, nat \<times> bytes) io"
    and wr :: "bytes \<Rightarrow> ('x, nat) io"
  assumes rd_len: "rd buf x = Some (Ok (n, buf'), y) \<Longrightarrow> n \<le> length buf \<and> length buf' = length buf"
    and wr_len: "wr buf x = Some (Ok n, y) \<Longrightarrow> n \<le> length buf"
    and rd_no_panic: "rd buf x \<noteq> Some (Panic m, y)"
    and wr_no_panic: "wr buf x \<noteq> Some (Panic m, y)"
begin

lemma read_exact_from_len:
  "read_exact_from rd filled rest x = Some z \<Longrightarrow>
     (\<forall>out y. z = (Ok out, y) \<longrightarrow> length out = length filled + length rest) \<and>
     (\<forall>m y. z \<noteq> (Panic m, y))"
  by (induction rule: read_exact_from_run) (auto simp: rd_no_panic dest: rd_len)

lemma read_exact_len: "read_exact rd buf x = Some (Ok out, y) \<Longrightarrow> length out = length buf"
  by (auto simp: read_exact_def dest: read_exact_from_len)

lemma read_exact_no_panic: "read_exact rd buf x \<noteq> Some (Panic m, y)"
  by (auto simp: read_exact_def dest: read_exact_from_len)

lemma write_all_outcome: "write_all wr buf x = Some z \<Longrightarrow> \<forall>m y. z \<noteq> (Panic m, y)"
  by (induction rule: write_all_run) (auto simp: wr_no_panic dest: wr_len)

lemma write_all_no_panic: "write_all wr buf x \<noteq> Some (Panic m, y)"
  by (auto dest: write_all_outcome)

end

text \<open>
  A stream over an observable medium: \<open>out\<close> is every byte the medium has accepted, \<open>inp\<close> every
  byte it is still going to deliver.  While \<open>good\<close> holds, a write that reports \<open>n\<close> hands over
  exactly the first \<open>n\<close> bytes, a read takes exactly what it reports, and errors move nothing.
\<close>

locale byte_duplex = byte_stream rd wr
  for rd :: "bytes \<Rightarrow> ('x, nat \<times> bytes) io"
    and wr :: "bytes \<Rightarrow> ('x, nat) io" +
  fixes good :: "'x \<Rightarrow> bool"
    and inp :: "'x \<Rightarrow> bytes"
    and out :: "'x \<Rightarrow> bytes"
  assumes rd_moves: "good x \<Longrightarrow> rd buf x = Some (Ok (n, buf'), y) \<Longrightarrow>
      inp x = take n buf' @ inp y \<and> out y = out x \<and> good y"
    and rd_err: "good x \<Longrightarrow> rd buf x = Some (Err e, y) \<Longrightarrow>
      inp y = inp x \<and> out y = out x \<and> good y"
    and wr_moves: "good x \<Longrightarrow> wr buf x = Some (Ok n, y) \<Longrightarrow>
      out y = out x @ take n buf \<and> inp y = inp x \<and> good y"
    and wr_err: "good x \<Longrightarrow> wr buf x = Some (Err e, y) \<Longrightarrow>
      out y = out x \<and> inp y = inp x \<and> good y"
begin

lemma read_exact_from_moves:
  "read_exact_from rd filled rest x = Some z \<Longrightarrow> good x \<Longrightarrow>
     (case z of (Ok got, y) \<Rightarrow> filled @ inp x = got @ inp y \<and> out y = out x \<and> good y
              | (Err e, y) \<Rightarrow> suffix (inp y) (inp x) \<and> out y = out x \<and> good y
              | (Panic m, y) \<Rightarrow> False)"
proof (induction rule: read_exact_from_run)
  case (More filled rest x n rest' y z)
  from rd_moves [OF More.prems More.hyps(2)]
  have "inp x = take n rest' @ inp y" "out y = out x" "good y" by auto
  with More.IH show ?case
    by (auto split: outcome.splits intro: suffix_order.order_trans suffix_appendI)
qed (auto simp: rd_no_panic split: outcome.splits dest: rd_err rd_moves rd_len
    intro: suffix_appendI)

lemma read_exact_moves:
  assumes "good x" and "read_exact rd buf x = Some (Ok got, y)"
  shows "inp x = got @ inp y" and "out y = out x" and "good y"
  using assms read_exact_from_moves [of "[]" buf x "(Ok got, y)"] by (simp_all add: read_exact_def)

lemma read_exact_err:
  assumes "good x" and "read_exact rd buf x = Some (Err e, y)"
  shows "suffix (inp y) (inp x)" and "out y = out x" and "good y"
  using assms read_exact_from_moves [of "[]" buf x "(Err e, y)"] by (simp_all add: read_exact_def)

lemma write_all_from_moves:
  "write_all wr buf x = Some z \<Longrightarrow> good x \<Longrightarrow>
     (case z of (Ok u, y) \<Rightarrow> out y = out x @ buf \<and> inp y = inp x \<and> good y
              | (Err e, y) \<Rightarrow> (\<exists>k. out y = out x @ take k buf) \<and> inp y = inp x \<and> good y
              | (Panic m, y) \<Rightarrow> False)"
proof (induction rule: write_all_run)
  case (More buf x n y z)
  from wr_moves [OF More.prems More.hyps(2)]
  have *: "out y = out x @ take n buf" "inp y = inp x" "good y" by auto
  have "\<exists>k'. take n buf @ take k (drop n buf) = take k' buf" for k
    by (metis take_add)
  with More.IH * show ?case
    by (fastforce split: outcome.splits)
qed (auto simp: wr_no_panic split: outcome.splits dest: wr_err wr_moves wr_len
    intro: exI [of _ 0])

lemma write_all_moves:
  assumes "good x" and "write_all wr buf x = Some (Ok u, y)"
  shows "out y = out x @ buf" and "inp y = inp x" and "good y"
  using assms write_all_from_moves [of buf x "(Ok u, y)"] by simp_all

lemma write_all_err:
  assumes "good x" and "write_all wr buf x = Some (Err e, y)"
  shows "\<exists>k. out y = out x @ take k buf" and "inp y = inp x" and "good y"
  using assms write_all_from_moves [of buf x "(Err e, y)"] by simp_all

end

end
