(* ===== verification/Frame_Queue.thy ===== *)
theory Frame_Queue
  imports Prelude
begin

text \<open>
  \<^verbatim>\<open>src/frame.rs\<close>: the \<^verbatim>\<open>Frame\<close> trait and the \<^verbatim>\<open>Marshaller\<close>, the two byte queues between
  framed messages and a byte stream.  A \<^verbatim>\<open>Frame\<close> implementation is code of the library's
  users, so it is a record of its two methods; what the \<^verbatim>\<open>Marshaller\<close> relies on of it is the
  predicate \<open>frame_codec\<close>.  A \<^verbatim>\<open>VecDeque<u8>\<close> is the list of its bytes from front to back;
  where its ring layout shows (reading copies from the first contiguous slice only) the length of
  that slice is an argument.
\<close>

section \<open>Model\<close>

text \<open>\<^verbatim>\<open>std::io::Cursor\<close> over a byte slice.\<close>

record Cursor =
  cursor_data :: bytes
  position :: nat

text \<open>
  The trait.  \<^verbatim>\<open>unmarshall\<close> moves the reader it is given, \<^verbatim>\<open>marshall\<close> appends to the
  \<^verbatim>\<open>VecDeque\<close> it is given; \<open>Inl\<close> is the frame's own error.
\<close>

record ('f, 'e) Frame =
  unmarshall :: "Cursor \<Rightarrow> ('e + 'f option) \<times> Cursor"
  marshall :: "'f \<Rightarrow> bytes \<Rightarrow> ('e + nat) \<times> bytes"

record Marshaller =
  read_queue :: bytes
  write_queue :: bytes

definition Marshaller_new :: Marshaller where
  "Marshaller_new = \<lparr>read_queue = [], write_queue = []\<rparr>"

text \<open>\<^verbatim>\<open>VecDeque::with_capacity\<close> allocates, and panics beyond \<^verbatim>\<open>isize::MAX\<close> bytes.\<close>

definition Marshaller_with_capacity :: "usize \<Rightarrow> ('e, Marshaller) outcome" where
  "Marshaller_with_capacity capacity =
     (if 2 ^ 63 - 1 < unat capacity then Panic ''capacity overflow''
      else Ok \<lparr>read_queue = [], write_queue = []\<rparr>)"

definition Marshaller_push :: "('f, 'e, 'z) Frame_scheme \<Rightarrow> 'f \<Rightarrow> (Marshaller, 'r, unit) prog" where
  "Marshaller_push F frame m =
     (case marshall F frame (write_queue m) of
        (Inl e, q) \<Rightarrow> Some (Panic ''in-memory write operation'', m\<lparr>write_queue := q\<rparr>)
      | (Inr n, q) \<Rightarrow> Some (Ok (), m\<lparr>write_queue := q\<rparr>))"

definition Marshaller_pop :: "('f, 'e, 'z) Frame_scheme \<Rightarrow> (Marshaller, 'e, 'f option) prog" where
  "Marshaller_pop F m =
     (case unmarshall F \<lparr>cursor_data = read_queue m, position = 0\<rparr> of
        (Inl e, cursor) \<Rightarrow> Some (Err e, m)
      | (Inr None, cursor) \<Rightarrow> Some (Ok None, m)
      | (Inr (Some frame), cursor) \<Rightarrow>
          (let pos = position cursor in
           if length (read_queue m) < pos then Some (Panic ''range end index out of range'', m)
           else Some (Ok (Some frame), m\<lparr>read_queue := drop pos (read_queue m)\<rparr>)))"

definition Marshaller_queue_len :: "Marshaller \<Rightarrow> nat" where
  "Marshaller_queue_len m = length (write_queue m)"

text \<open>\<^verbatim>\<open>drain\<close> consumes the marshaller: \<open>Inl\<close> hands it back, \<open>Inr\<close> is the unread input.\<close>

definition Marshaller_drain :: "Marshaller \<Rightarrow> Marshaller + bytes" where
  "Marshaller_drain m = (if write_queue m = [] then Inr (read_queue m) else Inl m)"

text \<open>
  \<^verbatim>\<open>Read for VecDeque<u8>\<close> copies from the first contiguous slice, whose length is \<open>front\<close>.
\<close>

definition Marshaller_read :: "nat \<Rightarrow> bytes \<Rightarrow> (Marshaller, nat \<times> bytes) io" where
  "Marshaller_read front buf m =
     (let q = write_queue m; n = min (length buf) (min front (length q)) in
      Some (Ok (n, take n q @ drop n buf), m\<lparr>write_queue := drop n q\<rparr>))"

definition Marshaller_write :: "bytes \<Rightarrow> (Marshaller, nat) io" where
  "Marshaller_write buf m = Some (Ok (length buf), m\<lparr>read_queue := read_queue m @ buf\<rparr>)"

definition Marshaller_flush :: "(Marshaller, unit) io" where
  "Marshaller_flush = ret ()"

section \<open>The marshaller as a stream\<close>

interpretation mq: byte_duplex "Marshaller_read front" Marshaller_write "\<lambda>_. True" write_queue
  read_queue for front
  by unfold_locales
    (auto simp: Marshaller_read_def Marshaller_write_def Let_def min_def append_take_drop_id)

section \<open>Frames over arbitrary chunking\<close>

text \<open>
  What the marshaller relies on of a frame type: each frame has an encoding \<open>enc\<close> which
  \<^verbatim>\<open>marshall\<close> appends; \<^verbatim>\<open>unmarshall\<close> on input that starts with an encoding returns that frame
  and stops behind it; and, as the trait's documentation demands, \<^verbatim>\<open>unmarshall\<close> on an
  incomplete encoding returns \<^verbatim>\<open>Ok(None)\<close>.
\<close>

definition frame_codec :: "('f, 'e, 'z) Frame_scheme \<Rightarrow> ('f \<Rightarrow> bytes) \<Rightarrow> bool" where
  "frame_codec F enc \<longleftrightarrow>
     (\<forall>f. enc f \<noteq> []) \<and>
     (\<forall>f q. marshall F f q = (Inr (length (enc f)), q @ enc f)) \<and>
     (\<forall>f rest. unmarshall F \<lparr>cursor_data = enc f @ rest, position = 0\<rparr> =
        (Inr (Some f), \<lparr>cursor_data = enc f @ rest, position = length (enc f)\<rparr>)) \<and>
     (\<forall>f d rest. enc f = d @ rest \<longrightarrow> rest \<noteq> [] \<longrightarrow>
        fst (unmarshall F \<lparr>cursor_data = d, position = 0\<rparr>) = Inr None)"

text \<open>
  The sending side of a connection: frames are pushed, and the transport pulls bytes with buffers
  of any size.  The run returns the chunks pulled, in order.
\<close>

datatype 'f tx_event = Push 'f | Pull nat nat

fun tx_run :: "('f, 'e, 'z) Frame_scheme \<Rightarrow> 'f tx_event list \<Rightarrow> (Marshaller, io_error, bytes list) prog"
where
  "tx_run F [] = ret []"
| "tx_run F (Push f # es) = bind_io (Marshaller_push F f) (\<lambda>_. tx_run F es)"
| "tx_run F (Pull len front # es) =
     bind_io (Marshaller_read front (replicate len 0))
       (\<lambda>(n, buf). bind_io (tx_run F es) (\<lambda>cs. ret (take n buf # cs)))"

fun pushed :: "'f tx_event list \<Rightarrow> 'f list" where
  "pushed [] = []"
| "pushed (Push f # es) = f # pushed es"
| "pushed (Pull _ _ # es) = pushed es"

text \<open>
  The receiving side: chunks arrive and frames are popped, in any interleaving.  The run returns
  the frames popped.
\<close>

datatype rx_event = Arrive bytes | Pop

fun rx_run :: "('f, 'e, 'z) Frame_scheme \<Rightarrow> rx_event list \<Rightarrow> (Marshaller, 'e, 'f list) prog" where
  "rx_run F [] = ret []"
| "rx_run F (Arrive d # es) = match_io (Marshaller_write d) (\<lambda>_. rx_run F es) (\<lambda>_. rx_run F es)"
| "rx_run F (Pop # es) =
     bind_io (Marshaller_pop F)
       (\<lambda>r. bind_io (rx_run F es) (\<lambda>fs. ret (case r of None \<Rightarrow> fs | Some f \<Rightarrow> f # fs)))"

fun arrived :: "rx_event list \<Rightarrow> bytes" where
  "arrived [] = []"
| "arrived (Arrive d # es) = d @ arrived es"
| "arrived (Pop # es) = arrived es"

text \<open>
  Pieces of a stream, each with the frame decoded from it: the frame type was shown the stream from
  the start of the piece up to some point behind it, returned the frame, and stopped at the end of
  the piece.
\<close>

fun decoded :: "('f, 'e, 'z) Frame_scheme \<Rightarrow> bytes \<Rightarrow> ('f \<times> bytes) list \<Rightarrow> bool" where
  "decoded F stream [] = True"
| "decoded F stream ((f, piece) # ps) =
     (\<exists>shown cursor. prefix shown stream \<and> prefix piece shown \<and>
        unmarshall F \<lparr>cursor_data = shown, position = 0\<rparr> = (Inr (Some f), cursor) \<and>
        position cursor = length piece \<and> decoded F (drop (length piece) stream) ps)"

lemma frame_codecD:
  assumes "frame_codec F enc"
  shows "enc f \<noteq> []" and "marshall F f q = (Inr (length (enc f)), q @ enc f)"
    and "unmarshall F \<lparr>cursor_data = enc f @ rest, position = 0\<rparr> =
        (Inr (Some f), \<lparr>cursor_data = enc f @ rest, position = length (enc f)\<rparr>)"
    and "enc f = d @ tail \<Longrightarrow> tail \<noteq> [] \<Longrightarrow>
        fst (unmarshall F \<lparr>cursor_data = d, position = 0\<rparr>) = Inr None"
  using assms unfolding frame_codec_def by blast+

lemma push_codec:
  assumes "frame_codec F enc"
  shows "Marshaller_push F f m = Some (Ok (), m\<lparr>write_queue := write_queue m @ enc f\<rparr>)"
  by (simp add: Marshaller_push_def frame_codecD(2) [OF assms])

lemma pop_incomplete:
  assumes "frame_codec F enc" and "enc f = read_queue m @ tail" and "tail \<noteq> []"
  shows "Marshaller_pop F m = Some (Ok None, m)"
  using frame_codecD(4) [OF assms] by (auto simp: Marshaller_pop_def split: prod.splits)

lemma pop_complete:
  assumes "frame_codec F enc" and "read_queue m = enc f @ rest"
  shows "Marshaller_pop F m = Some (Ok (Some f), m\<lparr>read_queue := rest\<rparr>)"
  by (simp add: Marshaller_pop_def assms(2) frame_codecD(3) [OF assms(1)])

text \<open>
  One pop while the queue and the bytes still to come make up the encodings of \<open>fs\<close>: it either
  waits or takes the first frame and leaves the encodings of the rest.
\<close>

lemma pop_step:
  assumes codec: "frame_codec F enc" and q: "read_queue m @ later = concat (map enc fs)"
  obtains "Marshaller_pop F m = Some (Ok None, m)" and "fs = [] \<or> later \<noteq> []"
  | f gs m' where "fs = f # gs" and "Marshaller_pop F m = Some (Ok (Some f), m')"
      and "read_queue m = enc f @ read_queue m'" and "read_queue m' @ later = concat (map enc gs)"
      and "write_queue m' = write_queue m"
proof (cases fs)
  case Nil
  with q that(1) pop_incomplete [OF codec, of undefined m "enc undefined"]
    frame_codecD(1) [OF codec] show ?thesis by auto
next
  case (Cons f gs)
  with q have "read_queue m @ later = enc f @ concat (map enc gs)" by simp
  then consider us where "read_queue m = enc f @ us" "us @ later = concat (map enc gs)"
    | us where "read_queue m @ us = enc f" "later = us @ concat (map enc gs)"
    by (auto simp: append_eq_append_conv2)
  then show ?thesis
  proof cases
    case 1
    show ?thesis by (rule that(2) [OF Cons pop_complete [OF codec 1(1)]]) (simp_all add: 1)
  next
    case 2
    show ?thesis
    proof (cases "us = []")
      case True
      with 2 have "read_queue m = enc f @ []" by simp
      from that(2) [OF Cons pop_complete [OF codec this]] 2 True show ?thesis by simp
    next
      case False
      with 2 that(1) pop_incomplete [OF codec 2(1) [symmetric]] show ?thesis by auto
    qed
  qed
qed

lemma tx_run_emits:
  assumes codec: "frame_codec F enc"
  shows "\<exists>cs m'. tx_run F es m = Some (Ok cs, m') \<and> read_queue m' = read_queue m \<and>
    concat cs @ write_queue m' = write_queue m @ concat (map enc (pushed es))"
proof (induction es arbitrary: m rule: pushed.induct)
  case (2 f es)
  from "2.IH" [of "m\<lparr>write_queue := write_queue m @ enc f\<rparr>"] show ?case
    by (auto simp: push_codec [OF codec])
next
  case (3 len front es)
  obtain n buf m1 where read: "Marshaller_read front (replicate len 0) m = Some (Ok (n, buf), m1)"
    by (simp add: Marshaller_read_def Let_def)
  from mq.rd_moves [OF _ this]
  have m1: "write_queue m = take n buf @ write_queue m1" "read_queue m1 = read_queue m" by auto
  with "3.IH" [of m1] read show ?case by auto
qed simp

lemma rx_run_prefix:
  assumes codec: "frame_codec F enc"
    and q: "read_queue m @ arrived es @ later = concat (map enc fs)"
  shows "\<exists>k m'. rx_run F es m = Some (Ok (take k fs), m') \<and> k \<le> length fs \<and>
    read_queue m @ arrived es = concat (map enc (take k fs)) @ read_queue m'"
  using q
proof (induction es arbitrary: m fs rule: arrived.induct)
  case 1
  then show ?case by (intro exI [of _ 0]) simp
next
  case (2 d es)
  from "2.IH" [of "m\<lparr>read_queue := read_queue m @ d\<rparr>" fs] "2.prems" show ?case
    by (simp add: Marshaller_write_def)
next
  case (3 es)
  from "3.prems" have q: "read_queue m @ arrived es @ later = concat (map enc fs)" by simp
  show ?case
  proof (cases rule: pop_step [OF codec q])
    case 1
    with "3.IH" [of m fs] "3.prems" show ?thesis by auto
  next
    case (2 f gs m')
    with "3.IH" [of m' gs] obtain k m'' where "rx_run F es m' = Some (Ok (take k gs), m'')"
      "k \<le> length gs" "read_queue m' @ arrived es = concat (map enc (take k gs)) @ read_queue m''"
      by auto
    with 2 show ?thesis by (auto intro!: exI [of _ "Suc k"])
  qed
qed

lemma pop_cases:
  assumes "Marshaller_pop F m = Some (r, m')"
  obtains (Frame) f cursor where "r = Ok (Some f)" "position cursor \<le> length (read_queue m)"
      "unmarshall F \<lparr>cursor_data = read_queue m, position = 0\<rparr> = (Inr (Some f), cursor)"
      "m' = m\<lparr>read_queue := drop (position cursor) (read_queue m)\<rparr>"
    | (Incomplete) "r = Ok None" "m' = m"
    | (Error) e where "r = Err e" "m' = m"
      "fst (unmarshall F \<lparr>cursor_data = read_queue m, position = 0\<rparr>) = Inl e"
    | (Overrun) msg f cursor where "r = Panic msg" "m' = m"
      "unmarshall F \<lparr>cursor_data = read_queue m, position = 0\<rparr> = (Inr (Some f), cursor)"
      "length (read_queue m) < position cursor"
  using assms
  by (auto simp: Marshaller_pop_def Let_def not_less split: prod.splits sum.splits option.splits if_splits)

text \<open>The effect of a run of arrivals and pops, for the induction over the events.\<close>

definition consumes ::
  "('f, 'e, 'z) Frame_scheme \<Rightarrow> rx_event list \<Rightarrow> Marshaller \<Rightarrow> ('e, 'f list) outcome \<Rightarrow> Marshaller \<Rightarrow>
   ('f \<times> bytes) list \<Rightarrow> bytes \<Rightarrow> bool"
where
  "consumes F es m r m' ps later \<longleftrightarrow>
     write_queue m' = write_queue m \<and>
     read_queue m @ arrived es = concat (map snd ps) @ read_queue m' @ later \<and>
     decoded F (read_queue m @ arrived es) ps \<and>
     (case r of
        Ok fs \<Rightarrow> fs = map fst ps \<and> later = []
      | Err e \<Rightarrow> fst (unmarshall F \<lparr>cursor_data = read_queue m', position = 0\<rparr>) = Inl e
      | Panic msg \<Rightarrow> \<exists>f cursor. unmarshall F \<lparr>cursor_data = read_queue m', position = 0\<rparr> =
          (Inr (Some f), cursor) \<and> length (read_queue m') < position cursor)"

lemma consumes_frame:
  assumes "unmarshall F \<lparr>cursor_data = read_queue m, position = 0\<rparr> = (Inr (Some f), cursor)"
    and "position cursor \<le> length (read_queue m)"
    and "consumes F es (m\<lparr>read_queue := drop (position cursor) (read_queue m)\<rparr>) r m' ps later"
  shows "consumes F (Pop # es) m (case r of Ok fs \<Rightarrow> Ok (f # fs) | r \<Rightarrow> r) m'
    ((f, take (position cursor) (read_queue m)) # ps) later"
proof -
  let ?q = "read_queue m" and ?n = "position cursor"
  from assms(3) have "drop ?n ?q @ arrived es = concat (map snd ps) @ read_queue m' @ later"
    by (simp add: consumes_def)
  then have "?q @ arrived es = take ?n ?q @ concat (map snd ps) @ read_queue m' @ later"
    by (metis append_assoc append_take_drop_id)
  moreover have "prefix ?q (?q @ arrived es)" "prefix (take ?n ?q) ?q"
    by (simp_all add: take_is_prefix)
  ultimately show ?thesis
    using assms unfolding consumes_def
    by (auto split: outcome.splits intro!: exI [of _ ?q] exI [of _ cursor])
qed

lemma rx_run_consumes:
  "rx_run F es m = Some (r, m') \<Longrightarrow> \<exists>ps later. consumes F es m r m' ps later"
proof (induction es arbitrary: m r rule: arrived.induct)
  case 1
  then show ?case by (auto simp: consumes_def intro!: exI [of _ "[]"])
next
  case (2 d es)
  from "2.IH" [of "m\<lparr>read_queue := read_queue m @ d\<rparr>" r] "2.prems" show ?case
    by (auto simp: Marshaller_write_def consumes_def)
next
  case (3 es)
  obtain r1 m1 where pop: "Marshaller_pop F m = Some (r1, m1)"
    using "3.prems" by (cases "Marshaller_pop F m") auto
  show ?case
    using pop
  proof (cases rule: pop_cases)
    case (Frame f cursor)
    with "3.prems" pop obtain r2 where "rx_run F es m1 = Some (r2, m')"
      "r = (case r2 of Ok fs \<Rightarrow> Ok (f # fs) | r \<Rightarrow> r)"
      by (cases "rx_run F es" m1 rule: prog_cases) auto
    with "3.IH" [of m1 r2] Frame(4) consumes_frame [OF Frame(3,2)] show ?thesis by blast
  next
    case Incomplete
    with "3.prems" pop have "rx_run F es m = Some (r, m')"
      by (cases "rx_run F es" m rule: prog_cases) auto
    from "3.IH" [OF this] show ?thesis by (simp add: consumes_def)
  next
    case (Error e)
    with "3.prems" pop have "consumes F (Pop # es) m r m' [] (arrived es)"
      by (auto simp: consumes_def)
    then show ?thesis by blast
  next
    case (Overrun msg f cursor)
    with "3.prems" pop have "consumes F (Pop # es) m r m' [] (arrived es)"
      by (auto simp: consumes_def)
    then show ?thesis by blast
  qed
qed

lemma rx_run_pops:
  assumes codec: "frame_codec F enc"
    and q: "read_queue m = concat (map enc fs)" and n: "length fs \<le> n"
  shows "\<exists>m'. rx_run F (replicate n Pop) m = Some (Ok fs, m') \<and> read_queue m' = []"
  using q n
proof (induction n arbitrary: m fs)
  case 0
  then show ?case by simp
next
  case (Suc n)
  from Suc.prems have q: "read_queue m @ [] = concat (map enc fs)" by simp
  show ?case
  proof (cases rule: pop_step [OF codec q])
    case 1
    with Suc.IH [of m fs] Suc.prems show ?thesis by auto
  next
    case (2 f gs m')
    with Suc.IH [of m' gs] Suc.prems show ?thesis by auto
  qed
qed

lemma rx_run_complete:
  assumes codec: "frame_codec F enc" and n: "length fs \<le> n"
    and q: "read_queue m @ arrived es = concat (map enc fs)"
  shows "\<exists>m'. rx_run F (es @ replicate n Pop) m = Some (Ok fs, m') \<and> read_queue m' = []"
  using q n
proof (induction es arbitrary: m fs rule: arrived.induct)
  case 1
  with rx_run_pops [OF codec] show ?case by simp
next
  case (2 d es)
  from "2.IH" [of "m\<lparr>read_queue := read_queue m @ d\<rparr>" fs] "2.prems" show ?case
    by (simp add: Marshaller_write_def)
next
  case (3 es)
  from "3.prems" have q: "read_queue m @ arrived es = concat (map enc fs)" by simp
  show ?case
  proof (cases rule: pop_step [OF codec q])
    case 1
    with "3.IH" [of m fs] "3.prems" show ?thesis by auto
  next
    case (2 f gs m')
    with "3.IH" [of m' gs] "3.prems" show ?thesis by auto
  qed
qed

section \<open>Properties\<close>

text \<open>
  C1: framing survives any chunking.  Frames are pushed into one marshaller while a transport pulls
  its output with buffers of any size; the bytes pulled reach another marshaller cut into chunks
  in any other way, with pops interleaved arbitrarily.  Once the sender's queue is empty and
  everything pulled has arrived, as many final pops as there were frames complete the list of
  received frames to exactly the frames pushed, in order, and nothing is left over.
\<close>

theorem frames_end_to_end:
  assumes "frame_codec F enc"
    and "tx_run F es Marshaller_new = Some (Ok chunks, sender)"
    and "write_queue sender = []"
    and "arrived rs = concat chunks"
    and "length (pushed es) \<le> n"
  shows "\<exists>receiver. rx_run F (rs @ replicate n Pop) Marshaller_new = Some (Ok (pushed es), receiver) \<and>
    read_queue receiver = []"
proof -
  from tx_run_emits [OF assms(1), of es Marshaller_new] assms(2,3)
  have "concat chunks = concat (map enc (pushed es))" by (simp add: Marshaller_new_def)
  with assms(4) rx_run_complete [OF assms(1,5), of Marshaller_new rs] show ?thesis
    by (simp add: Marshaller_new_def)
qed

text \<open>
  A frame type to instantiate the parameter with: a byte \<open>l\<close> sent as itself and \<open>l\<close> filler bytes.
\<close>

definition demo_enc :: "u8 \<Rightarrow> bytes" where
  "demo_enc l = l # replicate (unat l) 255"

definition demo_frame :: "(u8, unit) Frame" where
  "demo_frame = \<lparr>
     unmarshall = (\<lambda>c. case drop (position c) (cursor_data c) of
         [] \<Rightarrow> (Inr None, c)
       | l # rest \<Rightarrow>
           (if length rest < unat l then (Inr None, c)
            else (Inr (Some l), c\<lparr>position := position c + 1 + unat l\<rparr>))),
     marshall = (\<lambda>l q. (Inr (unat l + 1), q @ l # replicate (unat l) 255)) \<rparr>"

lemma demo_codec: "frame_codec demo_frame demo_enc"
  by (auto simp: frame_codec_def demo_frame_def demo_enc_def Cons_eq_append_conv
      dest: arg_cong [where f = length] split: list.splits)

text \<open>Witness of C1: two frames, pulled as 2 and 2 bytes, arriving as 1, 2 and 1.\<close>

theorem frames_end_to_end_witness:
  "frame_codec demo_frame demo_enc \<and>
   tx_run demo_frame [Push 2, Pull 2 9, Push 0, Pull 8 9] Marshaller_new =
     Some (Ok [[2, 255], [255, 0]], Marshaller_new) \<and>
   (\<exists>receiver. rx_run demo_frame
      ([Arrive [2], Pop, Arrive [255, 255], Arrive [0]] @ replicate 2 Pop) Marshaller_new =
        Some (Ok [2, 0], receiver) \<and> read_queue receiver = [])"
proof -
  have tx: "tx_run demo_frame [Push 2, Pull 2 9, Push 0, Pull 8 9] Marshaller_new =
     Some (Ok [[2, 255], [255, 0]], Marshaller_new)"
    by (simp add: demo_frame_def Marshaller_new_def Marshaller_push_def Marshaller_read_def
        replicate_numeral)
  show ?thesis
    using demo_codec tx frames_end_to_end [OF demo_codec tx,
        of "[Arrive [2], Pop, Arrive [255, 255], Arrive [0]]" 2]
    by (simp add: Marshaller_new_def)
qed

text \<open>
  C2: no frame is delivered early, out of order or altered.  While what has arrived is a prefix of
  the encodings of \<open>fs\<close>, every interleaving of arrivals and pops returns a prefix of \<open>fs\<close> without
  error, and the receiver's queue holds exactly the arrived bytes behind the frames popped.
\<close>

theorem frames_prefix_safe:
  assumes "frame_codec F enc"
    and "arrived es @ later = concat (map enc fs)"
  shows "\<exists>k m'. rx_run F es Marshaller_new = Some (Ok (take k fs), m') \<and>
    arrived es = concat (map enc (take k fs)) @ read_queue m'"
  using rx_run_prefix [OF assms(1), of Marshaller_new es later fs] assms(2)
  by (auto simp: Marshaller_new_def)

theorem frames_prefix_safe_witness:
  "frame_codec demo_frame demo_enc \<and>
   arrived [Arrive [1], Pop, Arrive [255, 2], Pop] @ [255, 255] = concat (map demo_enc [1, 2]) \<and>
   (\<exists>k m'. rx_run demo_frame [Arrive [1], Pop, Arrive [255, 2], Pop] Marshaller_new =
        Some (Ok (take k [1, 2]), m') \<and>
      arrived [Arrive [1], Pop, Arrive [255, 2], Pop] =
        concat (map demo_enc (take k [1, 2])) @ read_queue m')"
proof -
  have "arrived [Arrive [1], Pop, Arrive [255, 2], Pop] @ [255, 255] = concat (map demo_enc [1, 2])"
    by (simp add: demo_enc_def replicate_numeral)
  with demo_codec frames_prefix_safe [OF demo_codec this] show ?thesis by blast
qed

text \<open>
  C3: pops take exactly the bytes of their frames out of the queue, whatever the frame type does.
  After any interleaving of arrivals and pops, the bytes that were in the queue or arrived are, in
  order, one piece per popped frame and the bytes still in the queue: each piece is what its frame
  was decoded from, up to the position at which \<^verbatim>\<open>unmarshall\<close> left the cursor.  So a pop that
  reports an incomplete frame takes nothing.  A pop whose frame type fails, or reads past the end,
  stops the run with the offending bytes still at the front of the queue; \<open>later\<close> is what arrives
  after it.  No pop or arrival touches the write queue.
\<close>

theorem pops_partition_input:
  assumes "rx_run F es m = Some (r, m')"
  shows "write_queue m' = write_queue m \<and> (\<exists>ps later.
    read_queue m @ arrived es = concat (map snd ps) @ read_queue m' @ later \<and>
    decoded F (read_queue m @ arrived es) ps \<and>
    (case r of
        Ok fs \<Rightarrow> fs = map fst ps \<and> later = []
      | Err e \<Rightarrow> fst (unmarshall F \<lparr>cursor_data = read_queue m', position = 0\<rparr>) = Inl e
      | Panic msg \<Rightarrow> \<exists>f cursor. unmarshall F \<lparr>cursor_data = read_queue m', position = 0\<rparr> =
          (Inr (Some f), cursor) \<and> length (read_queue m') < position cursor))"
  using rx_run_consumes [OF assms] unfolding consumes_def by blast

theorem pops_partition_input_witness:
  "\<exists>ps. rx_run demo_frame [Pop, Arrive [7], Pop] \<lparr>read_queue = [1, 255], write_queue = []\<rparr> =
      Some (Ok [1], \<lparr>read_queue = [7], write_queue = []\<rparr>) \<and>
    [1, 255, 7] = concat (map snd ps) @ [7 :: u8] \<and> map fst ps = [1] \<and>
    decoded demo_frame [1, 255, 7] ps"
proof -
  have run: "rx_run demo_frame [Pop, Arrive [7], Pop] \<lparr>read_queue = [1, 255], write_queue = []\<rparr> =
      Some (Ok [1], \<lparr>read_queue = [7], write_queue = []\<rparr>)"
    by (simp add: Marshaller_pop_def Marshaller_write_def demo_frame_def Let_def)
  from run pops_partition_input [OF run] show ?thesis by auto
qed

end
