(* ===== verification/Kernel.thy ===== *)
theory Kernel
  imports Prelude
begin

text \<open>
  The part of the standard library's networking the sources call, over an explicit operating
  system: a table of file descriptors, several of which may name the same socket (as after
  \<^verbatim>\<open>try_clone\<close>), and for each socket the bytes the peer will deliver, the bytes accepted for
  the peer, and the options.  How much a transfer moves and when it fails is decided by the
  environment: every transfer consumes one verdict of the socket's script.  A blocking transfer
  with nothing to wait for never returns (\<open>None\<close>).
\<close>

section \<open>State\<close>

datatype IpAddr = V4 "32 word" | V6 "128 word"

datatype SocketAddr = SocketAddr IpAddr "16 word"

datatype Shutdown = ShutRead | ShutWrite | ShutBoth

text \<open>
  What the environment decides about a transfer: a bound on its size, its failure, or that the peer
  has reset the connection, after which the socket has no peer address any more.  Within one call a
  reset shows at a transfer; between calls the environment may take the peer address away too.
\<close>

datatype verdict = Grant nat | Refuse io_error | Hangup

record socket =
  sk_rx :: bytes
  sk_eof :: bool
  sk_tx :: bytes
  sk_peer :: "SocketAddr option"
  sk_local :: "SocketAddr option"
  sk_nonblocking :: bool
  sk_read_timeout :: "duration option"
  sk_write_timeout :: "duration option"
  sk_nodelay :: bool
  sk_ttl :: u32
  sk_error :: "io_error option"
  sk_shut_wr :: bool
  sk_script :: "verdict list"
  sk_faults :: "io_error option list"

record kernel =
  k_fds :: "raw_fd \<rightharpoonup> nat"
  k_socks :: "nat \<Rightarrow> socket"
  k_next :: nat
  k_dial :: "SocketAddr \<Rightarrow> io_error + socket"
  k_backlog :: "raw_fd \<Rightarrow> (io_error + socket) list"
  k_bind :: "SocketAddr \<Rightarrow> io_error option"
  k_dup_faults :: "io_error option list"

definition EBADF :: io_error where "EBADF = OsError 9 Other"
definition EAGAIN :: io_error where "EAGAIN = OsError 11 WouldBlock"
definition EPIPE :: io_error where "EPIPE = OsError 32 BrokenPipe"
definition ECONNRESET :: io_error where "ECONNRESET = OsError 104 ConnectionReset"
definition EMFILE :: io_error where "EMFILE = OsError 24 Other"
definition ENOTCONN :: io_error where "ENOTCONN = OsError 107 NotConnected"

section \<open>System calls\<close>

definition k_sock :: "kernel \<Rightarrow> raw_fd \<Rightarrow> socket option" where
  "k_sock k fd = map_option (k_socks k) (k_fds k fd)"

definition k_update :: "raw_fd \<Rightarrow> (socket \<Rightarrow> socket) \<Rightarrow> kernel \<Rightarrow> kernel" where
  "k_update fd f k = (case k_fds k fd of
      None \<Rightarrow> k
    | Some i \<Rightarrow> k\<lparr>k_socks := (k_socks k)(i := f (k_socks k i))\<rparr>)"

text \<open>A call on a descriptor: a closed descriptor is \<^verbatim>\<open>EBADF\<close>.\<close>

definition k_call :: "raw_fd \<Rightarrow> (socket \<Rightarrow> ((io_error, 'a) outcome \<times> socket) option) \<Rightarrow> (kernel, 'a) io"
where
  "k_call fd op k = (case k_sock k fd of
      None \<Rightarrow> Some (Err EBADF, k)
    | Some sk \<Rightarrow> map_option (\<lambda>(r, sk'). (r, k_update fd (\<lambda>_. sk') k)) (op sk))"

definition sock_deliver :: "nat option \<Rightarrow> bytes \<Rightarrow> (socket, nat \<times> bytes) io" where
  "sock_deliver limit buf sk =
     (if buf = [] then Some (Ok (0, buf), sk)
      else if sk_rx sk = [] then
        (if sk_eof sk then Some (Ok (0, buf), sk)
         else if sk_nonblocking sk \<or> sk_read_timeout sk \<noteq> None then Some (Err EAGAIN, sk)
         else None)
      else
        (let m = min (length buf) (length (sk_rx sk));
             n = (case limit of None \<Rightarrow> m | Some g \<Rightarrow> min (max 1 g) m) in
         Some (Ok (n, take n (sk_rx sk) @ drop n buf), sk\<lparr>sk_rx := drop n (sk_rx sk)\<rparr>)))"

fun sock_read :: "bytes \<Rightarrow> (socket, nat \<times> bytes) io" where
  "sock_read buf sk = (case sk_script sk of
      [] \<Rightarrow> sock_deliver None buf sk
    | Grant g # vs \<Rightarrow> sock_deliver (Some g) buf (sk\<lparr>sk_script := vs\<rparr>)
    | Refuse e # vs \<Rightarrow> Some (Err e, sk\<lparr>sk_script := vs\<rparr>)
    | Hangup # vs \<Rightarrow> Some (Err ECONNRESET, sk\<lparr>sk_script := vs, sk_peer := None\<rparr>))"

definition sock_peek :: "bytes \<Rightarrow> (socket, nat \<times> bytes) io" where
  "sock_peek buf sk = map_option (\<lambda>(r, sk'). (r, sk'\<lparr>sk_rx := sk_rx sk\<rparr>)) (sock_read buf sk)"

definition sock_accept :: "nat option \<Rightarrow> bytes \<Rightarrow> (socket, nat) io" where
  "sock_accept limit buf sk =
     (if sk_shut_wr sk then Some (Err EPIPE, sk)
      else if buf = [] then Some (Ok 0, sk)
      else
        (let n = (case limit of None \<Rightarrow> length buf | Some g \<Rightarrow> min g (length buf)) in
         if n = 0 then
           (if sk_nonblocking sk \<or> sk_write_timeout sk \<noteq> None then Some (Err EAGAIN, sk) else None)
         else Some (Ok n, sk\<lparr>sk_tx := sk_tx sk @ take n buf\<rparr>)))"

fun sock_write :: "bytes \<Rightarrow> (socket, nat) io" where
  "sock_write buf sk = (case sk_script sk of
      [] \<Rightarrow> sock_accept None buf sk
    | Grant g # vs \<Rightarrow> sock_accept (Some g) buf (sk\<lparr>sk_script := vs\<rparr>)
    | Refuse e # vs \<Rightarrow> Some (Err e, sk\<lparr>sk_script := vs\<rparr>)
    | Hangup # vs \<Rightarrow> Some (Err ECONNRESET, sk\<lparr>sk_script := vs, sk_peer := None\<rparr>))"

definition k_close :: "raw_fd \<Rightarrow> kernel \<Rightarrow> kernel" where
  "k_close fd k = k\<lparr>k_fds := (k_fds k)(fd := None)\<rparr>"

text \<open>A new descriptor for a new socket.\<close>

definition k_open :: "socket \<Rightarrow> (kernel, raw_fd) io" where
  "k_open sk k = Some (Ok (k_next k),
     k\<lparr>k_fds := (k_fds k)(k_next k \<mapsto> k_next k), k_socks := (k_socks k)(k_next k := sk),
       k_next := Suc (k_next k)\<rparr>)"

text \<open>
  Duplicating fails on a closed descriptor, and otherwise when the system says so, as with
  \<^verbatim>\<open>EMFILE\<close>: each call consumes one entry of \<open>k_dup_faults\<close>.
\<close>

definition k_dup :: "raw_fd \<Rightarrow> (kernel, raw_fd) io" where
  "k_dup fd k = (case k_fds k fd of
      None \<Rightarrow> Some (Err EBADF, k)
    | Some i \<Rightarrow>
        (let opened = k\<lparr>k_fds := (k_fds k)(k_next k \<mapsto> i), k_next := Suc (k_next k)\<rparr> in
         case k_dup_faults k of
           [] \<Rightarrow> Some (Ok (k_next k), opened)
         | None # fs \<Rightarrow> Some (Ok (k_next k), opened\<lparr>k_dup_faults := fs\<rparr>)
         | Some e # fs \<Rightarrow> Some (Err e, k\<lparr>k_dup_faults := fs\<rparr>)))"

text \<open>\<^verbatim>\<open>TcpStream::connect_timeout\<close>, which refuses a zero timeout.\<close>

definition k_connect_timeout :: "SocketAddr \<Rightarrow> duration \<Rightarrow> (kernel, raw_fd) io" where
  "k_connect_timeout addr timeout k =
     (if timeout = 0 then Some (Err (SimpleError InvalidInput), k)
      else case k_dial k addr of Inl e \<Rightarrow> Some (Err e, k) | Inr sk \<Rightarrow> k_open sk k)"

text \<open>
  \<^verbatim>\<open>TcpListener::bind\<close> of one address: a new listening socket, unless the system refuses the
  address (\<open>k_bind\<close>).
\<close>

definition k_listen :: "SocketAddr \<Rightarrow> (kernel, raw_fd) io" where
  "k_listen addr k = (case k_bind k addr of
      Some e \<Rightarrow> Some (Err e, k)
    | None \<Rightarrow> k_open \<lparr>sk_rx = [], sk_eof = False, sk_tx = [], sk_peer = None, sk_local = Some addr,
        sk_nonblocking = False, sk_read_timeout = None, sk_write_timeout = None, sk_nodelay = False,
        sk_ttl = 64, sk_error = None, sk_shut_wr = False, sk_script = [], sk_faults = []\<rparr> k)"

definition k_accept :: "raw_fd \<Rightarrow> (kernel, raw_fd) io" where
  "k_accept fd k = (case k_backlog k fd of
      [] \<Rightarrow> (case k_sock k fd of
          None \<Rightarrow> Some (Err EBADF, k)
        | Some sk \<Rightarrow> if sk_nonblocking sk then Some (Err EAGAIN, k) else None)
    | Inl e # rest \<Rightarrow> Some (Err e, k\<lparr>k_backlog := (k_backlog k)(fd := rest)\<rparr>)
    | Inr sk # rest \<Rightarrow> k_open sk (k\<lparr>k_backlog := (k_backlog k)(fd := rest)\<rparr>))"

text \<open>Setting an option can fail; each call consumes one entry of \<open>sk_faults\<close>.\<close>

definition sock_set :: "(socket \<Rightarrow> socket) \<Rightarrow> (socket, unit) io" where
  "sock_set f sk = (case sk_faults sk of
      [] \<Rightarrow> Some (Ok (), f sk)
    | None # fs \<Rightarrow> Some (Ok (), f (sk\<lparr>sk_faults := fs\<rparr>))
    | Some e # fs \<Rightarrow> Some (Err e, sk\<lparr>sk_faults := fs\<rparr>))"

definition sock_get :: "(socket \<Rightarrow> 'a) \<Rightarrow> (socket, 'a) io" where
  "sock_get f sk = Some (Ok (f sk), sk)"

definition sock_require :: "(socket \<Rightarrow> 'a option) \<Rightarrow> (socket, 'a) io" where
  "sock_require f sk = (case f sk of None \<Rightarrow> Some (Err ENOTCONN, sk) | Some a \<Rightarrow> Some (Ok a, sk))"

definition sock_shutdown :: "Shutdown \<Rightarrow> (socket, unit) io" where
  "sock_shutdown how sk = (if sk_peer sk = None then Some (Err ENOTCONN, sk)
     else Some (Ok (), case how of
         ShutRead \<Rightarrow> sk\<lparr>sk_rx := [], sk_eof := True\<rparr>
       | ShutWrite \<Rightarrow> sk\<lparr>sk_shut_wr := True\<rparr>
       | ShutBoth \<Rightarrow> sk\<lparr>sk_rx := [], sk_eof := True, sk_shut_wr := True\<rparr>))"

text \<open>The timeout setters of \<^verbatim>\<open>std::net\<close> refuse a zero duration.\<close>

definition sock_set_timeout :: "(socket \<Rightarrow> socket) \<Rightarrow> duration option \<Rightarrow> (socket, unit) io" where
  "sock_set_timeout f dur = (if dur = Some 0 then fail (SimpleError InvalidInput) else sock_set f)"

definition sock_take_error :: "(socket, io_error option) io" where
  "sock_take_error sk = Some (Ok (sk_error sk), sk\<lparr>sk_error := None\<rparr>)"

section \<open>Facts\<close>

lemma k_sock_update [simp]:
  "k_sock (k_update fd f k) fd = map_option f (k_sock k fd)"
  by (simp add: k_sock_def k_update_def split: option.splits)

lemma k_call_Some:
  "k_call fd op k = Some (r, k') \<longleftrightarrow>
     (k_sock k fd = None \<and> r = Err EBADF \<and> k' = k) \<or>
     (\<exists>sk sk'. k_sock k fd = Some sk \<and> op sk = Some (r, sk') \<and> k' = k_update fd (\<lambda>_. sk') k)"
  by (auto simp: k_call_def split: option.splits)

lemma sock_set_Some:
  "sock_set f sk = Some (r, sk') \<longleftrightarrow>
     (sk_faults sk = [] \<and> r = Ok () \<and> sk' = f sk) \<or>
     (\<exists>fs. sk_faults sk = None # fs \<and> r = Ok () \<and> sk' = f (sk\<lparr>sk_faults := fs\<rparr>)) \<or>
     (\<exists>e fs. sk_faults sk = Some e # fs \<and> r = Err e \<and> sk' = sk\<lparr>sk_faults := fs\<rparr>)"
  by (auto simp: sock_set_def split: list.splits option.splits)

lemma sock_set_returns: "sock_set f sk \<noteq> None"
  by (auto simp: sock_set_def split: list.splits option.splits)

lemma sock_deliver_moves:
  "sock_deliver limit buf sk = Some (Ok (n, buf'), sk') \<Longrightarrow>
     n \<le> length buf \<and> length buf' = length buf \<and> sk_rx sk = take n buf' @ sk_rx sk' \<and>
     sk_tx sk' = sk_tx sk"
  by (auto simp: sock_deliver_def Let_def min_def max_def split: if_splits option.splits)

lemma sock_deliver_err:
  "sock_deliver limit buf sk = Some (Err e, sk') \<Longrightarrow> sk' = sk"
  by (auto simp: sock_deliver_def Let_def split: if_splits)

lemma sock_deliver_no_panic: "sock_deliver limit buf sk \<noteq> Some (Panic m, sk')"
  by (auto simp: sock_deliver_def Let_def)

lemma sock_read_moves:
  "sock_read buf sk = Some (Ok (n, buf'), sk') \<Longrightarrow>
     n \<le> length buf \<and> length buf' = length buf \<and> sk_rx sk = take n buf' @ sk_rx sk' \<and>
     sk_tx sk' = sk_tx sk"
  by (fastforce split: list.splits verdict.splits dest: sock_deliver_moves)

lemma sock_read_err:
  "sock_read buf sk = Some (Err e, sk') \<Longrightarrow> sk_rx sk' = sk_rx sk \<and> sk_tx sk' = sk_tx sk"
  by (fastforce split: list.splits verdict.splits dest: sock_deliver_err)

lemma sock_read_no_panic: "sock_read buf sk \<noteq> Some (Panic m, sk')"
  by (auto simp: sock_deliver_no_panic split: list.splits verdict.splits)

lemma sock_accept_moves:
  "sock_accept limit buf sk = Some (Ok n, sk') \<Longrightarrow>
     n \<le> length buf \<and> sk_tx sk' = sk_tx sk @ take n buf \<and> sk_rx sk' = sk_rx sk"
  by (auto simp: sock_accept_def Let_def split: if_splits option.splits)

lemma sock_accept_err: "sock_accept limit buf sk = Some (Err e, sk') \<Longrightarrow> sk' = sk"
  by (auto simp: sock_accept_def Let_def split: if_splits)

lemma sock_accept_no_panic: "sock_accept limit buf sk \<noteq> Some (Panic m, sk')"
  by (auto simp: sock_accept_def Let_def)

lemma sock_write_moves:
  "sock_write buf sk = Some (Ok n, sk') \<Longrightarrow>
     n \<le> length buf \<and> sk_tx sk' = sk_tx sk @ take n buf \<and> sk_rx sk' = sk_rx sk"
  by (fastforce split: list.splits verdict.splits dest: sock_accept_moves)

lemma sock_write_err:
  "sock_write buf sk = Some (Err e, sk') \<Longrightarrow> sk_rx sk' = sk_rx sk \<and> sk_tx sk' = sk_tx sk"
  by (fastforce split: list.splits verdict.splits dest: sock_accept_err)

lemma sock_write_no_panic: "sock_write buf sk \<noteq> Some (Panic m, sk')"
  by (auto simp: sock_accept_no_panic split: list.splits verdict.splits)

declare sock_read.simps [simp del] sock_write.simps [simp del]

lemmas sock_transfers = sock_read_moves sock_read_err sock_write_moves sock_write_err

end
