(* ===== verification/Connection.thy ===== *)
theory Connection
  imports Kernel
begin

text \<open>
  \<^verbatim>\<open>src/connection.rs\<close>: the trait \<^verbatim>\<open>NetConnection\<close> as a record of its methods, and its two
  implementations, for \<^verbatim>\<open>TcpStream\<close> over the operating system of \<open>Kernel\<close> and for
  \<^verbatim>\<open>socket2::Socket\<close> over the \<^verbatim>\<open>socket2\<close> crate, which is a record of the functions called.
  A connection is a handle: what its methods change is in the world \<open>'w\<close> they run in.
\<close>

section \<open>The trait\<close>

record ('c, 'w, 'addr, 'ka) NetConnection =
  connect_blocking :: "'addr \<Rightarrow> duration \<Rightarrow> ('w, 'c) io"
  connect_nonblocking :: "'addr \<Rightarrow> duration \<Rightarrow> ('w, 'c) io"
  connect_reusable_nonblocking :: "'addr \<Rightarrow> 'addr \<Rightarrow> ('w, 'c) io"
  conn_read :: "'c \<Rightarrow> bytes \<Rightarrow> ('w, nat \<times> bytes) io"
  conn_write :: "'c \<Rightarrow> bytes \<Rightarrow> ('w, nat) io"
  conn_flush :: "'c \<Rightarrow> ('w, unit) io"
  shutdown :: "'c \<Rightarrow> Shutdown \<Rightarrow> ('w, unit) io"
  remote_addr :: "'c \<Rightarrow> ('w, 'addr) io"
  local_addr :: "'c \<Rightarrow> ('w, 'addr) io"
  set_tcp_keepalive :: "'c \<Rightarrow> 'ka \<Rightarrow> ('w, unit) io"
  set_read_timeout :: "'c \<Rightarrow> duration option \<Rightarrow> ('w, unit) io"
  set_write_timeout :: "'c \<Rightarrow> duration option \<Rightarrow> ('w, unit) io"
  read_timeout :: "'c \<Rightarrow> ('w, duration option) io"
  write_timeout :: "'c \<Rightarrow> ('w, duration option) io"
  peek :: "'c \<Rightarrow> bytes \<Rightarrow> ('w, nat \<times> bytes) io"
  set_nodelay :: "'c \<Rightarrow> bool \<Rightarrow> ('w, unit) io"
  nodelay :: "'c \<Rightarrow> ('w, bool) io"
  set_ttl :: "'c \<Rightarrow> u32 \<Rightarrow> ('w, unit) io"
  ttl :: "'c \<Rightarrow> ('w, u32) io"
  set_nonblocking :: "'c \<Rightarrow> bool \<Rightarrow> ('w, unit) io"
  try_clone :: "'c \<Rightarrow> ('w, 'c) io"
  take_error :: "'c \<Rightarrow> ('w, io_error option) io"
  as_raw_fd :: "'c \<Rightarrow> raw_fd"
  drop_conn :: "'c \<Rightarrow> 'w \<Rightarrow> 'w"

text \<open>
  \<^verbatim>\<open>m?\<close> while a local value is alive whose destructor \<open>d\<close> runs when the function returns early.
\<close>

definition bind_drop ::
  "('x \<Rightarrow> 'x) \<Rightarrow> ('x, 'e, 'a) prog \<Rightarrow> ('a \<Rightarrow> ('x, 'e, 'b) prog) \<Rightarrow> ('x, 'e, 'b) prog"
where
  "bind_drop d m f = match_io m f (\<lambda>e w. Some (Err e, d w))"

section \<open>Libraries the code calls\<close>

text \<open>
  Address handling of the \<^verbatim>\<open>cyphernet\<close> crate: resolution of an address and the conversion
  \<^verbatim>\<open>From<SocketAddr>\<close>.
\<close>

record ('addr, 'w) addr_lib =
  to_socket_addrs :: "'addr \<Rightarrow> ('w, SocketAddr list) io"
  of_socket_addr :: "SocketAddr \<Rightarrow> 'addr"

text \<open>
  The functions of the \<^verbatim>\<open>socket2\<close> crate.  \<open>s2_new\<close> is \<^verbatim>\<open>Socket::new\<close> with the domain of the
  given address, type \<^verbatim>\<open>STREAM\<close> and the default protocol; an address query returns what
  \<^verbatim>\<open>as_socket\<close> makes of the address; \<open>s2_peek\<close> fills a buffer of possibly uninitialised bytes
  (\<open>None\<close>); \<open>s2_drop\<close> is the destructor.
\<close>

record ('k, 'w, 'ka) socket2_lib =
  s2_new :: "SocketAddr \<Rightarrow> ('w, 'k) io"
  s2_connect :: "'k \<Rightarrow> SocketAddr \<Rightarrow> ('w, unit) io"
  s2_bind :: "'k \<Rightarrow> SocketAddr \<Rightarrow> ('w, unit) io"
  s2_listen :: "'k \<Rightarrow> int \<Rightarrow> ('w, unit) io"
  s2_accept :: "'k \<Rightarrow> ('w, 'k \<times> SocketAddr option) io"
  s2_read :: "'k \<Rightarrow> bytes \<Rightarrow> ('w, nat \<times> bytes) io"
  s2_write :: "'k \<Rightarrow> bytes \<Rightarrow> ('w, nat) io"
  s2_flush :: "'k \<Rightarrow> ('w, unit) io"
  s2_shutdown :: "'k \<Rightarrow> Shutdown \<Rightarrow> ('w, unit) io"
  s2_peer_addr :: "'k \<Rightarrow> ('w, SocketAddr option) io"
  s2_local_addr :: "'k \<Rightarrow> ('w, SocketAddr option) io"
  s2_set_reuse_address :: "'k \<Rightarrow> bool \<Rightarrow> ('w, unit) io"
  s2_set_reuse_port :: "'k \<Rightarrow> bool \<Rightarrow> ('w, unit) io"
  s2_set_tcp_keepalive :: "'k \<Rightarrow> 'ka \<Rightarrow> ('w, unit) io"
  s2_set_read_timeout :: "'k \<Rightarrow> duration option \<Rightarrow> ('w, unit) io"
  s2_set_write_timeout :: "'k \<Rightarrow> duration option \<Rightarrow> ('w, unit) io"
  s2_read_timeout :: "'k \<Rightarrow> ('w, duration option) io"
  s2_write_timeout :: "'k \<Rightarrow> ('w, duration option) io"
  s2_peek :: "'k \<Rightarrow> u8 option list \<Rightarrow> ('w, nat \<times> u8 option list) io"
  s2_set_nodelay :: "'k \<Rightarrow> bool \<Rightarrow> ('w, unit) io"
  s2_nodelay :: "'k \<Rightarrow> ('w, bool) io"
  s2_set_ttl :: "'k \<Rightarrow> u32 \<Rightarrow> ('w, unit) io"
  s2_ttl :: "'k \<Rightarrow> ('w, u32) io"
  s2_set_nonblocking :: "'k \<Rightarrow> bool \<Rightarrow> ('w, unit) io"
  s2_try_clone :: "'k \<Rightarrow> ('w, 'k) io"
  s2_take_error :: "'k \<Rightarrow> ('w, io_error option) io"
  s2_as_raw_fd :: "'k \<Rightarrow> raw_fd"
  s2_from_raw_fd :: "raw_fd \<Rightarrow> 'k"
  s2_drop :: "'k \<Rightarrow> 'w \<Rightarrow> 'w"

text \<open>\<^verbatim>\<open>addr.to_socket_addrs()?.next().ok_or(kind)?\<close>\<close>

definition first_addr :: "('addr, 'w, 'z) addr_lib_scheme \<Rightarrow> 'addr \<Rightarrow> ErrorKind \<Rightarrow> ('w, SocketAddr) io"
where
  "first_addr al addr k = bind_io (to_socket_addrs al addr)
     (\<lambda>as. case as of [] \<Rightarrow> fail (SimpleError k) | a # _ \<Rightarrow> ret a)"

section \<open>socket2::Socket\<close>

text \<open>The Linux values of the two \<^verbatim>\<open>libc\<close> constants the code compares with.\<close>

definition EINPROGRESS :: int where "EINPROGRESS = 115"
definition EALREADY :: int where "EALREADY = 114"

text \<open>
  The last part of both connection functions: \<^verbatim>\<open>Socket::connect\<close> and the \<^verbatim>\<open>match\<close> on its
  result, with the socket dropped wherever the function returns an error.
\<close>

definition Socket_finish_connect ::
  "('k, 'w, 'ka, 'z) socket2_lib_scheme \<Rightarrow> 'k \<Rightarrow> SocketAddr \<Rightarrow> ('w, 'k) io"
where
  "Socket_finish_connect lib sock addr =
     match_io (s2_connect lib sock addr) (\<lambda>_. ret sock)
       (\<lambda>e. if raw_os_error e = Some EINPROGRESS then ret sock
            else if raw_os_error e = Some EALREADY
              then (\<lambda>w. Some (Err (SimpleError AlreadyExists), s2_drop lib sock w))
            else if kind e = WouldBlock then ret sock
            else (\<lambda>w. Some (Err e, s2_drop lib sock w)))"

definition Socket_connect_nonblocking ::
  "('k, 'w, 'ka, 'z) socket2_lib_scheme \<Rightarrow> ('addr, 'w, 'y) addr_lib_scheme \<Rightarrow>
   'addr \<Rightarrow> duration \<Rightarrow> ('w, 'k) io"
where
  "Socket_connect_nonblocking lib al addr timeout =
     bind_io (first_addr al addr AddrNotAvailable) (\<lambda>addr.
     bind_io (s2_new lib addr) (\<lambda>sock.
     bind_drop (s2_drop lib sock) (s2_set_nonblocking lib sock True) (\<lambda>_.
     Socket_finish_connect lib sock addr)))"

definition Socket_connect_reusable_nonblocking ::
  "('k, 'w, 'ka, 'z) socket2_lib_scheme \<Rightarrow> ('addr, 'w, 'y) addr_lib_scheme \<Rightarrow>
   'addr \<Rightarrow> 'addr \<Rightarrow> ('w, 'k) io"
where
  "Socket_connect_reusable_nonblocking lib al local remote =
     bind_io (first_addr al local InvalidInput) (\<lambda>local.
     bind_io (first_addr al remote AddrNotAvailable) (\<lambda>remote.
     bind_io (s2_new lib local) (\<lambda>sock.
     bind_drop (s2_drop lib sock) (s2_set_nonblocking lib sock True) (\<lambda>_.
     bind_drop (s2_drop lib sock) (s2_set_reuse_address lib sock True) (\<lambda>_.
     bind_drop (s2_drop lib sock) (s2_set_reuse_port lib sock True) (\<lambda>_.
     bind_drop (s2_drop lib sock) (s2_bind lib sock local) (\<lambda>_.
     Socket_finish_connect lib sock remote)))))))"

definition Socket_remote_addr ::
  "('k, 'w, 'ka, 'z) socket2_lib_scheme \<Rightarrow> ('addr, 'w, 'y) addr_lib_scheme \<Rightarrow> 'k \<Rightarrow> ('w, 'addr) io"
where
  "Socket_remote_addr lib al sock = bind_io (s2_peer_addr lib sock)
     (\<lambda>a. case a of None \<Rightarrow> fail (SimpleError NotFound) | Some a \<Rightarrow> ret (of_socket_addr al a))"

definition Socket_local_addr ::
  "('k, 'w, 'ka, 'z) socket2_lib_scheme \<Rightarrow> ('addr, 'w, 'y) addr_lib_scheme \<Rightarrow> 'k \<Rightarrow> ('w, 'addr) io"
where
  "Socket_local_addr lib al sock = bind_io (s2_local_addr lib sock)
     (\<lambda>a. case a of None \<Rightarrow> fail (SimpleError NotFound) | Some a \<Rightarrow> ret (of_socket_addr al a))"

text \<open>
  The copy loop of \<^verbatim>\<open>peek\<close>: \<^verbatim>\<open>for i in 0..len { buf[i] = buf2[i].assume_init() }\<close>.  Indexing
  beyond either buffer panics; assuming an uninitialised byte initialised is undefined behaviour,
  kept apart under a name of its own.
\<close>

fun peek_copy :: "nat list \<Rightarrow> u8 option list \<Rightarrow> bytes \<Rightarrow> (io_error, bytes) outcome" where
  "peek_copy [] buf2 buf = Ok buf"
| "peek_copy (i # is) buf2 buf =
     (if length buf2 \<le> i \<or> length buf \<le> i then Panic ''index out of bounds''
      else case buf2 ! i of
          None \<Rightarrow> Panic ''undefined behaviour: uninitialised byte''
        | Some b \<Rightarrow> peek_copy is buf2 (buf[i := b]))"

definition Socket_peek ::
  "('k, 'w, 'ka, 'z) socket2_lib_scheme \<Rightarrow> 'k \<Rightarrow> bytes \<Rightarrow> ('w, nat \<times> bytes) io"
where
  "Socket_peek lib sock buf =
     bind_io (s2_peek lib sock (replicate (length buf) None)) (\<lambda>(len, buf2) w.
       case peek_copy [0..<len] buf2 buf of
         Ok buf' \<Rightarrow> Some (Ok (len, buf'), w)
       | Err e \<Rightarrow> Some (Err e, w)
       | Panic m \<Rightarrow> Some (Panic m, w))"

section \<open>std::net::TcpStream\<close>

datatype TcpStream = TcpStream (stream_fd: raw_fd)

definition TcpStream_read :: "TcpStream \<Rightarrow> bytes \<Rightarrow> (kernel, nat \<times> bytes) io" where
  "TcpStream_read s buf = k_call (stream_fd s) (sock_read buf)"

definition TcpStream_write :: "TcpStream \<Rightarrow> bytes \<Rightarrow> (kernel, nat) io" where
  "TcpStream_write s buf = k_call (stream_fd s) (sock_write buf)"

definition TcpStream_peer_addr :: "TcpStream \<Rightarrow> (kernel, SocketAddr) io" where
  "TcpStream_peer_addr s = k_call (stream_fd s) (sock_require sk_peer)"

definition TcpStream_connect_blocking ::
  "('addr, kernel, 'y) addr_lib_scheme \<Rightarrow> 'addr \<Rightarrow> duration \<Rightarrow> (kernel, TcpStream) io"
where
  "TcpStream_connect_blocking al addr timeout =
     bind_io (first_addr al addr AddrNotAvailable) (\<lambda>socket_addr.
     bind_io (k_connect_timeout socket_addr timeout) (\<lambda>fd. ret (TcpStream fd)))"

text \<open>
  The non-blocking connectors go through \<^verbatim>\<open>socket2\<close> and convert; the conversion keeps the
  descriptor.
\<close>

definition TcpStream_connect_nonblocking ::
  "('k, kernel, 'ka, 'z) socket2_lib_scheme \<Rightarrow> ('addr, kernel, 'y) addr_lib_scheme \<Rightarrow>
   'addr \<Rightarrow> duration \<Rightarrow> (kernel, TcpStream) io"
where
  "TcpStream_connect_nonblocking lib al addr timeout =
     bind_io (Socket_connect_nonblocking lib al addr timeout)
       (\<lambda>sock. ret (TcpStream (s2_as_raw_fd lib sock)))"

definition TcpStream_connect_reusable_nonblocking ::
  "('k, kernel, 'ka, 'z) socket2_lib_scheme \<Rightarrow> ('addr, kernel, 'y) addr_lib_scheme \<Rightarrow>
   'addr \<Rightarrow> 'addr \<Rightarrow> (kernel, TcpStream) io"
where
  "TcpStream_connect_reusable_nonblocking lib al local remote =
     bind_io (Socket_connect_reusable_nonblocking lib al local remote)
       (\<lambda>sock. ret (TcpStream (s2_as_raw_fd lib sock)))"

text \<open>
  \<^verbatim>\<open>set_tcp_keepalive\<close> wraps the stream's descriptor into a \<^verbatim>\<open>socket2::Socket\<close>, sets the
  option, and only then gives the descriptor back: on an error the wrapper is dropped.
\<close>

definition TcpStream_set_tcp_keepalive ::
  "('k, kernel, 'ka, 'z) socket2_lib_scheme \<Rightarrow> TcpStream \<Rightarrow> 'ka \<Rightarrow> (kernel, unit) io"
where
  "TcpStream_set_tcp_keepalive lib s keepalive =
     (let sock = s2_from_raw_fd lib (stream_fd s) in
      bind_drop (s2_drop lib sock) (s2_set_tcp_keepalive lib sock keepalive) (\<lambda>_. ret ()))"

definition TcpStream_connection ::
  "('k, kernel, 'ka, 'z) socket2_lib_scheme \<Rightarrow> ('addr, kernel, 'y) addr_lib_scheme \<Rightarrow>
   (TcpStream, kernel, 'addr, 'ka) NetConnection"
where
  "TcpStream_connection lib al = \<lparr>
     connect_blocking = TcpStream_connect_blocking al,
     connect_nonblocking = TcpStream_connect_nonblocking lib al,
     connect_reusable_nonblocking = TcpStream_connect_reusable_nonblocking lib al,
     conn_read = TcpStream_read,
     conn_write = TcpStream_write,
     conn_flush = (\<lambda>s. ret ()),
     shutdown = (\<lambda>s how. k_call (stream_fd s) (sock_shutdown how)),
     remote_addr = (\<lambda>s. bind_io (TcpStream_peer_addr s) (\<lambda>a. ret (of_socket_addr al a))),
     local_addr = (\<lambda>s. bind_io (k_call (stream_fd s) (sock_require sk_local))
        (\<lambda>a. ret (of_socket_addr al a))),
     set_tcp_keepalive = TcpStream_set_tcp_keepalive lib,
     set_read_timeout = (\<lambda>s dur. k_call (stream_fd s)
        (sock_set_timeout (\<lambda>sk. sk\<lparr>sk_read_timeout := dur\<rparr>) dur)),
     set_write_timeout = (\<lambda>s dur. k_call (stream_fd s)
        (sock_set_timeout (\<lambda>sk. sk\<lparr>sk_write_timeout := dur\<rparr>) dur)),
     read_timeout = (\<lambda>s. k_call (stream_fd s) (sock_get sk_read_timeout)),
     write_timeout = (\<lambda>s. k_call (stream_fd s) (sock_get sk_write_timeout)),
     peek = (\<lambda>s buf. k_call (stream_fd s) (sock_peek buf)),
     set_nodelay = (\<lambda>s b. k_call (stream_fd s) (sock_set (\<lambda>sk. sk\<lparr>sk_nodelay := b\<rparr>))),
     nodelay = (\<lambda>s. k_call (stream_fd s) (sock_get sk_nodelay)),
     set_ttl = (\<lambda>s n. k_call (stream_fd s) (sock_set (\<lambda>sk. sk\<lparr>sk_ttl := n\<rparr>))),
     ttl = (\<lambda>s. k_call (stream_fd s) (sock_get sk_ttl)),
     set_nonblocking = (\<lambda>s b. k_call (stream_fd s) (sock_set (\<lambda>sk. sk\<lparr>sk_nonblocking := b\<rparr>))),
     try_clone = (\<lambda>s. bind_io (k_dup (stream_fd s)) (\<lambda>fd. ret (TcpStream fd))),
     take_error = (\<lambda>s. k_call (stream_fd s) sock_take_error),
     as_raw_fd = stream_fd,
     drop_conn = (\<lambda>s. k_close (stream_fd s)) \<rparr>"

text \<open>
  \<^verbatim>\<open>connect_blocking\<close> of a socket is the one of \<^verbatim>\<open>TcpStream\<close>, converted; the conversion is a
  parameter, as the socket type is.
\<close>

definition Socket_connection ::
  "('addr \<Rightarrow> duration \<Rightarrow> ('w, raw_fd) io) \<Rightarrow> ('k, 'w, 'ka, 'z) socket2_lib_scheme \<Rightarrow>
   ('addr, 'w, 'y) addr_lib_scheme \<Rightarrow> ('k, 'w, 'addr, 'ka) NetConnection"
where
  "Socket_connection tcp_connect lib al = \<lparr>
     connect_blocking = (\<lambda>addr timeout. bind_io (tcp_connect addr timeout)
        (\<lambda>fd. ret (s2_from_raw_fd lib fd))),
     connect_nonblocking = Socket_connect_nonblocking lib al,
     connect_reusable_nonblocking = Socket_connect_reusable_nonblocking lib al,
     conn_read = s2_read lib,
     conn_write = s2_write lib,
     conn_flush = s2_flush lib,
     shutdown = s2_shutdown lib,
     remote_addr = Socket_remote_addr lib al,
     local_addr = Socket_local_addr lib al,
     set_tcp_keepalive = s2_set_tcp_keepalive lib,
     set_read_timeout = s2_set_read_timeout lib,
     set_write_timeout = s2_set_write_timeout lib,
     read_timeout = s2_read_timeout lib,
     write_timeout = s2_write_timeout lib,
     peek = Socket_peek lib,
     set_nodelay = s2_set_nodelay lib,
     nodelay = s2_nodelay lib,
     set_ttl = s2_set_ttl lib,
     ttl = s2_ttl lib,
     set_nonblocking = s2_set_nonblocking lib,
     try_clone = s2_try_clone lib,
     take_error = s2_take_error lib,
     as_raw_fd = s2_as_raw_fd lib,
     drop_conn = s2_drop lib \<rparr>"

section \<open>Facts\<close>

lemma bind_drop_eqs [simp]:
  "m x = None \<Longrightarrow> bind_drop d m f x = None"
  "m x = Some (Ok a, y) \<Longrightarrow> bind_drop d m f x = f a y"
  "m x = Some (Err e, y) \<Longrightarrow> bind_drop d m f x = Some (Err e, d y)"
  "m x = Some (Panic p, y) \<Longrightarrow> bind_drop d m f x = Some (Panic p, y)"
  by (simp_all add: bind_drop_def)

interpretation tcp: byte_stream "\<lambda>buf. TcpStream_read s buf" "\<lambda>buf. TcpStream_write s buf" for s
  by unfold_locales
    (auto simp: TcpStream_read_def TcpStream_write_def k_call_Some sock_read_no_panic
      sock_write_no_panic dest: sock_transfers)

text \<open>What the socket behind a stream has accepted, and what it will deliver.\<close>

definition tcp_out :: "TcpStream \<Rightarrow> kernel \<Rightarrow> bytes" where
  "tcp_out s k = (case k_sock k (stream_fd s) of None \<Rightarrow> [] | Some sk \<Rightarrow> sk_tx sk)"

definition tcp_inp :: "TcpStream \<Rightarrow> kernel \<Rightarrow> bytes" where
  "tcp_inp s k = (case k_sock k (stream_fd s) of None \<Rightarrow> [] | Some sk \<Rightarrow> sk_rx sk)"

interpretation tcp: byte_duplex "\<lambda>buf. TcpStream_read s buf" "\<lambda>buf. TcpStream_write s buf"
  "\<lambda>_. True" "tcp_inp s" "tcp_out s" for s
  by unfold_locales
    (auto simp: TcpStream_read_def TcpStream_write_def k_call_Some tcp_inp_def tcp_out_def
      dest: sock_transfers)

text \<open>
  What \<^verbatim>\<open>socket2\<close> documents about ownership: creating a socket opens a new handle, dropping it
  closes it, and no other call opens or closes one.
\<close>

definition keeps :: "('w \<Rightarrow> 'h) \<Rightarrow> ('w, 'e, 'a) prog \<Rightarrow> bool" where
  "keeps f m \<longleftrightarrow> (\<forall>w r w'. m w = Some (r, w') \<longrightarrow> f w' = f w)"

definition tracks_handles ::
  "('k, 'w, 'ka, 'z) socket2_lib_scheme \<Rightarrow> ('addr, 'w, 'y) addr_lib_scheme \<Rightarrow> ('w \<Rightarrow> 'k set) \<Rightarrow> bool"
where
  "tracks_handles lib al opens \<longleftrightarrow>
     (\<forall>a w r w'. s2_new lib a w = Some (r, w') \<longrightarrow> (case r of
         Ok k \<Rightarrow> k \<notin> opens w \<and> opens w' = insert k (opens w)
       | _ \<Rightarrow> opens w' = opens w)) \<and>
     (\<forall>k w. opens (s2_drop lib k w) = opens w - {k}) \<and>
     (\<forall>a. keeps opens (to_socket_addrs al a)) \<and>
     (\<forall>k a. keeps opens (s2_connect lib k a)) \<and> (\<forall>k a. keeps opens (s2_bind lib k a)) \<and>
     (\<forall>k b. keeps opens (s2_set_nonblocking lib k b)) \<and>
     (\<forall>k b. keeps opens (s2_set_reuse_address lib k b)) \<and>
     (\<forall>k b. keeps opens (s2_set_reuse_port lib k b))"

lemma keepsD: "keeps f m \<Longrightarrow> m w = Some (r, w') \<Longrightarrow> f w' = f w"
  by (auto simp: keeps_def)

lemma tracks_handlesD:
  assumes "tracks_handles lib al opens"
  shows "s2_new lib a w = Some (Ok k, w') \<Longrightarrow> k \<notin> opens w \<and> opens w' = insert k (opens w)"
    and "s2_new lib a w = Some (Err e, w') \<Longrightarrow> opens w' = opens w"
    and "opens (s2_drop lib k w) = opens w - {k}"
    and "keeps opens (to_socket_addrs al b)"
    and "keeps opens (s2_connect lib k a)" and "keeps opens (s2_bind lib k a)"
    and "keeps opens (s2_set_nonblocking lib k c)"
    and "keeps opens (s2_set_reuse_address lib k c)"
    and "keeps opens (s2_set_reuse_port lib k c)"
  using assms unfolding tracks_handles_def by fastforce+

text \<open>
  The outcome of a call that owns the fresh handle \<open>k\<close> on top of the handles \<open>H\<close>: success keeps
  exactly \<open>k\<close>, an error leaves \<open>H\<close>.
\<close>

definition owns :: "('w \<Rightarrow> 'k set) \<Rightarrow> 'k set \<Rightarrow> 'k \<Rightarrow> ('e, 'k) outcome \<times> 'w \<Rightarrow> bool" where
  "owns opens H k z \<longleftrightarrow> (case z of
      (Ok k', w) \<Rightarrow> k' = k \<and> opens w = insert k H
    | (Err e, w) \<Rightarrow> opens w = H
    | (Panic m, w) \<Rightarrow> True)"

definition acquires :: "('w \<Rightarrow> 'k set) \<Rightarrow> 'k set \<Rightarrow> ('e, 'k) outcome \<times> 'w \<Rightarrow> bool" where
  "acquires opens H z \<longleftrightarrow> (case z of
      (Ok k, w) \<Rightarrow> k \<notin> H \<and> opens w = insert k H
    | (Err e, w) \<Rightarrow> opens w = H
    | (Panic m, w) \<Rightarrow> True)"

text \<open>A step that keeps the handles, with the destructor of the fresh handle pending.\<close>

lemma owns_setter:
  assumes run: "bind_drop (d k) m f w = Some z"
    and closes: "\<And>k w. opens (d k w) = opens w - {k}"
    and m: "keeps opens m" and H: "opens w = insert k H" "k \<notin> H"
    and f: "\<And>a w z. f a w = Some z \<Longrightarrow> opens w = insert k H \<Longrightarrow> owns opens H k z"
  shows "owns opens H k z"
proof (cases m w rule: prog_cases)
  case (Ok a y)
  with run f [of a y z] keepsD [OF m Ok] H show ?thesis by simp
next
  case (Err e y)
  with run closes [of k y] keepsD [OF m Err] H show ?thesis by (auto simp: owns_def)
qed (use run in \<open>auto simp: owns_def\<close>)

lemma owns_bind_drop:
  assumes tracks: "tracks_handles lib al opens"
    and run: "bind_drop (s2_drop lib k) m f w = Some z"
    and m: "keeps opens m" and H: "opens w = insert k H" "k \<notin> H"
    and f: "\<And>a w z. f a w = Some z \<Longrightarrow> opens w = insert k H \<Longrightarrow> owns opens H k z"
  shows "owns opens H k z"
  by (rule owns_setter [OF run tracks_handlesD(3) [OF tracks] m H f])

lemma owns_finish_connect:
  assumes tracks: "tracks_handles lib al opens"
    and run: "Socket_finish_connect lib k a w = Some z" and H: "opens w = insert k H" "k \<notin> H"
  shows "owns opens H k z"
proof (cases "s2_connect lib k a" w rule: prog_cases)
  case (Ok u y)
  with run keepsD [OF tracks_handlesD(5) [OF tracks] Ok] H show ?thesis
    by (auto simp: Socket_finish_connect_def owns_def)
next
  case (Err e y)
  with run tracks_handlesD(3) [OF tracks, of k y] keepsD [OF tracks_handlesD(5) [OF tracks] Err] H
  show ?thesis by (auto simp: Socket_finish_connect_def owns_def split: if_splits)
qed (use run in \<open>auto simp: Socket_finish_connect_def owns_def\<close>)

lemma keeps_bind:
  assumes m: "keeps f m" and g: "\<And>a. keeps f (g a)"
  shows "keeps f (bind_io m g)"
  unfolding keeps_def
proof (intro allI impI)
  fix w r w'
  assume "bind_io m g w = Some (r, w')"
  then show "f w' = f w"
    by (cases m w rule: prog_cases) (auto dest: keepsD [OF m] intro: trans [OF keepsD [OF g] keepsD [OF m]])
qed

lemma first_addr_keeps: "keeps f (to_socket_addrs al a) \<Longrightarrow> keeps f (first_addr al a k)"
  unfolding first_addr_def by (rule keeps_bind) (auto simp: keeps_def split: list.splits)

text \<open>A fresh socket and the calls up to \<open>Socket_finish_connect\<close>.\<close>

lemma owns_fresh:
  assumes tracks: "tracks_handles lib al opens"
    and run: "bind_io (s2_new lib a) f w = Some z"
    and f: "\<And>k w' z. f k w' = Some z \<Longrightarrow> opens w' = insert k (opens w) \<Longrightarrow> k \<notin> opens w \<Longrightarrow>
      owns opens (opens w) k z"
  shows "acquires opens (opens w) z"
proof (cases "s2_new lib a" w rule: prog_cases)
  case (Ok k y)
  with tracks_handlesD(1) [OF tracks Ok] run f [of k y z] show ?thesis
    by (auto simp: owns_def acquires_def split: outcome.splits prod.splits)
next
  case (Err e y)
  with tracks_handlesD(2) [OF tracks Err] run show ?thesis by (auto simp: acquires_def)
qed (use run in \<open>auto simp: acquires_def\<close>)

lemma acquires_after_addr:
  assumes addr: "keeps opens m" and run: "bind_io m f w = Some z"
    and f: "\<And>a w z. f a w = Some z \<Longrightarrow> acquires opens (opens w) z"
  shows "acquires opens (opens w) z"
proof (cases m w rule: prog_cases)
  case (Ok a y)
  with run f [of a y z] keepsD [OF addr Ok] show ?thesis by simp
next
  case (Err e y)
  with run keepsD [OF addr Err] show ?thesis by (auto simp: acquires_def)
qed (use run in \<open>auto simp: acquires_def\<close>)

section \<open>Instances for concrete runs\<close>

text \<open>
  A small operating system and an implementation of the two library parameters on it: addresses
  are optional socket addresses, sockets are descriptors, and a keep-alive time of zero is invalid.
\<close>

definition demo_addr :: SocketAddr where
  "demo_addr = SocketAddr (V4 2130706433) 9735"

definition demo_socket :: socket where
  "demo_socket = \<lparr>sk_rx = [], sk_eof = False, sk_tx = [], sk_peer = Some demo_addr,
     sk_local = Some demo_addr, sk_nonblocking = False, sk_read_timeout = None,
     sk_write_timeout = None, sk_nodelay = False, sk_ttl = 64, sk_error = None,
     sk_shut_wr = False, sk_script = [], sk_faults = []\<rparr>"

text \<open>One open descriptor, 3, on a given socket; connection attempts have the given result.\<close>

definition demo_kernel :: "socket \<Rightarrow> io_error + socket \<Rightarrow> kernel" where
  "demo_kernel sk d = \<lparr>k_fds = [3 \<mapsto> 3], k_socks = (\<lambda>_. sk), k_next = 4, k_dial = (\<lambda>_. d),
     k_backlog = (\<lambda>_. []), k_bind = (\<lambda>_. None), k_dup_faults = []\<rparr>"

definition demo_addr_lib :: "(SocketAddr option, kernel) addr_lib" where
  "demo_addr_lib = \<lparr>to_socket_addrs = (\<lambda>a. ret (case a of None \<Rightarrow> [] | Some sa \<Rightarrow> [sa])),
     of_socket_addr = Some\<rparr>"

definition demo_connect :: "raw_fd \<Rightarrow> SocketAddr \<Rightarrow> (kernel, unit) io" where
  "demo_connect fd a k = (case k_dial k a of
      Inl e \<Rightarrow> Some (Err e, k)
    | Inr sk \<Rightarrow> Some (Ok (), k_update fd (\<lambda>_. sk) k))"

definition demo_bind :: "raw_fd \<Rightarrow> SocketAddr \<Rightarrow> (kernel, unit) io" where
  "demo_bind fd a k = (case k_bind k a of
      Some e \<Rightarrow> Some (Err e, k)
    | None \<Rightarrow> k_call fd (sock_set (\<lambda>sk. sk\<lparr>sk_local := Some a\<rparr>)) k)"

definition demo_socket2 :: "(raw_fd, kernel, nat) socket2_lib" where
  "demo_socket2 = \<lparr>
     s2_new = (\<lambda>a. k_open (demo_socket\<lparr>sk_peer := None\<rparr>)),
     s2_connect = demo_connect,
     s2_bind = demo_bind,
     s2_listen = (\<lambda>fd n. k_call fd (sock_set id)),
     s2_accept = (\<lambda>fd. bind_io (k_accept fd) (\<lambda>fd'. ret (fd', None))),
     s2_read = (\<lambda>fd buf. k_call fd (sock_read buf)),
     s2_write = (\<lambda>fd buf. k_call fd (sock_write buf)),
     s2_flush = (\<lambda>fd. ret ()),
     s2_shutdown = (\<lambda>fd how. k_call fd (sock_shutdown how)),
     s2_peer_addr = (\<lambda>fd. k_call fd (sock_get sk_peer)),
     s2_local_addr = (\<lambda>fd. k_call fd (sock_get sk_local)),
     s2_set_reuse_address = (\<lambda>fd b. k_call fd (sock_set id)),
     s2_set_reuse_port = (\<lambda>fd b. k_call fd (sock_set id)),
     s2_set_tcp_keepalive = (\<lambda>fd n. k_call fd
       (if n = 0 then fail (OsError 22 InvalidInput) else sock_set id)),
     s2_set_read_timeout = (\<lambda>fd d. k_call fd (sock_set (\<lambda>sk. sk\<lparr>sk_read_timeout := d\<rparr>))),
     s2_set_write_timeout = (\<lambda>fd d. k_call fd (sock_set (\<lambda>sk. sk\<lparr>sk_write_timeout := d\<rparr>))),
     s2_read_timeout = (\<lambda>fd. k_call fd (sock_get sk_read_timeout)),
     s2_write_timeout = (\<lambda>fd. k_call fd (sock_get sk_write_timeout)),
     s2_peek = (\<lambda>fd buf. k_call fd (\<lambda>sk. let n = min (length buf) (length (sk_rx sk)) in
        Some (Ok (n, map Some (take n (sk_rx sk)) @ drop n buf), sk))),
     s2_set_nodelay = (\<lambda>fd b. k_call fd (sock_set (\<lambda>sk. sk\<lparr>sk_nodelay := b\<rparr>))),
     s2_nodelay = (\<lambda>fd. k_call fd (sock_get sk_nodelay)),
     s2_set_ttl = (\<lambda>fd n. k_call fd (sock_set (\<lambda>sk. sk\<lparr>sk_ttl := n\<rparr>))),
     s2_ttl = (\<lambda>fd. k_call fd (sock_get sk_ttl)),
     s2_set_nonblocking = (\<lambda>fd b. k_call fd (sock_set (\<lambda>sk. sk\<lparr>sk_nonblocking := b\<rparr>))),
     s2_try_clone = k_dup,
     s2_take_error = (\<lambda>fd. k_call fd sock_take_error),
     s2_as_raw_fd = id,
     s2_from_raw_fd = id,
     s2_drop = k_close \<rparr>"

definition demo_opens :: "kernel \<Rightarrow> raw_fd set" where
  "demo_opens k = {fd. k_fds k fd \<noteq> None \<and> fd < k_next k}"

lemma demo_opens_update [simp]: "demo_opens (k_update fd f k) = demo_opens k"
  by (simp add: demo_opens_def k_update_def split: option.splits)

lemma keeps_call: "keeps demo_opens (k_call fd op)"
  by (auto simp: keeps_def k_call_Some)

lemma keeps_demo_bind: "keeps demo_opens (demo_bind fd a)"
  unfolding keeps_def demo_bind_def
  by (auto split: option.splits dest: keepsD [OF keeps_call])

lemma demo_tracks_handles: "tracks_handles demo_socket2 demo_addr_lib demo_opens"
  by (simp add: tracks_handles_def demo_socket2_def demo_addr_lib_def keeps_call keeps_demo_bind)
    (auto simp: keeps_def demo_opens_def k_open_def k_close_def demo_connect_def k_update_def
      split: option.splits sum.splits if_splits)

section \<open>Properties\<close>

text \<open>
  C4: a failed non-blocking connection attempt leaks no socket.  Whatever step fails (resolution,
  creation, an option, the connection itself), an error leaves exactly the handles that were open
  before; success adds exactly the handle it returns.
\<close>

theorem connect_nonblocking_no_leak:
  assumes tracks: "tracks_handles lib al opens"
    and run: "Socket_connect_nonblocking lib al addr timeout w = Some z"
  shows "acquires opens (opens w) z"
  using run unfolding Socket_connect_nonblocking_def
proof (rule acquires_after_addr [OF first_addr_keeps [OF tracks_handlesD(4) [OF tracks]]])
  note step = owns_bind_drop [OF tracks]
  fix a w z
  assume "bind_io (s2_new lib a) (\<lambda>sock. bind_drop (s2_drop lib sock)
    (s2_set_nonblocking lib sock True) (\<lambda>_. Socket_finish_connect lib sock a)) w = Some z"
  then show "acquires opens (opens w) z"
    by (rule owns_fresh [OF tracks])
      (rule step, auto intro: tracks_handlesD(7) [OF tracks] owns_finish_connect [OF tracks])
qed

theorem connect_nonblocking_no_leak_witness:
  "tracks_handles demo_socket2 demo_addr_lib demo_opens \<and>
   (\<exists>w'. Socket_connect_nonblocking demo_socket2 demo_addr_lib (Some demo_addr) 5
        (demo_kernel demo_socket (Inl (OsError 111 ConnectionRefused))) =
      Some (Err (OsError 111 ConnectionRefused), w') \<and>
    demo_opens w' = demo_opens (demo_kernel demo_socket (Inl (OsError 111 ConnectionRefused))))"
proof -
  let ?k = "demo_kernel demo_socket (Inl (OsError 111 ConnectionRefused))"
  obtain w' where run: "Socket_connect_nonblocking demo_socket2 demo_addr_lib (Some demo_addr) 5 ?k =
      Some (Err (OsError 111 ConnectionRefused), w')"
    by (simp add: Socket_connect_nonblocking_def Socket_finish_connect_def first_addr_def
        demo_socket2_def demo_addr_lib_def k_open_def k_call_def k_sock_def sock_set_def k_update_def
        demo_connect_def demo_bind_def demo_kernel_def demo_socket_def EINPROGRESS_def EALREADY_def)
  from connect_nonblocking_no_leak [OF demo_tracks_handles run] run demo_tracks_handles
  show ?thesis by (auto simp: acquires_def)
qed

text \<open>
  C5: the same for the connection attempt from a reusable local address, with its four further
  steps.
\<close>

theorem connect_reusable_nonblocking_no_leak:
  assumes tracks: "tracks_handles lib al opens"
    and run: "Socket_connect_reusable_nonblocking lib al local remote w = Some z"
  shows "acquires opens (opens w) z"
  using run unfolding Socket_connect_reusable_nonblocking_def
proof (rule acquires_after_addr [OF first_addr_keeps [OF tracks_handlesD(4) [OF tracks]]],
    elim acquires_after_addr [OF first_addr_keeps [OF tracks_handlesD(4) [OF tracks]]])
  note step = owns_bind_drop [OF tracks]
  fix l r w z
  assume "bind_io (s2_new lib l) (\<lambda>sock.
     bind_drop (s2_drop lib sock) (s2_set_nonblocking lib sock True) (\<lambda>_.
     bind_drop (s2_drop lib sock) (s2_set_reuse_address lib sock True) (\<lambda>_.
     bind_drop (s2_drop lib sock) (s2_set_reuse_port lib sock True) (\<lambda>_.
     bind_drop (s2_drop lib sock) (s2_bind lib sock l) (\<lambda>_.
     Socket_finish_connect lib sock r))))) w = Some z"
  then show "acquires opens (opens w) z"
    by (rule owns_fresh [OF tracks])
      ((erule step, rule tracks_handlesD(6-9) [OF tracks], assumption, assumption)+,
        auto intro: owns_finish_connect [OF tracks])
qed

theorem connect_reusable_nonblocking_no_leak_witness:
  "tracks_handles demo_socket2 demo_addr_lib demo_opens \<and>
   (\<exists>w'. Socket_connect_reusable_nonblocking demo_socket2 demo_addr_lib (Some demo_addr)
        (Some demo_addr) (demo_kernel demo_socket (Inl (OsError 114 Other))) =
      Some (Err (SimpleError AlreadyExists), w') \<and>
    demo_opens w' = demo_opens (demo_kernel demo_socket (Inl (OsError 114 Other))))"
proof -
  let ?k = "demo_kernel demo_socket (Inl (OsError 114 Other))"
  obtain w' where run: "Socket_connect_reusable_nonblocking demo_socket2 demo_addr_lib
      (Some demo_addr) (Some demo_addr) ?k = Some (Err (SimpleError AlreadyExists), w')"
    by (simp add: Socket_connect_reusable_nonblocking_def Socket_finish_connect_def first_addr_def
        demo_socket2_def demo_addr_lib_def k_open_def k_call_def k_sock_def sock_set_def k_update_def
        demo_connect_def demo_bind_def demo_kernel_def demo_socket_def EINPROGRESS_def EALREADY_def)
  from connect_reusable_nonblocking_no_leak [OF demo_tracks_handles run] run demo_tracks_handles
  show ?thesis by (auto simp: acquires_def)
qed

text \<open>
  C6: a keep-alive option that cannot be set costs the stream its descriptor.  The wrapper
  \<^verbatim>\<open>set_tcp_keepalive\<close> makes owns the stream's descriptor until the option is set; when setting
  it fails, the wrapper's destructor closes the descriptor although the \<^verbatim>\<open>TcpStream\<close> lives on,
  and every later read or write of the stream fails with \<^verbatim>\<open>EBADF\<close>.  The hypotheses are the
  ownership rules of \<^verbatim>\<open>from_raw_fd\<close> and \<^verbatim>\<open>Drop\<close>.
\<close>

theorem set_tcp_keepalive_failure_closes:
  assumes drop: "\<And>k. s2_drop lib (s2_from_raw_fd lib (stream_fd s)) k = k_close (stream_fd s) k"
    and fails: "s2_set_tcp_keepalive lib (s2_from_raw_fd lib (stream_fd s)) ka k = Some (Err e, k')"
  shows "\<exists>k''. TcpStream_set_tcp_keepalive lib s ka k = Some (Err e, k'') \<and>
    TcpStream_read s buf k'' = Some (Err EBADF, k'') \<and>
    TcpStream_write s buf k'' = Some (Err EBADF, k'')"
  using assms
  by (simp add: TcpStream_set_tcp_keepalive_def Let_def TcpStream_read_def TcpStream_write_def
      k_call_def k_sock_def k_close_def)

theorem set_tcp_keepalive_failure_closes_witness:
  "\<exists>k''. TcpStream_set_tcp_keepalive demo_socket2 (TcpStream 3) 0 (demo_kernel demo_socket (Inl EPIPE)) =
      Some (Err (OsError 22 InvalidInput), k'') \<and>
    TcpStream_read (TcpStream 3) [0] k'' = Some (Err EBADF, k'') \<and>
    TcpStream_write (TcpStream 3) [0] k'' = Some (Err EBADF, k'')"
proof (rule set_tcp_keepalive_failure_closes)
  show "s2_drop demo_socket2 (s2_from_raw_fd demo_socket2 (stream_fd (TcpStream 3))) k =
      k_close (stream_fd (TcpStream 3)) k" for k
    by (simp add: demo_socket2_def)
  show "s2_set_tcp_keepalive demo_socket2 (s2_from_raw_fd demo_socket2 (stream_fd (TcpStream 3))) 0
      (demo_kernel demo_socket (Inl EPIPE)) =
    Some (Err (OsError 22 InvalidInput), demo_kernel demo_socket (Inl EPIPE))"
    by (simp add: demo_socket2_def k_call_def k_sock_def k_update_def demo_kernel_def fun_upd_def)
qed

text \<open>
  C7: the byte-by-byte copy of \<^verbatim>\<open>socket2\<close>'s \<^verbatim>\<open>peek\<close> is a slice copy.  If the library initialised
  the first \<open>len\<close> bytes of the scratch buffer, the caller's buffer starts with exactly those bytes
  and keeps its remaining bytes; no index is out of range and no uninitialised byte is read.
\<close>

lemma peek_copy_from:
  assumes "i + n \<le> length buf" and "map Some bs = take n (drop i buf2)" and "length bs = n"
  shows "peek_copy [i..<i + n] buf2 buf = Ok (take i buf @ bs @ drop (i + n) buf)"
  using assms
proof (induction n arbitrary: i bs buf)
  case 0
  then show ?case by simp
next
  case (Suc n)
  then obtain b bs' where bs: "bs = b # bs'" by (cases bs) auto
  from Suc.prems(2) bs have "i < length buf2" by (cases "i < length buf2") auto
  then have *: "buf2 ! i = Some b" "map Some bs' = take n (drop (Suc i) buf2)"
    using Suc.prems(2) bs by (simp_all add: Cons_nth_drop_Suc [symmetric])
  with Suc.prems bs \<open>i < length buf2\<close> Suc.IH [of "Suc i" "buf[i := b]" bs'] show ?case
    by (simp add: upt_conv_Cons take_Suc_conv_app_nth del: upt_Suc)
qed

theorem Socket_peek_copies:
  assumes "s2_peek lib sock (replicate (length buf) None) w =
      Some (Ok (length bs, map Some bs @ junk), w')"
    and "length bs \<le> length buf"
  shows "Socket_peek lib sock buf w = Some (Ok (length bs, bs @ drop (length bs) buf), w')"
  using assms peek_copy_from [of 0 "length bs" buf bs "map Some bs @ junk"]
  by (simp add: Socket_peek_def)

theorem Socket_peek_copies_witness:
  "Socket_peek demo_socket2 3 [0, 0, 9] (demo_kernel (demo_socket\<lparr>sk_rx := [1, 2]\<rparr>) (Inl EPIPE)) =
     Some (Ok (2, [1, 2, 9]), demo_kernel (demo_socket\<lparr>sk_rx := [1, 2]\<rparr>) (Inl EPIPE))"
  using Socket_peek_copies [of demo_socket2 3 "[0, 0, 9]"
      "demo_kernel (demo_socket\<lparr>sk_rx := [1, 2]\<rparr>) (Inl EPIPE)" "[1, 2]" "[None]"
      "demo_kernel (demo_socket\<lparr>sk_rx := [1, 2]\<rparr>) (Inl EPIPE)"]
  by (simp add: demo_socket2_def k_call_def k_sock_def k_update_def demo_kernel_def fun_upd_def
      demo_socket_def)

end
