(* ===== verification/Session.thy ===== *)
theory Session
  imports Connection
begin

text \<open>
  The generic part of \<^verbatim>\<open>src/session.rs\<close>: the traits \<^verbatim>\<open>NetStream\<close>, \<^verbatim>\<open>NetSession\<close> and
  \<^verbatim>\<open>NetStateMachine\<close> as records of their required methods, their provided methods as
  definitions, the protocol layer \<^verbatim>\<open>NetProtocol\<close> that runs a handshake over an inner session, and
  the sessions that plain \<^verbatim>\<open>TcpStream\<close>s and \<^verbatim>\<open>socket2::Socket\<close>s are.  A session value \<open>'s\<close>
  and the world \<open>'w\<close> it lives in form the state its methods run in.
\<close>

section \<open>Link direction\<close>

text \<open>\<^verbatim>\<open>Direction\<close> of \<^verbatim>\<open>src/lib.rs\<close>.\<close>

datatype Direction = Inbound | Outbound

fun is_inbound :: "Direction \<Rightarrow> bool" where
  "is_inbound Inbound = True"
| "is_inbound Outbound = False"

fun is_outbound :: "Direction \<Rightarrow> bool" where
  "is_outbound Outbound = True"
| "is_outbound Inbound = False"

section \<open>Traits\<close>

record ('s, 'w) NetStream =
  nread :: "bytes \<Rightarrow> ('s \<times> 'w, nat \<times> bytes) io"
  nwrite :: "bytes \<Rightarrow> ('s \<times> 'w, nat) io"
  nflush :: "('s \<times> 'w, unit) io"

record ('s, 'w, 'c, 'art) NetSession = "('s, 'w) NetStream" +
  run_handshake :: "('s \<times> 'w, unit) io"
  artifact :: "'s \<times> 'w \<Rightarrow> 'art option"
  as_connection :: "'s \<Rightarrow> 'c"
  disconnect :: "'s \<Rightarrow> ('w, unit) io"

definition is_established :: "('s, 'w, 'c, 'art, 'z) NetSession_scheme \<Rightarrow> 's \<times> 'w \<Rightarrow> bool" where
  "is_established ss x \<longleftrightarrow> artifact ss x \<noteq> None"

definition NetSession_display ::
  "('art \<Rightarrow> string) \<Rightarrow> ('s, 'w, 'c, 'art, 'z) NetSession_scheme \<Rightarrow> 's \<times> 'w \<Rightarrow> string"
where
  "NetSession_display to_string ss x =
     (case artifact ss x of Some a \<Rightarrow> to_string a | None \<Rightarrow> ''<no-id>'')"

text \<open>
  A handshake state machine: \<open>advance\<close> takes the bytes received and returns the next state with
  the bytes to send or the machine's own error; \<open>error_to_string\<close> is the error's \<^verbatim>\<open>Display\<close>.  The
  machines belong to other crates; their methods are taken to return, as their signatures say,
  without panicking.
\<close>

record ('m, 'i, 'a, 'e) NetStateMachine =
  sm_init :: "'m \<Rightarrow> 'i \<Rightarrow> 'm"
  next_read_len :: "'m \<Rightarrow> nat"
  advance :: "'m \<Rightarrow> bytes \<Rightarrow> 'm \<times> ('e + bytes)"
  sm_artifact :: "'m \<Rightarrow> 'a option"
  is_init :: "'m \<Rightarrow> bool"
  error_to_string :: "'e \<Rightarrow> string"

definition is_complete :: "('m, 'i, 'a, 'e, 'z) NetStateMachine_scheme \<Rightarrow> 'm \<Rightarrow> bool" where
  "is_complete sm m \<longleftrightarrow> sm_artifact sm m \<noteq> None"

text \<open>
  \<^verbatim>\<open>HandshakeError\<close> and the \<^verbatim>\<open>map_err\<close> every call of \<^verbatim>\<open>advance\<close> is followed by.
\<close>

definition handshake_error :: "string \<Rightarrow> io_error" where
  "handshake_error msg = CustomError ConnectionAborted (''handshake has failed due to '' @ msg)"

definition advance_io ::
  "('m, 'i, 'a, 'e, 'z) NetStateMachine_scheme \<Rightarrow> bytes \<Rightarrow> ('m, bytes) io"
where
  "advance_io sm input m = (case advance sm m input of
      (m', Inl e) \<Rightarrow> Some (Err (handshake_error (error_to_string sm e)), m')
    | (m', Inr act) \<Rightarrow> Some (Ok act, m'))"

text \<open>
  The blocking handshake loop of \<^verbatim>\<open>NetStateMachine::run_handshake\<close>; \<open>rd\<close> and \<open>wr\<close> are the
  \<^verbatim>\<open>read\<close> and \<^verbatim>\<open>write\<close> of the stream it is given, which runs in the state \<open>'x\<close>.
\<close>

partial_function (option) handshake_loop ::
  "('m, 'i, 'a, 'e) NetStateMachine \<Rightarrow> (bytes \<Rightarrow> ('x, nat \<times> bytes) io) \<Rightarrow> (bytes \<Rightarrow> ('x, nat) io) \<Rightarrow>
   bytes \<Rightarrow> 'm \<Rightarrow> 'x \<Rightarrow> ((io_error, unit) outcome \<times> 'm \<times> 'x) option"
where
  "handshake_loop sm rd wr input m x =
     (if is_complete sm m then Some (Ok (), m, x)
      else Option.bind (advance_io sm input m) (\<lambda>(r, m').
        case r of
          Err e \<Rightarrow> Some (Err e, m', x)
        | Panic msg \<Rightarrow> Some (Panic msg, m', x)
        | Ok act \<Rightarrow>
            Option.bind (if act \<noteq> [] then write_all wr act x else Some (Ok (), x)) (\<lambda>(r, y).
              case r of
                Err e \<Rightarrow> Some (Err e, m', y)
              | Panic msg \<Rightarrow> Some (Panic msg, m', y)
              | Ok _ \<Rightarrow>
                  (if is_complete sm m' then handshake_loop sm rd wr input m' y
                   else Option.bind (read_exact rd (replicate (next_read_len sm m') 0) y) (\<lambda>(r, z).
                     case r of
                       Err e \<Rightarrow> Some (Err e, m', z)
                     | Panic msg \<Rightarrow> Some (Panic msg, m', z)
                     | Ok input' \<Rightarrow> handshake_loop sm rd wr input' m' z)))))"

declare handshake_loop.simps [code]

definition NetStateMachine_run_handshake ::
  "('m, 'i, 'a, 'e) NetStateMachine \<Rightarrow> (bytes \<Rightarrow> ('x, nat \<times> bytes) io) \<Rightarrow> (bytes \<Rightarrow> ('x, nat) io) \<Rightarrow>
   ('m \<times> 'x, unit) io"
where
  "NetStateMachine_run_handshake sm rd wr = (\<lambda>(m, x). handshake_loop sm rd wr [] m x)"

section \<open>NetProtocol\<close>

record ('art, 'a) ProtocolArtifact =
  pa_session :: 'art
  pa_state :: 'a

record ('m, 's) NetProtocol =
  np_state :: 'm
  np_session :: 's

definition NetProtocol_with :: "'s \<Rightarrow> 'm \<Rightarrow> ('m, 's) NetProtocol" where
  "NetProtocol_with session state_machine = \<lparr>np_state = state_machine, np_session = session\<rparr>"

definition NetProtocol_new :: "'m \<Rightarrow> 's \<Rightarrow> ('m, 's) NetProtocol" where
  "NetProtocol_new default_state session = NetProtocol_with session default_state"

text \<open>Methods of the two fields, run inside the protocol.\<close>

definition on_session :: "('s \<times> 'w, 'e, 'r) prog \<Rightarrow> (('m, 's) NetProtocol \<times> 'w, 'e, 'r) prog" where
  "on_session = zoom (\<lambda>(p, w). (np_session p, w)) (\<lambda>(s, w') (p, w). (p\<lparr>np_session := s\<rparr>, w'))"

definition on_state :: "('m, 'e, 'r) prog \<Rightarrow> (('m, 's) NetProtocol \<times> 'w, 'e, 'r) prog" where
  "on_state = zoom (\<lambda>(p, w). np_state p) (\<lambda>m (p, w). (p\<lparr>np_state := m\<rparr>, w))"

text \<open>
  \<open>ii\<close> is the conversion \<^verbatim>\<open>IntoInit\<close> of the inner session's artifact.  The result is the
  returned flag and the protocol afterwards.
\<close>

definition NetProtocol_init ::
  "('m, 'i, 'a, 'e) NetStateMachine \<Rightarrow> ('s, 'w, 'c, 'art, 'z) NetSession_scheme \<Rightarrow> ('art \<Rightarrow> 'i) \<Rightarrow>
   ('m, 's) NetProtocol \<times> 'w \<Rightarrow> bool \<times> ('m, 's) NetProtocol"
where
  "NetProtocol_init sm ss ii = (\<lambda>(p, w).
     if \<not> is_init sm (np_state p) then
       (case artifact ss (np_session p, w) of
          Some a \<Rightarrow> (True, p\<lparr>np_state := sm_init sm (np_state p) (ii a)\<rparr>)
        | None \<Rightarrow> (False, p))
     else (False, p))"

definition NetProtocol_read ::
  "('m, 'i, 'a, 'e) NetStateMachine \<Rightarrow> ('s, 'w, 'c, 'art, 'z) NetSession_scheme \<Rightarrow> ('art \<Rightarrow> 'i) \<Rightarrow>
   bytes \<Rightarrow> (('m, 's) NetProtocol \<times> 'w, nat \<times> bytes) io"
where
  "NetProtocol_read sm ss ii buf = (\<lambda>(p, w).
     if is_complete sm (np_state p) \<or> \<not> is_established ss (np_session p, w)
     then on_session (nread ss buf) (p, w)
     else
       (let p = snd (NetProtocol_init sm ss ii (p, w));
            len = next_read_len sm (np_state p) in
        bind_io (on_session (read_exact (nread ss) (replicate len 0))) (\<lambda>input.
          if input \<noteq> [] then
            bind_io (on_state (advance_io sm input)) (\<lambda>output.
              if output \<noteq> [] then
                bind_io (on_session (write_all (nwrite ss) output)) (\<lambda>_. ret (0, buf))
              else ret (0, buf))
          else ret (0, buf)) (p, w)))"

definition NetProtocol_write ::
  "('m, 'i, 'a, 'e) NetStateMachine \<Rightarrow> ('s, 'w, 'c, 'art, 'z) NetSession_scheme \<Rightarrow> ('art \<Rightarrow> 'i) \<Rightarrow>
   bytes \<Rightarrow> (('m, 's) NetProtocol \<times> 'w, nat) io"
where
  "NetProtocol_write sm ss ii buf = (\<lambda>(p, w).
     if is_complete sm (np_state p) \<or> \<not> is_established ss (np_session p, w)
     then on_session (nwrite ss buf) (p, w)
     else
       (let p = snd (NetProtocol_init sm ss ii (p, w));
            finish = (if buf = [] then ret 0 else fail (SimpleError Interrupted)) in
        (if next_read_len sm (np_state p) = 0 then
           bind_io (on_state (advance_io sm [])) (\<lambda>act.
             if act \<noteq> [] then
               bind_io (on_session (write_all (nwrite ss) act)) (\<lambda>_. finish)
             else on_session (nwrite ss buf))
         else finish) (p, w)))"

definition NetProtocol_flush ::
  "('s, 'w, 'c, 'art, 'z) NetSession_scheme \<Rightarrow> (('m, 's) NetProtocol \<times> 'w, unit) io"
where
  "NetProtocol_flush ss = on_session (nflush ss)"

text \<open>
  The blocking handshake: the inner session's first, then this layer's on the bare connection
  (\<open>cn\<close> are the methods of the connection type).
\<close>

definition NetProtocol_run_handshake ::
  "('c, 'w, 'addr, 'ka) NetConnection \<Rightarrow> ('m, 'i, 'a, 'e) NetStateMachine \<Rightarrow>
   ('s, 'w, 'c, 'art, 'z) NetSession_scheme \<Rightarrow> ('art \<Rightarrow> 'i) \<Rightarrow> (('m, 's) NetProtocol \<times> 'w, unit) io"
where
  "NetProtocol_run_handshake cn sm ss ii = (\<lambda>(p, w).
     bind_io (if \<not> is_established ss (np_session p, w) then on_session (run_handshake ss) else ret ())
       (\<lambda>_ (p, w).
          let p = snd (NetProtocol_init sm ss ii (p, w));
              c = as_connection ss (np_session p) in
          zoom (\<lambda>(p, w). (np_state p, w)) (\<lambda>(m, w') (p, w). (p\<lparr>np_state := m\<rparr>, w'))
            (NetStateMachine_run_handshake sm (conn_read cn c) (conn_write cn c)) (p, w))
       (p, w))"

definition NetProtocol_artifact ::
  "('m, 'i, 'a, 'e) NetStateMachine \<Rightarrow> ('s, 'w, 'c, 'art, 'z) NetSession_scheme \<Rightarrow>
   ('m, 's) NetProtocol \<times> 'w \<Rightarrow> ('art, 'a) ProtocolArtifact option"
where
  "NetProtocol_artifact sm ss = (\<lambda>(p, w).
     (case artifact ss (np_session p, w) of
        None \<Rightarrow> None
      | Some a \<Rightarrow>
          (case sm_artifact sm (np_state p) of
             None \<Rightarrow> None
           | Some b \<Rightarrow> Some \<lparr>pa_session = a, pa_state = b\<rparr>)))"

text \<open>The implementation of \<^verbatim>\<open>NetSession\<close>, and of its supertrait, for a protocol layer.\<close>

definition NetProtocol_session ::
  "('c, 'w, 'addr, 'ka) NetConnection \<Rightarrow> ('m, 'i, 'a, 'e) NetStateMachine \<Rightarrow>
   ('s, 'w, 'c, 'art, 'z) NetSession_scheme \<Rightarrow> ('art \<Rightarrow> 'i) \<Rightarrow>
   (('m, 's) NetProtocol, 'w, 'c, ('art, 'a) ProtocolArtifact) NetSession"
where
  "NetProtocol_session cn sm ss ii = \<lparr>
     nread = NetProtocol_read sm ss ii,
     nwrite = NetProtocol_write sm ss ii,
     nflush = NetProtocol_flush ss,
     run_handshake = NetProtocol_run_handshake cn sm ss ii,
     artifact = NetProtocol_artifact sm ss,
     as_connection = (\<lambda>p. as_connection ss (np_session p)),
     disconnect = (\<lambda>p. disconnect ss (np_session p)) \<rparr>"

section \<open>Connections as sessions\<close>

text \<open>A method of a handle, with the handle kept in the state.\<close>

definition with_handle :: "('c \<Rightarrow> ('w, 'e, 'r) prog) \<Rightarrow> ('c \<times> 'w, 'e, 'r) prog" where
  "with_handle m = (\<lambda>(c, w). map_option (\<lambda>(r, w'). (r, (c, w'))) (m c w))"

text \<open>
  Both \<^verbatim>\<open>TcpStream\<close> and \<^verbatim>\<open>Socket\<close> are sessions without a handshake whose artifact is the
  peer's address; \<open>peer\<close> is the address query.  \<^verbatim>\<open>disconnect\<close> consumes the connection, so it is
  dropped behind the \<^verbatim>\<open>shutdown\<close>.
\<close>

definition connection_session ::
  "('c, 'w, 'addr, 'ka) NetConnection \<Rightarrow> ('c \<times> 'w \<Rightarrow> SocketAddr option) \<Rightarrow>
   ('c, 'w, 'c, SocketAddr) NetSession"
where
  "connection_session cn peer = \<lparr>
     nread = (\<lambda>buf. with_handle (\<lambda>c. conn_read cn c buf)),
     nwrite = (\<lambda>buf. with_handle (\<lambda>c. conn_write cn c buf)),
     nflush = with_handle (conn_flush cn),
     run_handshake = ret (),
     artifact = peer,
     as_connection = (\<lambda>c. c),
     disconnect = (\<lambda>c w. map_option (\<lambda>(r, w'). (r, drop_conn cn c w')) (shutdown cn c ShutBoth w)) \<rparr>"

definition TcpStream_artifact :: "TcpStream \<times> kernel \<Rightarrow> SocketAddr option" where
  "TcpStream_artifact = (\<lambda>(s, k). case TcpStream_peer_addr s k of
      Some (Ok a, _) \<Rightarrow> Some a
    | _ \<Rightarrow> None)"

definition TcpStream_session ::
  "(TcpStream, kernel, 'addr, 'ka) NetConnection \<Rightarrow> (TcpStream, kernel, TcpStream, SocketAddr) NetSession"
where
  "TcpStream_session cn = connection_session cn TcpStream_artifact"

text \<open>\<^verbatim>\<open>peer_addr().ok()?.as_socket()\<close>\<close>

definition Socket_artifact ::
  "('k, 'w, 'ka, 'z) socket2_lib_scheme \<Rightarrow> 'k \<times> 'w \<Rightarrow> SocketAddr option"
where
  "Socket_artifact lib = (\<lambda>(sock, w). case s2_peer_addr lib sock w of
      Some (Ok a, _) \<Rightarrow> a
    | _ \<Rightarrow> None)"

definition Socket_session ::
  "('k, 'w, 'ka, 'z) socket2_lib_scheme \<Rightarrow> ('k, 'w, 'addr, 'ka) NetConnection \<Rightarrow>
   ('k, 'w, 'k, SocketAddr) NetSession"
where
  "Socket_session lib cn = connection_session cn (Socket_artifact lib)"

end
