(* ===== verification/Protocol_Laws.thy ===== *)
theory Protocol_Laws
  imports Session
begin

text \<open>
  Laws of the protocol layer of \<open>Session\<close>: it passes the stream contract of its inner session on
  to its own client, so layers stack; once its handshake is complete it is transparent; before
  that it delivers no application data, and what it sends is the machine's act, except when the
  machine has nothing to say.
\<close>

section \<open>Stepping through a layer\<close>

lemma on_session_Some [io_simps]:
  "on_session m (p, w) = Some (r, q) \<longleftrightarrow>
     (\<exists>s' w'. m (np_session p, w) = Some (r, (s', w')) \<and> q = (p\<lparr>np_session := s'\<rparr>, w'))"
  by (auto simp: on_session_def io_simps)

lemma on_state_Some [io_simps]:
  "on_state m (p, w) = Some (r, q) \<longleftrightarrow>
     (\<exists>m'. m (np_state p) = Some (r, m') \<and> q = (p\<lparr>np_state := m'\<rparr>, w))"
  by (auto simp: on_state_def io_simps)

lemma with_handle_Some [io_simps]:
  "with_handle m (c, w) = Some (r, q) \<longleftrightarrow> (\<exists>w'. m c w = Some (r, w') \<and> q = (c, w'))"
  by (auto simp: with_handle_def)

lemma advance_io_no_panic [simp]: "advance_io sm input m \<noteq> Some (Panic msg, m')"
  by (auto simp: advance_io_def split: prod.splits sum.splits)

lemma NetProtocol_init_session [simp]:
  "np_session (snd (NetProtocol_init sm ss ii x)) = np_session (fst x)"
  by (auto simp: NetProtocol_init_def split: prod.splits option.splits)

text \<open>The three ways a read and a write can go, as equations.\<close>

lemma read_pass:
  assumes "is_complete sm (np_state p) \<or> \<not> is_established ss (np_session p, w)"
  shows "NetProtocol_read sm ss ii buf (p, w) = on_session (nread ss buf) (p, w)"
  using assms by (simp add: NetProtocol_read_def)

lemma write_pass:
  assumes "is_complete sm (np_state p) \<or> \<not> is_established ss (np_session p, w)"
  shows "NetProtocol_write sm ss ii buf (p, w) = on_session (nwrite ss buf) (p, w)"
  using assms by (simp add: NetProtocol_write_def)

abbreviation handshaking ::
  "('m, 'i, 'a, 'e) NetStateMachine \<Rightarrow> ('s, 'w, 'c, 'art, 'z) NetSession_scheme \<Rightarrow>
   ('m, 's) NetProtocol \<times> 'w \<Rightarrow> bool"
where
  "handshaking sm ss x \<equiv> \<not> is_complete sm (np_state (fst x)) \<and>
     is_established ss (np_session (fst x), snd x)"

definition read_act ::
  "('m, 'i, 'a, 'e) NetStateMachine \<Rightarrow> ('s, 'w, 'c, 'art, 'z) NetSession_scheme \<Rightarrow> bytes \<Rightarrow> bytes \<Rightarrow>
   (('m, 's) NetProtocol \<times> 'w, nat \<times> bytes) io"
where
  "read_act sm ss buf input =
     (if input \<noteq> [] then
        bind_io (on_state (advance_io sm input)) (\<lambda>output.
          if output \<noteq> [] then bind_io (on_session (write_all (nwrite ss) output)) (\<lambda>_. ret (0, buf))
          else ret (0, buf))
      else ret (0, buf))"

lemma read_handshake:
  assumes "handshaking sm ss (p, w)" and "p' = snd (NetProtocol_init sm ss ii (p, w))"
  shows "NetProtocol_read sm ss ii buf (p, w) =
    bind_io (on_session (read_exact (nread ss) (replicate (next_read_len sm (np_state p')) 0)))
      (read_act sm ss buf) (p', w)"
  using assms by (simp add: NetProtocol_read_def Let_def read_act_def [abs_def])

definition write_finish :: "bytes \<Rightarrow> ('x, nat) io" where
  "write_finish buf = (if buf = [] then ret 0 else fail (SimpleError Interrupted))"

definition write_act ::
  "('s, 'w, 'c, 'art, 'z) NetSession_scheme \<Rightarrow> bytes \<Rightarrow> bytes \<Rightarrow> (('m, 's) NetProtocol \<times> 'w, nat) io"
where
  "write_act ss buf act =
     (if act \<noteq> [] then bind_io (on_session (write_all (nwrite ss) act)) (\<lambda>_. write_finish buf)
      else on_session (nwrite ss buf))"

lemma write_handshake:
  assumes "handshaking sm ss (p, w)" and "p' = snd (NetProtocol_init sm ss ii (p, w))"
  shows "NetProtocol_write sm ss ii buf (p, w) =
    (if next_read_len sm (np_state p') = 0
     then bind_io (on_state (advance_io sm [])) (write_act ss buf) (p', w)
     else write_finish buf (p', w))"
  using assms
  by (cases "buf = []")
    (simp_all add: NetProtocol_write_def Let_def write_act_def [abs_def] write_finish_def cong: if_cong)

lemma write_finish_Some [io_simps]:
  "write_finish buf x = Some (r, y) \<longleftrightarrow>
     y = x \<and> r = (if buf = [] then Ok 0 else Err (SimpleError Interrupted))"
  by (auto simp: write_finish_def)

lemma write_act_data:
  fixes x :: "('m, 's) NetProtocol \<times> 'w"
  assumes "act \<noteq> []"
  shows "map_option snd (write_act ss buf act x) = map_option snd (write_act ss [] act x)"
    and "write_act ss buf act x = Some (Ok n, y) \<Longrightarrow> n = 0 \<and> buf = []"
  using assms
  by (cases "on_session (write_all (nwrite ss) act) :: (('m, 's) NetProtocol \<times> 'w, unit) io" x
        rule: prog_cases; auto simp: write_act_def write_finish_def split: if_splits)+

text \<open>
  A machine with nothing to say: it neither waits for input nor answers with an act.
\<close>

definition silent :: "('m, 'i, 'a, 'e) NetStateMachine \<Rightarrow> 'm \<Rightarrow> bool" where
  "silent sm m \<longleftrightarrow> next_read_len sm m = 0 \<and> snd (advance sm m []) = Inr []"

text \<open>
  During the handshake, a write of a machine with something to say does the same for all data.
\<close>

lemma write_data:
  assumes hs: "handshaking sm ss (p, w)" and p': "p' = snd (NetProtocol_init sm ss ii (p, w))"
    and speaks: "\<not> silent sm (np_state p')"
  shows "map_option snd (NetProtocol_write sm ss ii buf (p, w)) =
      map_option snd (NetProtocol_write sm ss ii [] (p, w)) \<and>
    (\<forall>n x. NetProtocol_write sm ss ii buf (p, w) = Some (Ok n, x) \<longrightarrow> n = 0 \<and> buf = [])"
proof (cases "next_read_len sm (np_state p') = 0")
  case False
  then show ?thesis by (simp add: write_handshake [OF hs p'] write_finish_def)
next
  case True
  obtain m' res where adv: "advance sm (np_state p') [] = (m', res)" by fastforce
  show ?thesis
  proof (cases res)
    case (Inl e)
    with adv True show ?thesis
      by (auto simp: write_handshake [OF hs p'] on_state_def zoom_def advance_io_def)
  next
    case (Inr act)
    with speaks True adv have "act \<noteq> []" by (auto simp: silent_def)
    with adv Inr True write_act_data(1) [OF this] show ?thesis
      by (auto simp: write_handshake [OF hs p'] on_state_def zoom_def advance_io_def
          dest: write_act_data(2) [OF \<open>act \<noteq> []\<close>])
  qed
qed

lemma established_layer:
  "is_established (NetProtocol_session cn sm ss ii) (p, w) \<longleftrightarrow>
     is_established ss (np_session p, w) \<and> is_complete sm (np_state p)"
  by (auto simp: is_established_def NetProtocol_session_def NetProtocol_artifact_def
      is_complete_def split: option.splits)

section \<open>Layers keep the stream contract\<close>

locale protocol_layer = byte_stream "nread ss" "nwrite ss"
  for ss :: "('s, 'w, 'c, 'art, 'z) NetSession_scheme" +
  fixes sm :: "('m, 'i, 'a, 'e) NetStateMachine"
    and ii :: "'art \<Rightarrow> 'i"
begin

lemma read_act_outcome:
  assumes "read_act sm ss buf input x = Some (r, y)"
  shows "r = Ok (0, buf) \<or> (\<exists>e. r = Err e)"
  using assms
  by (cases x; cases r)
    (auto simp: read_act_def io_simps write_all_no_panic split: if_splits)

lemma write_act_outcome:
  assumes "write_act ss buf act x = Some (r, y)"
  shows "(\<exists>n \<le> length buf. r = Ok n) \<or> (\<exists>e. r = Err e)"
  using assms
  by (cases x; cases r)
    (auto simp: write_act_def io_simps write_all_no_panic wr_no_panic dest: wr_len split: if_splits)

lemma layer_read_outcome:
  assumes "NetProtocol_read sm ss ii buf x = Some (r, y)"
  shows "(\<exists>n buf'. r = Ok (n, buf') \<and> n \<le> length buf \<and> length buf' = length buf) \<or> (\<exists>e. r = Err e)"
proof (cases x)
  case (Pair p w)
  show ?thesis
  proof (cases "handshaking sm ss (p, w)")
    case True
    with assms Pair show ?thesis
      by (cases r) (auto simp: read_handshake [OF True refl] io_simps read_exact_no_panic
          dest!: read_act_outcome)
  next
    case False
    with assms Pair show ?thesis
      by (cases r) (auto simp: read_pass io_simps rd_no_panic dest: rd_len)
  qed
qed

lemma layer_write_outcome:
  assumes "NetProtocol_write sm ss ii buf x = Some (r, y)"
  shows "(\<exists>n \<le> length buf. r = Ok n) \<or> (\<exists>e. r = Err e)"
proof (cases x)
  case (Pair p w)
  show ?thesis
  proof (cases "handshaking sm ss (p, w)")
    case True
    with assms Pair show ?thesis
      by (cases r) (auto simp: write_handshake [OF True refl] io_simps dest!: write_act_outcome
          split: if_splits)
  next
    case False
    with assms Pair show ?thesis
      by (cases r) (auto simp: write_pass io_simps wr_no_panic dest: wr_len)
  qed
qed

end

sublocale protocol_layer \<subseteq> layer: byte_stream "NetProtocol_read sm ss ii" "NetProtocol_write sm ss ii"
  by unfold_locales (force dest: layer_read_outcome layer_write_outcome)+

section \<open>Complete layers are transparent\<close>

definition layer_good ::
  "('m, 'i, 'a, 'e) NetStateMachine \<Rightarrow> ('s \<times> 'w \<Rightarrow> bool) \<Rightarrow> ('m, 's) NetProtocol \<times> 'w \<Rightarrow> bool"
where
  "layer_good sm good = (\<lambda>(p, w). is_complete sm (np_state p) \<and> good (np_session p, w))"

definition through :: "('s \<times> 'w \<Rightarrow> 'b) \<Rightarrow> ('m, 's) NetProtocol \<times> 'w \<Rightarrow> 'b" where
  "through f = (\<lambda>(p, w). f (np_session p, w))"

locale duplex_layer = byte_duplex "nread ss" "nwrite ss" good inp out
  for ss :: "('s, 'w, 'c, 'art, 'z) NetSession_scheme"
    and good :: "'s \<times> 'w \<Rightarrow> bool" and inp :: "'s \<times> 'w \<Rightarrow> bytes" and out :: "'s \<times> 'w \<Rightarrow> bytes" +
  fixes sm :: "('m, 'i, 'a, 'e) NetStateMachine"
    and ii :: "'art \<Rightarrow> 'i"

sublocale duplex_layer \<subseteq> protocol_layer ss sm ii
  by unfold_locales

sublocale duplex_layer \<subseteq> layer: byte_duplex "NetProtocol_read sm ss ii" "NetProtocol_write sm ss ii"
  "layer_good sm good" "through inp" "through out"
  by unfold_locales
    (auto simp: layer_good_def through_def read_pass write_pass io_simps
      dest!: rd_moves [rotated] rd_err [rotated] wr_moves [rotated] wr_err [rotated])

context duplex_layer
begin

text \<open>What a read during the handshake does: it consumes one act and answers it.\<close>

lemma handshake_read_effect:
  assumes hs: "handshaking sm ss (p, w)" and good: "good (np_session p, w)"
    and p': "p' = snd (NetProtocol_init sm ss ii (p, w))"
    and run: "NetProtocol_read sm ss ii buf (p, w) = Some (Ok (n, buf'), (q, v))"
  shows "\<exists>input. length input = next_read_len sm (np_state p') \<and>
    inp (np_session p, w) = input @ inp (np_session q, v) \<and> good (np_session q, v) \<and>
    (if input = [] then np_state q = np_state p' \<and> out (np_session q, v) = out (np_session p, w)
     else \<exists>act. advance sm (np_state p') input = (np_state q, Inr act) \<and>
       out (np_session q, v) = out (np_session p, w) @ act)"
proof -
  from p' have p'_sess: "np_session p' = np_session p" by simp
  let ?zs = "replicate (next_read_len sm (np_state p')) 0"
  from run obtain input s1 w1
    where rd: "read_exact (nread ss) ?zs (np_session p, w) = Some (Ok input, (s1, w1))"
      and act: "read_act sm ss buf input (p'\<lparr>np_session := s1\<rparr>, w1) = Some (Ok (n, buf'), (q, v))"
    by (auto simp: read_handshake [OF hs p'] io_simps p'_sess)
  from read_exact_len [OF rd] have len: "length input = next_read_len sm (np_state p')" by simp
  note moves = read_exact_moves [OF good rd]
  show ?thesis
  proof (cases "input = []")
    case True
    with act moves len show ?thesis by (auto simp: read_act_def intro!: exI [of _ "[]"])
  next
    case False
    with act obtain out' m' where adv: "advance_io sm input (np_state p') = Some (Ok out', m')"
      and rest: "(if out' \<noteq> [] then bind_io (on_session (write_all (nwrite ss) out')) (\<lambda>_. ret (0, buf))
        else ret (0, buf)) (p'\<lparr>np_session := s1, np_state := m'\<rparr>, w1) = Some (Ok (n, buf'), (q, v))"
      by (auto simp: read_act_def io_simps)
    from adv have adv': "advance sm (np_state p') input = (m', Inr out')"
      by (auto simp: advance_io_def split: prod.splits sum.splits)
    from rest have "np_state q = m' \<and> out (np_session q, v) = out (s1, w1) @ out' \<and>
        inp (np_session q, v) = inp (s1, w1) \<and> good (np_session q, v)"
      using moves(3)
      by (auto simp: io_simps split: if_splits dest: write_all_moves [OF moves(3)])
    with moves len adv' False show ?thesis by (auto intro!: exI [of _ input])
  qed
qed

text \<open>What a write of any data during the handshake does to the medium, whether it succeeds or not.\<close>

lemma write_act_wire:
  assumes good: "good (np_session x, w)" and run: "write_act ss buf act (x, w) = Some (r, (q, v))"
  shows "np_state q = np_state x \<and> inp (np_session q, v) = inp (np_session x, w) \<and>
    (\<exists>tx. out (np_session q, v) = out (np_session x, w) @ tx \<and>
      (if act \<noteq> [] then prefix tx act \<and> (\<forall>n. r = Ok n \<longrightarrow> tx = act)
       else prefix tx buf \<and> (\<forall>n. r = Ok n \<longrightarrow> tx = take n buf)))"
proof (cases "act = []")
  case True
  with run good show ?thesis
    by (cases r) (auto simp: write_act_def io_simps wr_no_panic take_is_prefix
        dest: wr_moves [OF good] wr_err [OF good])
next
  case False
  with run obtain r1 s1 w1 where wr: "write_all (nwrite ss) act (np_session x, w) = Some (r1, (s1, w1))"
    and q: "q = x\<lparr>np_session := s1\<rparr>" "v = w1" and r: "\<forall>n. r = Ok n \<longrightarrow> r1 = Ok ()"
    by (cases "write_all (nwrite ss) act" "(np_session x, w)" rule: prog_cases)
      (auto simp: write_act_def on_session_def io_simps split: if_splits)
  from write_all_from_moves [OF wr good] show ?thesis
    using False q r by (auto simp: take_is_prefix split: outcome.splits)
qed

lemma handshake_write_wire:
  assumes hs: "handshaking sm ss (p, w)" and good: "good (np_session p, w)"
    and p': "p' = snd (NetProtocol_init sm ss ii (p, w))"
    and run: "NetProtocol_write sm ss ii buf (p, w) = Some (r, (q, v))"
  shows "inp (np_session q, v) = inp (np_session p, w) \<and>
    (\<exists>tx. out (np_session q, v) = out (np_session p, w) @ tx \<and>
      (if 0 < next_read_len sm (np_state p') then tx = [] \<and> np_state q = np_state p'
       else np_state q = fst (advance sm (np_state p') []) \<and>
         (case snd (advance sm (np_state p') []) of
            Inl e \<Rightarrow> tx = [] \<and> r = Err (handshake_error (error_to_string sm e))
          | Inr act \<Rightarrow>
              if act \<noteq> [] then prefix tx act \<and> (\<forall>n. r = Ok n \<longrightarrow> tx = act)
              else prefix tx buf \<and> (\<forall>n. r = Ok n \<longrightarrow> tx = take n buf))))"
proof (cases "0 < next_read_len sm (np_state p')")
  case True
  with run p' show ?thesis by (auto simp: write_handshake [OF hs p'] io_simps)
next
  case False
  obtain m' res where adv: "advance sm (np_state p') [] = (m', res)" by fastforce
  from p' have p'_sess: "np_session p' = np_session p" by simp
  show ?thesis
  proof (cases res)
    case (Inl e)
    with False run adv p'_sess show ?thesis
      by (auto simp: write_handshake [OF hs p'] on_state_def zoom_def advance_io_def)
  next
    case (Inr act)
    with False run adv have "write_act ss buf act (p'\<lparr>np_state := m'\<rparr>, w) = Some (r, (q, v))"
      by (auto simp: write_handshake [OF hs p'] on_state_def zoom_def advance_io_def)
    from write_act_wire [OF _ this] good show ?thesis
      using False adv Inr p'_sess by simp
  qed
qed

end

section \<open>The blocking handshake loop\<close>

lemma send_act: "(if act \<noteq> [] then write_all wr act x else Some (Ok (), x)) = write_all wr act x"
  by simp

lemma handshake_loop_unfold:
  "handshake_loop sm rd wr input m x =
     (if is_complete sm m then Some (Ok (), m, x)
      else case advance sm m input of
        (m', Inl e) \<Rightarrow> Some (Err (handshake_error (error_to_string sm e)), m', x)
      | (m', Inr act) \<Rightarrow>
          (case write_all wr act x of
             None \<Rightarrow> None
           | Some (Err e, y) \<Rightarrow> Some (Err e, m', y)
           | Some (Panic msg, y) \<Rightarrow> Some (Panic msg, m', y)
           | Some (Ok _, y) \<Rightarrow>
               (if is_complete sm m' then Some (Ok (), m', y)
                else case read_exact rd (replicate (next_read_len sm m') 0) y of
                  None \<Rightarrow> None
                | Some (Err e, z) \<Rightarrow> Some (Err e, m', z)
                | Some (Panic msg, z) \<Rightarrow> Some (Panic msg, m', z)
                | Some (Ok input', z) \<Rightarrow> handshake_loop sm rd wr input' m' z)))"
proof -
  have stop: "handshake_loop sm rd wr input m' y = Some (Ok (), m', y)" if "is_complete sm m'" for m' y
    using that by (subst handshake_loop.simps) simp
  show ?thesis
    by (subst handshake_loop.simps)
      (auto simp: send_act advance_io_def stop bind_eq_None_conv split: prod.splits sum.splits option.splits
        outcome.splits Option.bind_splits)
qed

end
