(* ===== verification/Handshake.thy ===== *)
theory Handshake
  imports Protocol_Laws
begin

text \<open>
  The abstract meaning of a handshake and the two ways the library runs one.  \<open>awaits\<close> is the
  specification: at every incomplete state the machine is given exactly the bytes it asks for and
  its answer is sent.  The blocking loop (\<^verbatim>\<open>NetStateMachine::run_handshake\<close>) and any sequence of
  read and write events on a protocol layer (what a reactor does) both refine it; since it is
  deterministic in the bytes of the peer, they agree.
\<close>

section \<open>Specification\<close>

inductive awaits ::
  "('m, 'i, 'a, 'e) NetStateMachine \<Rightarrow> 'm \<Rightarrow> bytes \<Rightarrow> bytes \<Rightarrow> 'm \<Rightarrow> bool" for sm
where
  finished: "is_complete sm m \<Longrightarrow> awaits sm m [] [] m"
| act: "\<not> is_complete sm m \<Longrightarrow> length input = next_read_len sm m \<Longrightarrow>
    advance sm m input = (m', Inr output) \<Longrightarrow> awaits sm m' rx tx m'' \<Longrightarrow>
    awaits sm m (input @ rx) (output @ tx) m''"

inductive_cases awaits_complete: "awaits sm m rx tx m'"

lemma awaits_is_complete: "awaits sm m rx tx m' \<Longrightarrow> is_complete sm m'"
  by (induction rule: awaits.induct) auto

lemma awaits_deterministic:
  assumes "awaits sm m rx tx m1" and "awaits sm m rx' tx' m2" and "rx @ later = rx' @ later'"
  shows "rx = rx' \<and> tx = tx' \<and> m1 = m2"
  using assms
proof (induction arbitrary: rx' tx' rule: awaits.induct)
  case (finished m)
  from finished.prems(1) show ?case by (rule awaits_complete) (use finished.hyps in auto)
next
  case (act m input mi sent rx tx mf)
  from act.prems(1) show ?case
  proof (rule awaits_complete)
    fix input2 sent2 m2' rx2 tx2
    assume *: "rx' = input2 @ rx2" "tx' = sent2 @ tx2" "length input2 = next_read_len sm m"
      "advance sm m input2 = (m2', Inr sent2)" "awaits sm m2' rx2 tx2 m2"
    with act.prems(2) act.hyps(2) have "input2 = input \<and> rx @ later = rx2 @ later'" by simp
    with * act.hyps(3) act.IH [of rx2 tx2] show ?thesis by auto
  qed (use act.hyps(1) in auto)
qed

section \<open>The blocking loop refines the specification\<close>

lemma handshake_loop_run [consumes 1, case_names Complete Refused Unsent Unread Sent Next]:
  assumes run: "handshake_loop sm rd wr input m x = Some z"
    and Complete: "\<And>input m x. is_complete sm m \<Longrightarrow> P input m x (Ok (), m, x)"
    and Refused: "\<And>input m x e m'. \<not> is_complete sm m \<Longrightarrow> advance sm m input = (m', Inl e) \<Longrightarrow>
      P input m x (Err (handshake_error (error_to_string sm e)), m', x)"
    and Unsent: "\<And>input m x act m' r y. \<not> is_complete sm m \<Longrightarrow> advance sm m input = (m', Inr act) \<Longrightarrow>
      write_all wr act x = Some (r, y) \<Longrightarrow> \<forall>u. r \<noteq> Ok u \<Longrightarrow> P input m x (r, m', y)"
    and Unread: "\<And>input m x act m' u y (r :: (io_error, bytes) outcome) r' z.
      \<not> is_complete sm m \<Longrightarrow> advance sm m input = (m', Inr act) \<Longrightarrow>
      write_all wr act x = Some (Ok u, y) \<Longrightarrow> \<not> is_complete sm m' \<Longrightarrow>
      read_exact rd (replicate (next_read_len sm m') 0) y = Some (r, z) \<Longrightarrow>
      (\<exists>e. r = Err e \<and> r' = Err e) \<or> (\<exists>p. r = Panic p \<and> r' = Panic p) \<Longrightarrow>
      P input m x (r', m', z)"
    and Sent: "\<And>input m x act m' u y z. \<not> is_complete sm m \<Longrightarrow> advance sm m input = (m', Inr act) \<Longrightarrow>
      write_all wr act x = Some (Ok u, y) \<Longrightarrow> is_complete sm m' \<Longrightarrow> P input m' y z \<Longrightarrow> P input m x z"
    and Next: "\<And>input m x act m' u y input' y' z. \<not> is_complete sm m \<Longrightarrow>
      advance sm m input = (m', Inr act) \<Longrightarrow> write_all wr act x = Some (Ok u, y) \<Longrightarrow>
      \<not> is_complete sm m' \<Longrightarrow>
      read_exact rd (replicate (next_read_len sm m') 0) y = Some (Ok input', y') \<Longrightarrow>
      P input' m' y' z \<Longrightarrow> P input m x z"
  shows "P input m x z"
proof (rule handshake_loop.raw_induct [where xa = "(((((sm, rd), wr), input), m), x)" and
    P = "\<lambda>sm' rd' wr' input m x z. sm' = sm \<and> rd' = rd \<and> wr' = wr \<longrightarrow> P input m x z",
    unfolded prod.case, OF _ run, THEN mp, OF _ conjI [OF refl conjI [OF refl refl]]], intro impI)
  fix loop sm' rd' wr' input m x z
  assume IH: "\<And>sm' rd' wr' input m x z. loop sm' rd' wr' input m x = Some z \<Longrightarrow>
      sm' = sm \<and> rd' = rd \<and> wr' = wr \<longrightarrow> P input m x z"
    and body: "(if is_complete sm' m then Some (Ok (), m, x)
      else Option.bind (advance_io sm' input m) (\<lambda>(r, m').
        case r of
          Err e \<Rightarrow> Some (Err e, m', x)
        | Panic msg \<Rightarrow> Some (Panic msg, m', x)
        | Ok act \<Rightarrow>
            Option.bind (if act \<noteq> [] then write_all wr' act x else Some (Ok (), x)) (\<lambda>(r, y).
              case r of
                Err e \<Rightarrow> Some (Err e, m', y)
              | Panic msg \<Rightarrow> Some (Panic msg, m', y)
              | Ok _ \<Rightarrow>
                  (if is_complete sm' m' then loop sm' rd' wr' input m' y
                   else Option.bind (read_exact rd' (replicate (next_read_len sm' m') 0) y) (\<lambda>(r, z).
                     case r of
                       Err e \<Rightarrow> Some (Err e, m', z)
                     | Panic msg \<Rightarrow> Some (Panic msg, m', z)
                     | Ok input' \<Rightarrow> loop sm' rd' wr' input' m' z))))) = Some z"
    and same: "sm' = sm \<and> rd' = rd \<and> wr' = wr"
  show "P input m x z"
  proof (cases "is_complete sm m")
    case True
    with body same Complete show ?thesis by auto
  next
    case False
    obtain m' res where adv: "advance sm m input = (m', res)" by fastforce
    show ?thesis
    proof (cases res)
      case (Inl e)
      with body same adv False Refused [OF False, of input m' e x] show ?thesis
        by (auto simp: advance_io_def)
    next
      case (Inr act)
      note step = adv [unfolded Inr]
      show ?thesis
      proof (cases "write_all wr act" x rule: prog_cases)
        case (Ok u y)
        show ?thesis
        proof (cases "is_complete sm m'")
          case True
          with body same step False Ok Sent [OF False step Ok True] IH [of sm rd wr input m' y z]
          show ?thesis by (auto simp: advance_io_def send_act)
        next
          case incomplete: False
          with body same step False Ok Unread [OF False step Ok incomplete]
            Next [OF False step Ok incomplete] IH [of sm rd wr]
          show ?thesis
            by (cases "read_exact rd (replicate (next_read_len sm m') 0)" y rule: prog_cases)
              (auto simp: advance_io_def send_act)
        qed
      qed (use body same step False Unsent [OF False step] in \<open>auto simp: advance_io_def send_act\<close>)
    qed
  qed
qed

definition loop_post ::
  "('m, 'i, 'a, 'e) NetStateMachine \<Rightarrow> ('x \<Rightarrow> bytes) \<Rightarrow> ('x \<Rightarrow> bytes) \<Rightarrow> bytes \<Rightarrow> 'm \<Rightarrow> 'x \<Rightarrow>
   (io_error, unit) outcome \<times> 'm \<times> 'x \<Rightarrow> bool"
where
  "loop_post sm inp out input m x z \<longleftrightarrow> (case z of
      (Ok _, m', y) \<Rightarrow>
        (if is_complete sm m then m' = m \<and> inp y = inp x \<and> out y = out x
         else \<exists>m1 act rx tx. advance sm m input = (m1, Inr act) \<and> awaits sm m1 rx tx m' \<and>
           inp x = rx @ inp y \<and> out y = out x @ act @ tx)
    | _ \<Rightarrow> True)"

context byte_duplex
begin

lemma handshake_loop_awaits:
  "handshake_loop sm rd wr input m x = Some z \<Longrightarrow> good x \<Longrightarrow> loop_post sm inp out input m x z"
proof (induction rule: handshake_loop_run)
  case (Sent input m x act m' u y z)
  note moved = write_all_moves [OF Sent.prems Sent.hyps(3)]
  have "awaits sm m' [] [] m'" using Sent.hyps(4) by (rule finished)
  with Sent.IH [OF moved(3)] Sent.hyps(1,2,4) moved show ?case
    by (fastforce simp: loop_post_def split: outcome.splits prod.splits)
next
  case (Next input m x act m' u y input' y' z)
  note sent = write_all_moves [OF Next.prems Next.hyps(3)]
  note got = read_exact_moves [OF sent(3) Next.hyps(5)]
  have len: "length input' = next_read_len sm m'" using read_exact_len [OF Next.hyps(5)] by simp
  from Next.IH [OF got(3)] Next.hyps(4)
  show ?case
  proof (cases z)
    case (fields r mf yf)
    show ?thesis
    proof (cases r)
      case (Ok v)
      with Next.IH [OF got(3)] Next.hyps(4) fields obtain m1 act1 rx tx where
        "advance sm m' input' = (m1, Inr act1)" "awaits sm m1 rx tx mf"
        "inp y' = rx @ inp yf" "out yf = out y' @ act1 @ tx"
        by (auto simp: loop_post_def)
      with awaits.act [OF Next.hyps(4) len] sent got Next.hyps(1,2) fields Ok show ?thesis
        by (fastforce simp: loop_post_def)
    qed (simp_all add: fields loop_post_def)
  qed
qed (auto simp: loop_post_def split: outcome.splits)

text \<open>
  The blocking handshake from its start.  The loop always begins by calling \<^verbatim>\<open>advance\<close> with no
  input; a machine that waits for its peer must take that as a no-op.
\<close>

lemma run_handshake_awaits:
  assumes good: "good x"
    and run: "NetStateMachine_run_handshake sm rd wr (m, x) = Some (Ok u, m', y)"
    and waits: "0 < next_read_len sm m \<Longrightarrow> advance sm m [] = (m, Inr [])"
  shows "\<exists>rx tx. awaits sm m rx tx m' \<and> inp x = rx @ inp y \<and> out y = out x @ tx"
proof (cases "is_complete sm m")
  case True
  with handshake_loop_awaits [of sm "[]" m x "(Ok u, m', y)"] run good show ?thesis
    by (auto simp: NetStateMachine_run_handshake_def loop_post_def intro: finished)
next
  case False
  with handshake_loop_awaits [of sm "[]" m x "(Ok u, m', y)"] run good obtain m1 act rx tx where
    *: "advance sm m [] = (m1, Inr act)" "awaits sm m1 rx tx m'" "inp x = rx @ inp y"
      "out y = out x @ act @ tx"
    by (auto simp: NetStateMachine_run_handshake_def loop_post_def)
  show ?thesis
  proof (cases "next_read_len sm m = 0")
    case True
    with * awaits.act [OF False _ *(1,2)] show ?thesis by fastforce
  next
    case wait: False
    with waits * show ?thesis by fastforce
  qed
qed

end

section \<open>Driving a layer by events\<close>

text \<open>\<^verbatim>\<open>reactor::Io\<close>: the two kinds of readiness a reactor reports.\<close>

datatype Io = Io_Read | Io_Write

text \<open>
  A handshake run by a reactor: each event calls the layer's \<^verbatim>\<open>read\<close>, or its \<^verbatim>\<open>write\<close> with no
  data, as long as the layer is still in its handshake.
\<close>

fun drive ::
  "('m, 'i, 'a, 'e) NetStateMachine \<Rightarrow> ('s, 'w, 'c, 'art, 'z) NetSession_scheme \<Rightarrow> ('art \<Rightarrow> 'i) \<Rightarrow>
   bytes \<Rightarrow> Io list \<Rightarrow> (('m, 's) NetProtocol \<times> 'w, unit) io"
where
  "drive sm ss ii buf [] x = Some (Ok (), x)"
| "drive sm ss ii buf (e # es) x =
     (if handshaking sm ss x then
        (case e of
           Io_Read \<Rightarrow> bind_io (NetProtocol_read sm ss ii buf) (\<lambda>_. drive sm ss ii buf es) x
         | Io_Write \<Rightarrow> bind_io (NetProtocol_write sm ss ii []) (\<lambda>_. drive sm ss ii buf es) x)
      else Some (Ok (), x))"

context duplex_layer
begin

lemma handshake_write_effect:
  assumes hs: "handshaking sm ss (p, w)" and good: "good (np_session p, w)"
    and p': "p' = snd (NetProtocol_init sm ss ii (p, w))"
    and run: "NetProtocol_write sm ss ii [] (p, w) = Some (Ok n, (q, v))"
  shows "inp (np_session q, v) = inp (np_session p, w) \<and> good (np_session q, v) \<and>
    (if next_read_len sm (np_state p') = 0
     then \<exists>act. advance sm (np_state p') [] = (np_state q, Inr act) \<and>
       out (np_session q, v) = out (np_session p, w) @ act
     else np_state q = np_state p' \<and> out (np_session q, v) = out (np_session p, w))"
proof (cases "next_read_len sm (np_state p') = 0")
  case True
  from p' have p'_sess: "np_session p' = np_session p" by simp
  from run True obtain act m' where adv: "advance_io sm [] (np_state p') = Some (Ok act, m')"
    and wr: "write_act ss [] act (p'\<lparr>np_state := m'\<rparr>, w) = Some (Ok n, (q, v))"
    by (auto simp: write_handshake [OF hs p'] io_simps)
  from adv have adv': "advance sm (np_state p') [] = (m', Inr act)"
    by (auto simp: advance_io_def split: prod.splits sum.splits)
  from wr have "np_state q = m' \<and> out (np_session q, v) = out (np_session p, w) @ act \<and>
      inp (np_session q, v) = inp (np_session p, w) \<and> good (np_session q, v)"
    by (auto simp: write_act_def io_simps p'_sess good split: if_splits
        dest: write_all_moves [OF good] dest!: wr_moves [OF good])
  with adv' True show ?thesis by auto
next
  case False
  with run p' good show ?thesis by (auto simp: write_handshake [OF hs p'] io_simps)
qed

lemma init_noop: "is_init sm (np_state p) \<Longrightarrow> snd (NetProtocol_init sm ss ii (p, w)) = p"
  by (simp add: NetProtocol_init_def)

text \<open>
  One event moves a piece of the transcript: whatever transcript completes the handshake after the
  event, the piece in front of it completes the handshake before.
\<close>

definition extends_transcript :: "('m, 's) NetProtocol \<times> 'w \<Rightarrow> ('m, 's) NetProtocol \<times> 'w \<Rightarrow> bool" where
  "extends_transcript x y \<longleftrightarrow> good (np_session (fst y), snd y) \<and>
     (\<exists>rx tx. inp (np_session (fst x), snd x) = rx @ inp (np_session (fst y), snd y) \<and>
        out (np_session (fst y), snd y) = out (np_session (fst x), snd x) @ tx \<and>
        (\<forall>rx' tx' m'. awaits sm (np_state (fst y)) rx' tx' m' \<longrightarrow>
           awaits sm (np_state (fst x)) (rx @ rx') (tx @ tx') m'))"

lemma read_event:
  assumes hs: "handshaking sm ss (p, w)" and good: "good (np_session p, w)"
    and init: "is_init sm (np_state p)"
    and run: "NetProtocol_read sm ss ii buf (p, w) = Some (Ok r, (q, v))"
  shows "extends_transcript (p, w) (q, v) \<and>
    (np_state q = np_state p \<or> (\<exists>input. np_state q = fst (advance sm (np_state p) input)))"
proof -
  obtain n buf' where r: "r = (n, buf')" by (cases r)
  from handshake_read_effect [OF hs good init_noop [OF init, symmetric] run [unfolded r]]
  obtain input where input: "length input = next_read_len sm (np_state p)"
    and inp: "inp (np_session p, w) = input @ inp (np_session q, v)" "good (np_session q, v)"
    and eff: "if input = [] then np_state q = np_state p \<and> out (np_session q, v) = out (np_session p, w)
      else \<exists>act. advance sm (np_state p) input = (np_state q, Inr act) \<and>
        out (np_session q, v) = out (np_session p, w) @ act" by blast
  show ?thesis
  proof (cases "input = []")
    case True
    with inp eff show ?thesis by (auto simp: extends_transcript_def intro!: exI [of _ "[]"])
  next
    case False
    with eff obtain act where act: "advance sm (np_state p) input = (np_state q, Inr act)"
      "out (np_session q, v) = out (np_session p, w) @ act" by auto
    have "extends_transcript (p, w) (q, v)"
      using inp act awaits.act [OF _ input act(1)] hs
      by (auto simp: extends_transcript_def intro!: exI [of _ input] exI [of _ act])
    with act show ?thesis by (metis fst_conv)
  qed
qed

lemma write_event:
  assumes hs: "handshaking sm ss (p, w)" and good: "good (np_session p, w)"
    and init: "is_init sm (np_state p)"
    and run: "NetProtocol_write sm ss ii [] (p, w) = Some (Ok n, (q, v))"
  shows "extends_transcript (p, w) (q, v) \<and>
    (np_state q = np_state p \<or> (\<exists>input. np_state q = fst (advance sm (np_state p) input)))"
proof -
  note eff = handshake_write_effect [OF hs good init_noop [OF init, symmetric] run]
  show ?thesis
  proof (cases "next_read_len sm (np_state p) = 0")
    case True
    with eff obtain act where act: "advance sm (np_state p) [] = (np_state q, Inr act)"
      "out (np_session q, v) = out (np_session p, w) @ act" by auto
    have "extends_transcript (p, w) (q, v)"
      using eff act awaits.act [OF _ _ act(1)] hs True
      by (auto simp: extends_transcript_def intro!: exI [of _ "[]"] exI [of _ act])
    with act show ?thesis by (metis fst_conv)
  next
    case False
    with eff show ?thesis by (auto simp: extends_transcript_def intro!: exI [of _ "[]"])
  qed
qed

text \<open>
  Any sequence of events that brings the layer's machine to completion has sent and received a
  transcript of the specification.
\<close>

lemma drive_awaits:
  assumes run: "drive sm ss ii buf es (p, w) = Some (Ok u, (q, v))" and good: "good (np_session p, w)"
    and init: "is_init sm (np_state p)"
    and stays: "\<And>m input. is_init sm m \<Longrightarrow> is_init sm (fst (advance sm m input))"
    and fin: "is_complete sm (np_state q)"
  shows "\<exists>rx tx. awaits sm (np_state p) rx tx (np_state q) \<and>
    inp (np_session p, w) = rx @ inp (np_session q, v) \<and>
    out (np_session q, v) = out (np_session p, w) @ tx"
  using run good init
proof (induction es arbitrary: p w)
  case Nil
  with fin show ?case by (auto intro: finished)
next
  case (Cons e es)
  show ?case
  proof (cases "handshaking sm ss (p, w)")
    case False
    with Cons.prems fin show ?thesis by (auto intro: finished)
  next
    case hs: True
    with Cons.prems(1) obtain p1 w1
      where rest: "drive sm ss ii buf es (p1, w1) = Some (Ok u, (q, v))"
        and step: "extends_transcript (p, w) (p1, w1)"
        and state: "np_state p1 = np_state p \<or>
          (\<exists>input. np_state p1 = fst (advance sm (np_state p) input))"
      by (cases e) (auto simp: io_simps dest!: read_event [OF hs Cons.prems(2,3)]
          write_event [OF hs Cons.prems(2,3)])
    from state stays [OF Cons.prems(3)] Cons.prems(3) have "is_init sm (np_state p1)" by auto
    with Cons.IH [OF rest] step show ?thesis by (fastforce simp: extends_transcript_def)
  qed
qed

end

end
