(* ===== verification/Layers.thy ===== *)
theory Layers
  imports Handshake
begin

text \<open>
  Protocol layers over TCP: the interfaces of \<open>Prelude\<close> and \<open>Protocol_Laws\<close> interpreted on the
  model of \<^verbatim>\<open>TcpStream\<close>, and the properties of \<^verbatim>\<open>NetProtocol\<close> and of the handshake that follow.
\<close>

section \<open>TCP sessions\<close>

abbreviation tcp_session ::
  "('k, kernel, 'ka, 'z) socket2_lib_scheme \<Rightarrow> ('addr, kernel, 'y) addr_lib_scheme \<Rightarrow>
   (TcpStream, kernel, TcpStream, SocketAddr) NetSession"
where
  "tcp_session lib al \<equiv> TcpStream_session (TcpStream_connection lib al)"

definition sess_inp :: "TcpStream \<times> kernel \<Rightarrow> bytes" where
  "sess_inp = (\<lambda>(s, k). tcp_inp s k)"

definition sess_out :: "TcpStream \<times> kernel \<Rightarrow> bytes" where
  "sess_out = (\<lambda>(s, k). tcp_out s k)"

lemma tcp_session_sel [simp]:
  "nread (tcp_session lib al) = (\<lambda>buf. with_handle (\<lambda>s. TcpStream_read s buf))"
  "nwrite (tcp_session lib al) = (\<lambda>buf. with_handle (\<lambda>s. TcpStream_write s buf))"
  "nflush (tcp_session lib al) = with_handle (\<lambda>s. ret ())"
  "artifact (tcp_session lib al) = TcpStream_artifact"
  "run_handshake (tcp_session lib al) = ret ()"
  "as_connection (tcp_session lib al) = (\<lambda>s. s)"
  by (simp_all add: TcpStream_session_def connection_session_def TcpStream_connection_def)

lemma NetProtocol_session_sel [simp]:
  "nread (NetProtocol_session cn sm ss ii) = NetProtocol_read sm ss ii"
  "nwrite (NetProtocol_session cn sm ss ii) = NetProtocol_write sm ss ii"
  "nflush (NetProtocol_session cn sm ss ii) = NetProtocol_flush ss"
  "artifact (NetProtocol_session cn sm ss ii) = NetProtocol_artifact sm ss"
  "run_handshake (NetProtocol_session cn sm ss ii) = NetProtocol_run_handshake cn sm ss ii"
  by (simp_all add: NetProtocol_session_def)

lemmas tcp_transfers = tcp.rd_moves [OF TrueI] tcp.rd_err [OF TrueI] tcp.wr_moves [OF TrueI]
  tcp.wr_err [OF TrueI]

interpretation tcp_layer: duplex_layer "tcp_session lib al" "\<lambda>_. True" sess_inp sess_out sm ii
  for lib al sm ii
proof (unfold duplex_layer_def tcp_session_sel, unfold_locales)
qed (auto simp: io_simps sess_inp_def sess_out_def tcp.rd_no_panic tcp.wr_no_panic
    dest: tcp.rd_len tcp.wr_len tcp_transfers)

text \<open>A layer on a layer on TCP; the lower one must be complete for the medium to be TCP's.\<close>

interpretation tcp_layer2: duplex_layer "NetProtocol_session cn sm (tcp_session lib al) ii"
  "layer_good sm (\<lambda>_. True)" "through sess_inp" "through sess_out" sm2 ii2
  for cn lib al sm ii sm2 ii2
  unfolding duplex_layer_def NetProtocol_session_sel
  by (rule tcp_layer.layer.byte_duplex_axioms)

section \<open>Termination of the blocking handshake\<close>

text \<open>
  A stream whose transfers cannot wait forever: it is non-blocking, or both its timeouts are set.
\<close>

definition bounded_waits :: "TcpStream \<Rightarrow> kernel \<Rightarrow> bool" where
  "bounded_waits s k \<longleftrightarrow> (case k_sock k (stream_fd s) of
      None \<Rightarrow> True
    | Some sk \<Rightarrow> sk_nonblocking sk \<or> (sk_read_timeout sk \<noteq> None \<and> sk_write_timeout sk \<noteq> None))"

definition verdicts_left :: "TcpStream \<Rightarrow> kernel \<Rightarrow> nat" where
  "verdicts_left s k = (case k_sock k (stream_fd s) of None \<Rightarrow> 0 | Some sk \<Rightarrow> length (sk_script sk))"

lemma EBADF_kind [simp]: "kind EBADF = Other" "kind EAGAIN = WouldBlock" "kind EPIPE = BrokenPipe"
  "kind ECONNRESET = ConnectionReset"
  by (simp_all add: EBADF_def EAGAIN_def EPIPE_def ECONNRESET_def)

lemma sock_read_waits:
  "sk_nonblocking sk \<or> sk_read_timeout sk \<noteq> None \<Longrightarrow> sock_read buf sk \<noteq> None"
  by (auto simp: sock_read.simps sock_deliver_def Let_def split: list.splits verdict.splits)

lemma sock_write_waits:
  "sk_nonblocking sk \<or> sk_write_timeout sk \<noteq> None \<Longrightarrow> sock_write buf sk \<noteq> None"
  by (auto simp: sock_write.simps sock_accept_def Let_def split: list.splits verdict.splits)

lemma sock_read_options:
  "sock_read buf sk = Some (r, sk') \<Longrightarrow> sk_nonblocking sk' = sk_nonblocking sk \<and>
     sk_read_timeout sk' = sk_read_timeout sk \<and> sk_write_timeout sk' = sk_write_timeout sk \<and>
     ((\<forall>e. r = Err e \<longrightarrow> kind e = Interrupted) \<longrightarrow> sk_peer sk' = sk_peer sk) \<and>
     (\<forall>e. r = Err e \<longrightarrow> kind e = Interrupted \<longrightarrow> length (sk_script sk') < length (sk_script sk))"
  by (auto simp: sock_read.simps sock_deliver_def Let_def
      split: list.splits verdict.splits if_splits)

lemma sock_write_options:
  "sock_write buf sk = Some (r, sk') \<Longrightarrow> sk_nonblocking sk' = sk_nonblocking sk \<and>
     sk_read_timeout sk' = sk_read_timeout sk \<and> sk_write_timeout sk' = sk_write_timeout sk \<and>
     ((\<forall>e. r = Err e \<longrightarrow> kind e = Interrupted) \<longrightarrow> sk_peer sk' = sk_peer sk) \<and>
     (\<forall>e. r = Err e \<longrightarrow> kind e = Interrupted \<longrightarrow> length (sk_script sk') < length (sk_script sk))"
  by (auto simp: sock_write.simps sock_accept_def Let_def
      split: list.splits verdict.splits if_splits)

lemma tcp_read_bounded:
  assumes "bounded_waits s k"
  shows "TcpStream_read s buf k \<noteq> None"
    and "TcpStream_read s buf k = Some (r, k') \<Longrightarrow> bounded_waits s k'"
    and "TcpStream_read s buf k = Some (Err e, k') \<Longrightarrow> kind e = Interrupted \<Longrightarrow>
      verdicts_left s k' < verdicts_left s k"
  using assms sock_read_waits
  by (auto simp: TcpStream_read_def k_call_def bounded_waits_def verdicts_left_def
      split: option.splits dest!: sock_read_options)

lemma tcp_write_bounded:
  assumes "bounded_waits s k"
  shows "TcpStream_write s buf k \<noteq> None"
    and "TcpStream_write s buf k = Some (r, k') \<Longrightarrow> bounded_waits s k'"
    and "TcpStream_write s buf k = Some (Err e, k') \<Longrightarrow> kind e = Interrupted \<Longrightarrow>
      verdicts_left s k' < verdicts_left s k"
  using assms sock_write_waits
  by (auto simp: TcpStream_write_def k_call_def bounded_waits_def verdicts_left_def
      split: option.splits dest!: sock_write_options)

lemma tcp_read_exact_returns:
  "bounded_waits s k \<Longrightarrow> \<exists>r k'. read_exact (TcpStream_read s) buf k = Some (r, k') \<and> bounded_waits s k'"
  unfolding read_exact_def
  by (rule read_exact_from_returns [where \<mu> = "verdicts_left s"])
    (auto dest: tcp_read_bounded tcp.rd_len simp: tcp_read_bounded(1))

lemma tcp_write_all_returns:
  "bounded_waits s k \<Longrightarrow> \<exists>r k'. write_all (TcpStream_write s) buf k = Some (r, k') \<and> bounded_waits s k'"
  by (rule write_all_returns [where \<mu> = "verdicts_left s"])
    (auto dest: tcp_write_bounded simp: tcp_write_bounded(1))

text \<open>
  One iteration: given that the rest of the loop returns from any state the iteration can lead to,
  the loop returns.
\<close>

lemma handshake_loop_step:
  assumes k: "bounded_waits s k"
    and rest: "\<And>m' act input' k'. advance sm m input = (m', Inr act) \<Longrightarrow> \<not> is_complete sm m' \<Longrightarrow>
      length input' = next_read_len sm m' \<Longrightarrow> bounded_waits s k' \<Longrightarrow>
      \<exists>z. handshake_loop sm (TcpStream_read s) (TcpStream_write s) input' m' k' = Some z"
  shows "\<exists>z. handshake_loop sm (TcpStream_read s) (TcpStream_write s) input m k = Some z"
proof (cases "advance sm m input")
  case (Pair m' res)
  note unfold = handshake_loop_unfold [of sm "TcpStream_read s" "TcpStream_write s" input m k]
  show ?thesis
  proof (cases res)
    case (Inr act)
    obtain r k1 where wr: "write_all (TcpStream_write s) act k = Some (r, k1)" "bounded_waits s k1"
      using tcp_write_all_returns [OF k] by blast
    obtain r' k2 where rd: "read_exact (TcpStream_read s) (replicate (next_read_len sm m') 0) k1 =
        Some (r', k2)" "bounded_waits s k2"
      using tcp_read_exact_returns [OF wr(2)] by blast
    show ?thesis
      using Pair Inr wr rd rest [of m' act _ k2]
      by (cases r; cases r') (auto simp: unfold dest: tcp.read_exact_len)
  qed (simp add: unfold Pair)
qed

lemma handshake_loop_returns:
  assumes progress: "\<And>m input m' act. \<not> is_complete sm m \<Longrightarrow> length input = next_read_len sm m \<Longrightarrow>
      advance sm m input = (m', Inr act) \<Longrightarrow> \<nu> m' < (\<nu> m :: nat)"
  shows "length input = next_read_len sm m \<Longrightarrow> bounded_waits s k \<Longrightarrow>
    \<exists>z. handshake_loop sm (TcpStream_read s) (TcpStream_write s) input m k = Some z"
proof (induction "\<nu> m" arbitrary: input m k rule: less_induct)
  case less
  show ?case
  proof (cases "is_complete sm m")
    case True
    then show ?thesis by (simp add: handshake_loop_unfold)
  next
    case False
    show ?thesis
      by (rule handshake_loop_step [OF less.prems(2)])
        (use less.hyps progress [OF False less.prems(1)] in blast)
  qed
qed

lemma handshake_loop_complete:
  "handshake_loop sm rd wr input m x = Some z \<Longrightarrow> (\<forall>u m' y. z = (Ok u, m', y) \<longrightarrow> is_complete sm m')"
  by (induction rule: handshake_loop_run) auto

lemma handshake_loop_no_panic:
  assumes "\<And>act x m y. write_all wr act x \<noteq> Some (Panic m, y)"
    and "\<And>buf x m y. read_exact rd buf x \<noteq> Some (Panic m, y)"
  shows "handshake_loop sm rd wr input m x = Some z \<Longrightarrow> (\<forall>msg m' y. z \<noteq> (Panic msg, m', y))"
  by (induction rule: handshake_loop_run) (auto simp: assms)

section \<open>A machine for concrete runs\<close>

text \<open>An initiator: it greets with one byte, expects two, and confirms with one.\<close>

datatype demo_state = Greeting | Expecting | Agreed bytes

fun demo_advance :: "demo_state \<Rightarrow> bytes \<Rightarrow> demo_state \<times> (unit + bytes)" where
  "demo_advance Greeting [] = (Expecting, Inr [7])"
| "demo_advance Expecting [] = (Expecting, Inr [])"
| "demo_advance Expecting [a, b] = (Agreed [a, b], Inr [9])"
| "demo_advance m _ = (m, Inl ())"

definition demo_machine :: "(demo_state, unit, bytes, unit) NetStateMachine" where
  "demo_machine = \<lparr>
     sm_init = (\<lambda>m _. m),
     next_read_len = (\<lambda>m. case m of Expecting \<Rightarrow> 2 | _ \<Rightarrow> 0),
     advance = demo_advance,
     sm_artifact = (\<lambda>m. case m of Agreed bs \<Rightarrow> Some bs | _ \<Rightarrow> None),
     is_init = (\<lambda>_. True),
     error_to_string = (\<lambda>_. ''unexpected act'') \<rparr>"

definition demo_rank :: "demo_state \<Rightarrow> nat" where
  "demo_rank m = (case m of Greeting \<Rightarrow> 2 | Expecting \<Rightarrow> 1 | Agreed _ \<Rightarrow> 0)"

lemma demo_machine_sel [simp]:
  "next_read_len demo_machine m = (case m of Expecting \<Rightarrow> 2 | _ \<Rightarrow> 0)"
  "advance demo_machine = demo_advance"
  "sm_artifact demo_machine m = (case m of Agreed bs \<Rightarrow> Some bs | _ \<Rightarrow> None)"
  "is_init demo_machine m" "error_to_string demo_machine e = ''unexpected act''"
  by (simp_all add: demo_machine_def)

lemma demo_complete [simp]: "is_complete demo_machine m \<longleftrightarrow> (\<exists>bs. m = Agreed bs)"
  by (cases m) (auto simp: is_complete_def)

lemma demo_progress:
  "\<not> is_complete demo_machine m \<Longrightarrow> length input = next_read_len demo_machine m \<Longrightarrow>
   advance demo_machine m input = (m', Inr act) \<Longrightarrow> demo_rank m' < demo_rank m"
  by (cases "(m, input)" rule: demo_advance.cases) (auto simp: demo_rank_def)

abbreviation demo_net :: "bytes \<Rightarrow> verdict list \<Rightarrow> kernel" where
  "demo_net rx vs \<equiv> demo_kernel
     (demo_socket\<lparr>sk_rx := rx, sk_nonblocking := True, sk_script := vs\<rparr>) (Inl EPIPE)"

abbreviation demo_tcp :: "(TcpStream, kernel, TcpStream, SocketAddr) NetSession" where
  "demo_tcp \<equiv> tcp_session demo_socket2 demo_addr_lib"

lemmas demo_run = NetProtocol_read_def NetProtocol_write_def NetProtocol_init_def on_session_def
  on_state_def zoom_def with_handle_def advance_io_def TcpStream_read_def TcpStream_write_def
  k_call_def k_sock_def k_update_def demo_kernel_def demo_socket_def sock_read.simps
  sock_write.simps sock_deliver_def sock_accept_def is_established_def TcpStream_artifact_def
  TcpStream_peer_addr_def sock_require_def read_exact_def read_exact_from.simps write_all.simps
  replicate_numeral Let_def

section \<open>Properties\<close>

text \<open>
  C8: the two ways to run a handshake agree.  One end drives a protocol layer over TCP by reactor
  events in any order, the other runs the blocking loop on its connection; the operating system
  may cut, delay and interrupt the transfers of the two runs differently.  If both succeed and the
  peer's bytes are the same, then both end in the same machine state, have sent the same bytes
  and leave the same bytes unread.  The machine must take an empty input as a no-op while it waits
  for its peer, since only the blocking loop always starts with one.
\<close>

theorem handshake_modes_agree:
  assumes events: "drive sm (tcp_session lib al) ii buf es (p, k) = Some (Ok (), (q, k1))"
    and complete: "is_complete sm (np_state q)"
    and blocking: "NetStateMachine_run_handshake sm (TcpStream_read t) (TcpStream_write t)
      (np_state p, k2) = Some (Ok (), (m, k3))"
    and peer: "tcp_inp (np_session p) k = tcp_inp t k2"
    and init: "is_init sm (np_state p)"
    and stays: "\<And>m input. is_init sm m \<Longrightarrow> is_init sm (fst (advance sm m input))"
    and waits: "0 < next_read_len sm (np_state p) \<Longrightarrow> advance sm (np_state p) [] = (np_state p, Inr [])"
  shows "m = np_state q \<and> tcp_inp (np_session q) k1 = tcp_inp t k3 \<and>
    (\<exists>tx. tcp_out (np_session q) k1 = tcp_out (np_session p) k @ tx \<and>
       tcp_out t k3 = tcp_out t k2 @ tx)"
proof -
  from tcp_layer.drive_awaits [OF events TrueI init stays complete] obtain rx tx
    where ev: "awaits sm (np_state p) rx tx (np_state q)"
      "tcp_inp (np_session p) k = rx @ tcp_inp (np_session q) k1"
      "tcp_out (np_session q) k1 = tcp_out (np_session p) k @ tx"
    by (auto simp: sess_inp_def sess_out_def)
  from tcp.run_handshake_awaits [OF TrueI blocking waits] obtain rx' tx'
    where bl: "awaits sm (np_state p) rx' tx' m" "tcp_inp t k2 = rx' @ tcp_inp t k3"
      "tcp_out t k3 = tcp_out t k2 @ tx'" by blast
  have "rx @ tcp_inp (np_session q) k1 = rx' @ tcp_inp t k3" using ev(2) bl(2) peer by simp
  from awaits_deterministic [OF ev(1) bl(1) this] ev bl peer show ?thesis by auto
qed

theorem handshake_modes_agree_witness:
  "\<exists>k1 k3. drive demo_machine demo_tcp (\<lambda>_. ()) [0] [Io_Write, Io_Read]
       (\<lparr>np_state = Greeting, np_session = TcpStream 3\<rparr>,
        demo_net [5, 6, 8] [Grant 1, Grant 1, Refuse (SimpleError Interrupted), Grant 1]) =
     Some (Ok (), (\<lparr>np_state = Agreed [5, 6], np_session = TcpStream 3\<rparr>, k1)) \<and>
   NetStateMachine_run_handshake demo_machine (TcpStream_read (TcpStream 3))
       (TcpStream_write (TcpStream 3)) (Greeting, demo_net [5, 6, 8] []) =
     Some (Ok (), (Agreed [5, 6], k3)) \<and>
   tcp_inp (TcpStream 3) k1 = tcp_inp (TcpStream 3) k3"
proof -
  let ?k = "demo_net [5, 6, 8] [Grant 1, Grant 1, Refuse (SimpleError Interrupted), Grant 1]"
  let ?p = "\<lparr>np_state = Greeting, np_session = TcpStream 3\<rparr>"
  obtain k1 where ev: "drive demo_machine demo_tcp (\<lambda>_. ()) [0] [Io_Write, Io_Read] (?p, ?k) =
      Some (Ok (), (\<lparr>np_state = Agreed [5, 6], np_session = TcpStream 3\<rparr>, k1))"
    by (simp add: demo_run)
  obtain k3 where bl: "NetStateMachine_run_handshake demo_machine (TcpStream_read (TcpStream 3))
       (TcpStream_write (TcpStream 3)) (Greeting, demo_net [5, 6, 8] []) =
     Some (Ok (), (Agreed [5, 6], k3))"
    by (simp add: NetStateMachine_run_handshake_def handshake_loop_unfold demo_run)
  from handshake_modes_agree [OF ev, of "TcpStream 3" "demo_net [5, 6, 8] []" "Agreed [5, 6]" k3] ev bl
  show ?thesis by (auto simp: tcp_inp_def k_sock_def demo_kernel_def)
qed

text \<open>
  C9: the blocking handshake returns.  On a stream that is non-blocking or has both timeouts set,
  with a machine that makes progress on every act it is given in full, the handshake loop returns
  whatever the operating system and the peer do; it does not panic, and it returns success only
  in a complete state.
\<close>

theorem run_handshake_returns:
  assumes "bounded_waits s k"
    and "\<And>m input m' act. \<not> is_complete sm m \<Longrightarrow> length input = next_read_len sm m \<Longrightarrow>
      advance sm m input = (m', Inr act) \<Longrightarrow> \<nu> m' < (\<nu> m :: nat)"
  shows "\<exists>r m' k'. NetStateMachine_run_handshake sm (TcpStream_read s) (TcpStream_write s) (m, k) =
      Some (r, m', k') \<and> (\<forall>msg. r \<noteq> Panic msg) \<and> (r = Ok () \<longrightarrow> is_complete sm m')"
proof -
  have "\<exists>z. handshake_loop sm (TcpStream_read s) (TcpStream_write s) [] m k = Some z"
    by (rule handshake_loop_step [OF assms(1)]) (rule handshake_loop_returns [where \<nu> = \<nu>, OF assms(2)])
  then obtain r m' k'
    where "handshake_loop sm (TcpStream_read s) (TcpStream_write s) [] m k = Some (r, m', k')" by auto
  with handshake_loop_complete [OF this]
    handshake_loop_no_panic [OF tcp.write_all_no_panic tcp.read_exact_no_panic this]
  show ?thesis by (simp add: NetStateMachine_run_handshake_def)
qed

theorem run_handshake_returns_witness:
  "bounded_waits (TcpStream 3) (demo_net [5] []) \<and>
   (\<exists>r m' k'. NetStateMachine_run_handshake demo_machine (TcpStream_read (TcpStream 3))
      (TcpStream_write (TcpStream 3)) (Greeting, demo_net [5] []) = Some (r, m', k') \<and>
      (\<forall>msg. r \<noteq> Panic msg) \<and> (r = Ok () \<longrightarrow> is_complete demo_machine m'))"
proof -
  have bounded: "bounded_waits (TcpStream 3) (demo_net [5] [])"
    by (simp add: bounded_waits_def k_sock_def demo_kernel_def)
  show ?thesis
    by (rule conjI [OF bounded run_handshake_returns [where \<nu> = demo_rank, OF bounded]])
      (rule demo_progress)
qed

text \<open>
  C10: during the handshake a read delivers no application data.  While the inner session is
  established and the layer is not complete, a successful read reports zero bytes and leaves the
  caller's buffer as it was, whatever the inner session delivers.
\<close>

theorem handshake_read_delivers_nothing:
  assumes "\<not> is_complete sm (np_state p)" and "is_established ss (np_session p, w)"
    and "NetProtocol_read sm ss ii buf (p, w) = Some (Ok (n, buf'), x)"
  shows "n = 0 \<and> buf' = buf"
proof -
  have hs: "handshaking sm ss (p, w)" using assms(1,2) by simp
  from assms(3) show ?thesis
    by (auto simp: read_handshake [OF hs refl] read_act_def io_simps split: if_splits)
qed

theorem handshake_read_delivers_nothing_witness:
  "\<exists>k. NetProtocol_read demo_machine demo_tcp (\<lambda>_. ()) [0, 0, 0]
       (\<lparr>np_state = Expecting, np_session = TcpStream 3\<rparr>, demo_net [5, 6, 8] []) =
     Some (Ok (0, [0, 0, 0]), (\<lparr>np_state = Agreed [5, 6], np_session = TcpStream 3\<rparr>, k))"
proof -
  obtain n buf' k where run: "NetProtocol_read demo_machine demo_tcp (\<lambda>_. ()) [0, 0, 0]
       (\<lparr>np_state = Expecting, np_session = TcpStream 3\<rparr>, demo_net [5, 6, 8] []) =
     Some (Ok (n, buf'), (\<lparr>np_state = Agreed [5, 6], np_session = TcpStream 3\<rparr>, k))"
    by (simp add: demo_run)
  have "is_established demo_tcp
      (np_session \<lparr>np_state = Expecting, np_session = TcpStream 3\<rparr>, demo_net [5, 6, 8] [])"
    by (simp add: demo_run)
  from handshake_read_delivers_nothing [OF _ this run] run show ?thesis by simp
qed

text \<open>
  C11: during the handshake a write does the same whatever the data are.  Let \<open>m\<close> be the machine's
  state once the layer has initialised it.  Unless the machine is silent there (it neither waits for
  input nor has an act to send), what a write does to the layer, the inner session and the world
  does not depend on the data, and the write succeeds for empty data only.  The silent
  machine is a real exception, see C12.
\<close>

theorem handshake_write_ignores_data:
  assumes "\<not> is_complete sm (np_state p)" and "is_established ss (np_session p, w)"
    and m: "m = np_state (snd (NetProtocol_init sm ss ii (p, w)))"
  shows "next_read_len sm m = 0 \<and> (\<exists>m'. advance sm m [] = (m', Inr [])) \<or>
    map_option snd (NetProtocol_write sm ss ii buf (p, w)) =
      map_option snd (NetProtocol_write sm ss ii buf' (p, w)) \<and>
    (\<forall>n x. NetProtocol_write sm ss ii buf (p, w) = Some (Ok n, x) \<longrightarrow> n = 0 \<and> buf = [])"
proof (cases "silent sm m")
  case True
  then show ?thesis by (cases "advance sm m []") (simp add: silent_def)
next
  case False
  have hs: "handshaking sm ss (p, w)" using assms(1,2) by simp
  note speaks = False [unfolded m]
  from write_data [OF hs refl speaks, of buf] write_data [OF hs refl speaks, of buf'] show ?thesis
    by simp
qed

theorem handshake_write_ignores_data_witness:
  "map_option snd (NetProtocol_write demo_machine demo_tcp (\<lambda>_. ()) [1, 2]
       (\<lparr>np_state = Greeting, np_session = TcpStream 3\<rparr>, demo_net [] [])) =
   map_option snd (NetProtocol_write demo_machine demo_tcp (\<lambda>_. ()) [3]
       (\<lparr>np_state = Greeting, np_session = TcpStream 3\<rparr>, demo_net [] []))"
proof -
  let ?p = "\<lparr>np_state = Greeting, np_session = TcpStream 3\<rparr>"
  have est: "is_established demo_tcp (np_session ?p, demo_net [] [])"
    by (simp add: demo_run)
  have "Greeting = np_state (snd (NetProtocol_init demo_machine demo_tcp (\<lambda>_. ()) (?p, demo_net [] [])))"
    by (simp add: NetProtocol_init_def)
  from handshake_write_ignores_data [OF _ est this, of "[1, 2]" "[3]"] show ?thesis by simp
qed

text \<open>
  C12: what a write during the handshake puts on the wire.  Over TCP, with \<open>m\<close> the machine's state
  once the layer has initialised it, a write leaves the peer's bytes unread and sends nothing while
  the machine waits for its peer or when it refuses to go on; it sends a prefix of the machine's act,
  all of it on success, when there is one; and when there is none it sends a prefix of the caller's
  data, exactly the bytes it reports on success.  That last case is the only way for application data
  to reach the wire before the handshake is complete, and nothing in it asks whether the state the
  machine is left in is complete: with a machine that pauses, the data leave in clear.
\<close>

theorem handshake_write_on_the_wire:
  assumes "\<not> is_complete sm (np_state p)" and "is_established (tcp_session lib al) (np_session p, k)"
    and m: "m = np_state (snd (NetProtocol_init sm (tcp_session lib al) ii (p, k)))"
    and run: "NetProtocol_write sm (tcp_session lib al) ii buf (p, k) = Some (r, (q, k'))"
  shows "tcp_inp (np_session q) k' = tcp_inp (np_session p) k \<and>
    (\<exists>tx. tcp_out (np_session q) k' = tcp_out (np_session p) k @ tx \<and>
      (if 0 < next_read_len sm m then tx = [] \<and> np_state q = m
       else np_state q = fst (advance sm m []) \<and>
         (case snd (advance sm m []) of
            Inl e \<Rightarrow> tx = [] \<and> r = Err (handshake_error (error_to_string sm e))
          | Inr act \<Rightarrow>
              if act \<noteq> [] then prefix tx act \<and> (\<forall>n. r = Ok n \<longrightarrow> tx = act)
              else prefix tx buf \<and> (\<forall>n. r = Ok n \<longrightarrow> tx = take n buf))))"
proof -
  have hs: "handshaking sm (tcp_session lib al) (p, k)" using assms(1,2) by simp
  from tcp_layer.handshake_write_wire [OF hs TrueI refl run] show ?thesis
    unfolding m sess_inp_def sess_out_def by simp
qed

text \<open>
  Witness of C12: a machine that pauses in its first state.  The caller's two bytes are on the wire,
  and the layer is as far from complete as before.
\<close>

theorem handshake_write_on_the_wire_witness:
  "\<exists>q k. NetProtocol_write (demo_machine\<lparr>advance := (\<lambda>m _. (m, Inr []))\<rparr>) demo_tcp (\<lambda>_. ()) [1, 2]
       (\<lparr>np_state = Greeting, np_session = TcpStream 3\<rparr>, demo_net [] []) = Some (Ok 2, (q, k)) \<and>
     \<not> is_complete demo_machine (np_state q) \<and> tcp_out (np_session q) k = [1, 2]"
proof -
  let ?sm = "demo_machine\<lparr>advance := (\<lambda>m _. (m, Inr []))\<rparr>"
  let ?p = "\<lparr>np_state = Greeting, np_session = TcpStream 3\<rparr>"
  obtain q k where run: "NetProtocol_write ?sm demo_tcp (\<lambda>_. ()) [1, 2] (?p, demo_net [] []) =
      Some (Ok 2, (q, k))"
    by (simp add: demo_machine_def is_complete_def demo_run)
  have out: "tcp_out (np_session ?p) (demo_net [] []) = []"
    by (simp add: demo_run tcp_out_def)
  have m: "Greeting = np_state (snd (NetProtocol_init ?sm demo_tcp (\<lambda>_. ()) (?p, demo_net [] [])))"
    by (simp add: NetProtocol_init_def)
  have "\<not> is_complete ?sm (np_state ?p)" "is_established demo_tcp (np_session ?p, demo_net [] [])"
    "next_read_len ?sm Greeting = 0" "advance ?sm Greeting [] = (Greeting, Inr [])"
    by (simp_all add: demo_machine_def is_complete_def demo_run)
  with handshake_write_on_the_wire [OF _ _ m run] out
  have "np_state q = Greeting" "tcp_out (np_session q) k = [1, 2]" by simp_all
  with run show ?thesis by auto
qed

text \<open>
  C13: a complete layer is transparent.  Once the handshakes of two stacked layers are complete,
  writing through the stack puts exactly the accepted prefix of the caller's data on the wire and
  reading takes exactly the bytes it reports from the wire: the layers neither transform nor frame
  application data.
\<close>

theorem complete_stack_is_transparent:
  assumes "is_complete sm2 (np_state p)" and "is_complete sm1 (np_state (np_session p))"
    and ss: "ss = NetProtocol_session cn sm1 (tcp_session lib al) ii1"
  shows "(\<forall>n q k'. NetProtocol_write sm2 ss ii2 buf (p, k) = Some (Ok n, (q, k')) \<longrightarrow>
      n \<le> length buf \<and> tcp_out (np_session (np_session q)) k' =
        tcp_out (np_session (np_session p)) k @ take n buf) \<and>
    (\<forall>n buf' q k'. NetProtocol_read sm2 ss ii2 buf (p, k) = Some (Ok (n, buf'), (q, k')) \<longrightarrow>
      n \<le> length buf \<and> tcp_inp (np_session (np_session p)) k =
        take n buf' @ tcp_inp (np_session (np_session q)) k')"
proof -
  have good: "layer_good sm2 (layer_good sm1 (\<lambda>_. True)) (p, k)"
    using assms by (simp add: layer_good_def)
  show ?thesis
    unfolding ss
    using tcp_layer2.layer.wr_moves [OF good] tcp_layer2.layer.wr_len
      tcp_layer2.layer.rd_moves [OF good] tcp_layer2.layer.rd_len
    by (fastforce simp: through_def sess_out_def sess_inp_def)
qed

theorem complete_stack_is_transparent_witness:
  "\<exists>q k'. NetProtocol_write demo_machine
      (NetProtocol_session (TcpStream_connection demo_socket2 demo_addr_lib) demo_machine demo_tcp (\<lambda>_. ()))
      (\<lambda>_. ()) [1, 2, 3]
      (\<lparr>np_state = Agreed [], np_session = \<lparr>np_state = Agreed [], np_session = TcpStream 3\<rparr>\<rparr>,
       demo_net [] [Grant 2]) = Some (Ok 2, (q, k')) \<and>
    tcp_out (np_session (np_session q)) k' = [1, 2]"
proof -
  let ?p = "\<lparr>np_state = Agreed [], np_session = \<lparr>np_state = Agreed [], np_session = TcpStream 3\<rparr>\<rparr>"
  let ?ss = "NetProtocol_session (TcpStream_connection demo_socket2 demo_addr_lib) demo_machine demo_tcp (\<lambda>_. ())"
  obtain q k' where run: "NetProtocol_write demo_machine ?ss (\<lambda>_. ()) [1, 2, 3] (?p, demo_net [] [Grant 2]) =
      Some (Ok 2, (q, k'))"
    by (simp add: demo_run)
  have "tcp_out (np_session (np_session q)) k' =
      tcp_out (np_session (np_session ?p)) (demo_net [] [Grant 2]) @ take 2 [1, 2, 3]"
    using complete_stack_is_transparent [of demo_machine ?p demo_machine ?ss
        "TcpStream_connection demo_socket2 demo_addr_lib" demo_socket2 demo_addr_lib
        "\<lambda>_. ()" "\<lambda>_. ()" "[1, 2, 3]" "demo_net [] [Grant 2]"] run
    by simp
  also have "\<dots> = [1, 2]"
    by (simp add: tcp_out_def demo_run)
  finally show ?thesis using run by blast
qed

end
