(* ===== verification/Cypher.thy ===== *)
theory Cypher
  imports Layers
begin

text \<open>
  The concrete protocol stack of \<^verbatim>\<open>src/session.rs\<close>: the handshake machines of Socks5, Noise and
  Eidolon, and \<^verbatim>\<open>CypherSession\<close>, the three of them stacked over a \<^verbatim>\<open>TcpStream\<close>.  The machines
  themselves belong to the \<^verbatim>\<open>cyphernet\<close> crate and are parameters: records of the functions the
  sources call.
\<close>

section \<open>Noise\<close>

text \<open>
  \<^verbatim>\<open>NoiseState\<close> and the two traits of its parameters: \<open>hash_bytes\<close> is \<^verbatim>\<open>as_ref\<close> of the digest's
  output.  \<open>noise_initialize\<close> is \<^verbatim>\<open>NoiseState::initialize\<close> with the pattern, prologue and key set
  the sources fix; its argument says whether this side starts.
\<close>

record ('n, 'hh, 'pk, 'ne) noise_lib =
  noise_initialize :: "bool \<Rightarrow> 'n"
  noise_next_read_len :: "'n \<Rightarrow> nat"
  noise_advance :: "'n \<Rightarrow> bytes \<Rightarrow> 'n \<times> ('ne + bytes)"
  get_handshake_hash :: "'n \<Rightarrow> 'hh option"
  get_remote_static_key :: "'n \<Rightarrow> 'pk option"
  noise_error_to_string :: "'ne \<Rightarrow> string"
  hash_bytes :: "'hh \<Rightarrow> bytes"
  to_pk_compressed :: "'pk \<Rightarrow> bytes"

record ('hh, 'pk) NoiseArtifact =
  handshake_hash :: 'hh
  remote_static_key :: "'pk option"

definition NoiseArtifact_with :: "'hh \<Rightarrow> 'pk option \<Rightarrow> ('hh, 'pk) NoiseArtifact" where
  "NoiseArtifact_with hh key = \<lparr>handshake_hash = hh, remote_static_key = key\<rparr>"

definition NoiseArtifact_to_vec ::
  "('n, 'hh, 'pk, 'ne) noise_lib \<Rightarrow> ('hh, 'pk) NoiseArtifact \<Rightarrow> bytes"
where
  "NoiseArtifact_to_vec nl a = hash_bytes nl (handshake_hash a) @
     (case remote_static_key a of Some pk \<Rightarrow> to_pk_compressed nl pk | None \<Rightarrow> [])"

datatype ZeroInit = ZeroInit

definition into_zero_init :: "'art \<Rightarrow> ZeroInit" where
  "into_zero_init a = ZeroInit"

definition NoiseState_machine ::
  "('n, 'hh, 'pk, 'ne) noise_lib \<Rightarrow> ('n, ZeroInit, ('hh, 'pk) NoiseArtifact, 'ne) NetStateMachine"
where
  "NoiseState_machine nl = \<lparr>
     sm_init = (\<lambda>n _. n),
     next_read_len = noise_next_read_len nl,
     advance = noise_advance nl,
     sm_artifact = (\<lambda>n. map_option (\<lambda>hh. NoiseArtifact_with hh (get_remote_static_key nl n))
        (get_handshake_hash nl n)),
     is_init = (\<lambda>_. True),
     error_to_string = noise_error_to_string nl \<rparr>"

section \<open>Socks5\<close>

text \<open>
  The sources look at two variants of \<^verbatim>\<open>Socks5\<close>; \<open>Socks5_Other\<close> stands for the rest of them.
\<close>

datatype ('host, 'r) Socks5 = Socks5_Initial 'host bool | Socks5_Active 'host | Socks5_Other 'r

record ('host, 'r, 'se) socks5_lib =
  socks5_with :: "'host \<Rightarrow> bool \<Rightarrow> ('host, 'r) Socks5"
  socks5_next_read_len :: "('host, 'r) Socks5 \<Rightarrow> nat"
  socks5_advance :: "('host, 'r) Socks5 \<Rightarrow> bytes \<Rightarrow> ('host, 'r) Socks5 \<times> ('se + bytes)"
  requires_proxy :: "'host \<Rightarrow> bool"
  socks5_error_to_string :: "'se \<Rightarrow> string"

definition Socks5_artifact :: "('host, 'r, 'se) socks5_lib \<Rightarrow> ('host, 'r) Socks5 \<Rightarrow> 'host option" where
  "Socks5_artifact sl s = (case s of
      Socks5_Initial addr False \<Rightarrow> (if \<not> requires_proxy sl addr then Some addr else None)
    | Socks5_Active addr \<Rightarrow> Some addr
    | _ \<Rightarrow> None)"

definition Socks5_machine ::
  "('host, 'r, 'se) socks5_lib \<Rightarrow> (('host, 'r) Socks5, ZeroInit, 'host, 'se) NetStateMachine"
where
  "Socks5_machine sl = \<lparr>
     sm_init = (\<lambda>s _. s),
     next_read_len = socks5_next_read_len sl,
     advance = socks5_advance sl,
     sm_artifact = Socks5_artifact sl,
     is_init = (\<lambda>_. True),
     error_to_string = socks5_error_to_string sl \<rparr>"

section \<open>Eidolon\<close>

record ('es, 'cert, 'ids, 'signer, 'ee) eidolon_lib =
  ei_initiator :: "'cert \<Rightarrow> 'ids \<Rightarrow> 'es"
  ei_responder :: "'cert \<Rightarrow> 'ids \<Rightarrow> 'es"
  ei_init :: "'es \<Rightarrow> bytes \<Rightarrow> 'es"
  ei_next_read_len :: "'es \<Rightarrow> nat"
  ei_advance :: "'es \<Rightarrow> bytes \<Rightarrow> 'signer \<Rightarrow> 'es \<times> ('ee + bytes)"
  ei_remote_cert :: "'es \<Rightarrow> 'cert option"
  ei_is_init :: "'es \<Rightarrow> bool"
  ei_error_to_string :: "'ee \<Rightarrow> string"
  ei_display_cert :: "'cert \<Rightarrow> string"

record ('es, 'signer) EidolonRuntime =
  er_state :: 'es
  er_signer :: 'signer

definition EidolonRuntime_initiator ::
  "('es, 'cert, 'ids, 'signer, 'ee) eidolon_lib \<Rightarrow> 'signer \<Rightarrow> 'cert \<Rightarrow> 'ids \<Rightarrow> ('es, 'signer) EidolonRuntime"
where
  "EidolonRuntime_initiator el signer cert allowed_ids =
     \<lparr>er_state = ei_initiator el cert allowed_ids, er_signer = signer\<rparr>"

definition EidolonRuntime_responder ::
  "('es, 'cert, 'ids, 'signer, 'ee) eidolon_lib \<Rightarrow> 'signer \<Rightarrow> 'cert \<Rightarrow> 'ids \<Rightarrow> ('es, 'signer) EidolonRuntime"
where
  "EidolonRuntime_responder el signer cert allowed_ids =
     \<lparr>er_state = ei_responder el cert allowed_ids, er_signer = signer\<rparr>"

definition EidolonRuntime_display ::
  "('es, 'cert, 'ids, 'signer, 'ee) eidolon_lib \<Rightarrow> ('es, 'signer) EidolonRuntime \<Rightarrow> string"
where
  "EidolonRuntime_display el r = (case ei_remote_cert el (er_state r) of
      Some cert \<Rightarrow> ei_display_cert el cert
    | None \<Rightarrow> ''<unidentified>'')"

definition EidolonRuntime_machine ::
  "('es, 'cert, 'ids, 'signer, 'ee) eidolon_lib \<Rightarrow>
   (('es, 'signer) EidolonRuntime, bytes, 'cert, 'ee) NetStateMachine"
where
  "EidolonRuntime_machine el = \<lparr>
     sm_init = (\<lambda>r init. r\<lparr>er_state := ei_init el (er_state r) init\<rparr>),
     next_read_len = (\<lambda>r. ei_next_read_len el (er_state r)),
     advance = (\<lambda>r input. case ei_advance el (er_state r) input (er_signer r) of
        (st, res) \<Rightarrow> (r\<lparr>er_state := st\<rparr>, res)),
     sm_artifact = (\<lambda>r. ei_remote_cert el (er_state r)),
     is_init = (\<lambda>r. ei_is_init el (er_state r)),
     error_to_string = ei_error_to_string el \<rparr>"

text \<open>\<^verbatim>\<open>IntoInit<Vec<u8>>\<close> for the artifact of a Noise session.\<close>

definition into_noise_init ::
  "('n, 'hh, 'pk, 'ne) noise_lib \<Rightarrow> ('art, ('hh, 'pk) NoiseArtifact) ProtocolArtifact \<Rightarrow> bytes"
where
  "into_noise_init nl a = NoiseArtifact_to_vec nl (pa_state a)"

section \<open>CypherSession\<close>

type_synonym ('host, 'r) Socks5Session = "(('host, 'r) Socks5, TcpStream) NetProtocol"
type_synonym ('host, 'r, 'n) NoiseSession = "('n, ('host, 'r) Socks5Session) NetProtocol"
type_synonym ('host, 'r, 'n, 'es, 'signer) CypherSession =
  "(('es, 'signer) EidolonRuntime, ('host, 'r, 'n) NoiseSession) NetProtocol"

text \<open>The implementations of \<^verbatim>\<open>NetSession\<close> the type aliases resolve to, bottom up.\<close>

definition Socks5Session_session ::
  "(TcpStream, kernel, 'addr, 'ka) NetConnection \<Rightarrow> ('host, 'r, 'se) socks5_lib \<Rightarrow>
   (('host, 'r) Socks5Session, kernel, TcpStream, (SocketAddr, 'host) ProtocolArtifact) NetSession"
where
  "Socks5Session_session cn sl =
     NetProtocol_session cn (Socks5_machine sl) (TcpStream_session cn) into_zero_init"

definition NoiseSession_session ::
  "(TcpStream, kernel, 'addr, 'ka) NetConnection \<Rightarrow> ('host, 'r, 'se) socks5_lib \<Rightarrow>
   ('n, 'hh, 'pk, 'ne) noise_lib \<Rightarrow>
   (('host, 'r, 'n) NoiseSession, kernel, TcpStream,
    ((SocketAddr, 'host) ProtocolArtifact, ('hh, 'pk) NoiseArtifact) ProtocolArtifact) NetSession"
where
  "NoiseSession_session cn sl nl =
     NetProtocol_session cn (NoiseState_machine nl) (Socks5Session_session cn sl) into_zero_init"

definition CypherSession_session ::
  "(TcpStream, kernel, 'addr, 'ka) NetConnection \<Rightarrow> ('host, 'r, 'se) socks5_lib \<Rightarrow>
   ('n, 'hh, 'pk, 'ne) noise_lib \<Rightarrow> ('es, 'cert, 'ids, 'signer, 'ee) eidolon_lib \<Rightarrow>
   (('host, 'r, 'n, 'es, 'signer) CypherSession, kernel, TcpStream,
    (((SocketAddr, 'host) ProtocolArtifact, ('hh, 'pk) NoiseArtifact) ProtocolArtifact, 'cert)
      ProtocolArtifact) NetSession"
where
  "CypherSession_session cn sl nl el =
     NetProtocol_session cn (EidolonRuntime_machine el) (NoiseSession_session cn sl nl)
       (into_noise_init nl)"

definition CypherSession_with_config ::
  "('host, 'r, 'se) socks5_lib \<Rightarrow> ('n, 'hh, 'pk, 'ne) noise_lib \<Rightarrow>
   ('es, 'cert, 'ids, 'signer, 'ee) eidolon_lib \<Rightarrow> 'host \<Rightarrow> TcpStream \<Rightarrow> Direction \<Rightarrow> 'cert \<Rightarrow> 'ids \<Rightarrow>
   'signer \<Rightarrow> bool \<Rightarrow> ('host, 'r, 'n, 'es, 'signer) CypherSession"
where
  "CypherSession_with_config sl nl el remote connection direction cert allowed_ids signer
     force_proxy =
     (let socks5 = socks5_with sl remote force_proxy;
          proxy = NetProtocol_with connection socks5;
          noise = noise_initialize nl (is_outbound direction);
          encoding = NetProtocol_with proxy noise;
          eidolon = (case direction of
              Inbound \<Rightarrow> EidolonRuntime_responder el signer cert allowed_ids
            | Outbound \<Rightarrow> EidolonRuntime_initiator el signer cert allowed_ids) in
      NetProtocol_with encoding eidolon)"

text \<open>
  Addresses of the \<^verbatim>\<open>cyphernet\<close> crate: \<open>connection_addr\<close> picks the address to connect to, given
  the proxy's, and \<open>host_of_addr\<close> is the conversion of an internet address.
\<close>

record ('host, 'addr) host_lib =
  connection_addr :: "'host \<Rightarrow> 'addr \<Rightarrow> 'addr"
  host_of_addr :: "'addr \<Rightarrow> 'host"

definition CypherSession_connect_nonblocking ::
  "(TcpStream, kernel, 'addr, 'ka) NetConnection \<Rightarrow> ('host, 'addr) host_lib \<Rightarrow>
   ('host, 'r, 'se) socks5_lib \<Rightarrow> ('n, 'hh, 'pk, 'ne) noise_lib \<Rightarrow>
   ('es, 'cert, 'ids, 'signer, 'ee) eidolon_lib \<Rightarrow> 'host \<Rightarrow> 'cert \<Rightarrow> 'ids \<Rightarrow> 'signer \<Rightarrow> 'addr \<Rightarrow> bool \<Rightarrow>
   duration \<Rightarrow> (kernel, ('host, 'r, 'n, 'es, 'signer) CypherSession) io"
where
  "CypherSession_connect_nonblocking cn hl sl nl el remote cert allowed_ids signer proxy_addr
     force_proxy timeout =
     bind_io
       (if force_proxy then connect_nonblocking cn proxy_addr timeout
        else connect_nonblocking cn (connection_addr hl remote proxy_addr) timeout)
       (\<lambda>connection. ret (CypherSession_with_config sl nl el remote connection Outbound cert
          allowed_ids signer force_proxy))"

definition CypherSession_connect_reusable_nonblocking ::
  "(TcpStream, kernel, 'addr, 'ka) NetConnection \<Rightarrow> ('host, 'addr) host_lib \<Rightarrow>
   ('host, 'r, 'se) socks5_lib \<Rightarrow> ('n, 'hh, 'pk, 'ne) noise_lib \<Rightarrow>
   ('es, 'cert, 'ids, 'signer, 'ee) eidolon_lib \<Rightarrow> 'addr \<Rightarrow> 'host \<Rightarrow> 'cert \<Rightarrow> 'ids \<Rightarrow> 'signer \<Rightarrow> 'addr \<Rightarrow>
   bool \<Rightarrow> (kernel, ('host, 'r, 'n, 'es, 'signer) CypherSession) io"
where
  "CypherSession_connect_reusable_nonblocking cn hl sl nl el local remote cert allowed_ids signer
     proxy_addr force_proxy =
     bind_io
       (if force_proxy then connect_reusable_nonblocking cn local proxy_addr
        else connect_reusable_nonblocking cn local (connection_addr hl remote proxy_addr))
       (\<lambda>connection. ret (CypherSession_with_config sl nl el remote connection Outbound cert
          allowed_ids signer force_proxy))"

text \<open>
  The blocking connector runs the handshakes of all layers; when they fail, or panic, the session
  is dropped, which drops its connection.
\<close>

definition CypherSession_connect_blocking ::
  "(TcpStream, kernel, 'addr, 'ka) NetConnection \<Rightarrow> ('host, 'addr) host_lib \<Rightarrow>
   ('host, 'r, 'se) socks5_lib \<Rightarrow> ('n, 'hh, 'pk, 'ne) noise_lib \<Rightarrow>
   ('es, 'cert, 'ids, 'signer, 'ee) eidolon_lib \<Rightarrow> 'host \<Rightarrow> 'cert \<Rightarrow> 'ids \<Rightarrow> 'signer \<Rightarrow> 'addr \<Rightarrow> bool \<Rightarrow>
   duration \<Rightarrow> (kernel, ('host, 'r, 'n, 'es, 'signer) CypherSession) io"
where
  "CypherSession_connect_blocking cn hl sl nl el remote cert allowed_ids signer proxy_addr
     force_proxy timeout =
     bind_io
       (if force_proxy then connect_blocking cn proxy_addr timeout
        else connect_blocking cn (connection_addr hl remote proxy_addr) timeout)
       (\<lambda>connection k.
          let session = CypherSession_with_config sl nl el remote connection Outbound cert
                allowed_ids signer force_proxy in
          (case run_handshake (CypherSession_session cn sl nl el) (session, k) of
             None \<Rightarrow> None
           | Some (Ok _, (session, k)) \<Rightarrow> Some (Ok session, k)
           | Some (Err e, (session, k)) \<Rightarrow> Some (Err e, drop_conn cn connection k)
           | Some (Panic msg, (session, k)) \<Rightarrow> Some (Panic msg, drop_conn cn connection k)))"

definition CypherSession_accept ::
  "(TcpStream, kernel, 'addr, 'ka) NetConnection \<Rightarrow> ('host, 'addr) host_lib \<Rightarrow>
   ('host, 'r, 'se) socks5_lib \<Rightarrow> ('n, 'hh, 'pk, 'ne) noise_lib \<Rightarrow>
   ('es, 'cert, 'ids, 'signer, 'ee) eidolon_lib \<Rightarrow> TcpStream \<Rightarrow> 'cert \<Rightarrow> 'ids \<Rightarrow> 'signer \<Rightarrow>
   (kernel, ('host, 'r, 'n, 'es, 'signer) CypherSession) io"
where
  "CypherSession_accept cn hl sl nl el connection cert allowed_ids signer =
     bind_drop (drop_conn cn connection) (remote_addr cn connection) (\<lambda>addr.
       ret (CypherSession_with_config sl nl el (host_of_addr hl addr) connection Inbound cert
          allowed_ids signer False))"

section \<open>The stack as layers\<close>

lemma cypher_sel [simp]:
  "nread (CypherSession_session cn sl nl el) =
     NetProtocol_read (EidolonRuntime_machine el) (NoiseSession_session cn sl nl) (into_noise_init nl)"
  "nwrite (CypherSession_session cn sl nl el) =
     NetProtocol_write (EidolonRuntime_machine el) (NoiseSession_session cn sl nl) (into_noise_init nl)"
  "as_connection (CypherSession_session cn sl nl el) s = np_session (np_session (np_session s))"
  "as_connection (NoiseSession_session cn sl nl) s2 = np_session (np_session s2)"
  "as_connection (Socks5Session_session cn sl) s1 = np_session s1"
  by (simp_all add: CypherSession_session_def NoiseSession_session_def Socks5Session_session_def
      NetProtocol_session_def TcpStream_session_def connection_session_def)

interpretation socks_layer: duplex_layer "Socks5Session_session (TcpStream_connection lib al) sl"
  "layer_good (Socks5_machine sl) (\<lambda>_. True)" "through sess_inp" "through sess_out"
  "NoiseState_machine nl" into_zero_init
  for lib al sl nl
  unfolding duplex_layer_def Socks5Session_session_def NetProtocol_session_sel
  by (rule tcp_layer.layer.byte_duplex_axioms)

definition cypher_good ::
  "('host, 'r, 'se) socks5_lib \<Rightarrow> ('n, 'hh, 'pk, 'ne) noise_lib \<Rightarrow>
   ('es, 'cert, 'ids, 'signer, 'ee) eidolon_lib \<Rightarrow>
   ('host, 'r, 'n, 'es, 'signer) CypherSession \<times> kernel \<Rightarrow> bool"
where
  "cypher_good sl nl el = layer_good (EidolonRuntime_machine el)
     (layer_good (NoiseState_machine nl) (layer_good (Socks5_machine sl) (\<lambda>_. True)))"

definition cypher_inp :: "('host, 'r, 'n, 'es, 'signer) CypherSession \<times> kernel \<Rightarrow> bytes" where
  "cypher_inp = through (through (through sess_inp))"

definition cypher_out :: "('host, 'r, 'n, 'es, 'signer) CypherSession \<times> kernel \<Rightarrow> bytes" where
  "cypher_out = through (through (through sess_out))"

interpretation noise_layer: duplex_layer "NoiseSession_session (TcpStream_connection lib al) sl nl"
  "layer_good (NoiseState_machine nl) (layer_good (Socks5_machine sl) (\<lambda>_. True))"
  "through (through sess_inp)" "through (through sess_out)"
  "EidolonRuntime_machine el" "into_noise_init nl"
  for lib al sl nl el
  unfolding duplex_layer_def NoiseSession_session_def NetProtocol_session_sel
  by (rule socks_layer.layer.byte_duplex_axioms)

interpretation cypher: byte_duplex "nread (CypherSession_session (TcpStream_connection lib al) sl nl el)"
  "nwrite (CypherSession_session (TcpStream_connection lib al) sl nl el)"
  "cypher_good sl nl el" cypher_inp cypher_out
  for lib al sl nl el
  unfolding cypher_sel cypher_good_def cypher_inp_def cypher_out_def
  by (rule noise_layer.layer.byte_duplex_axioms)

lemma tcp_established [simp]:
  "is_established (tcp_session lib al) (c, k) \<longleftrightarrow> TcpStream_artifact (c, k) \<noteq> None"
  by (simp add: is_established_def)

lemma cypher_established:
  "is_established (CypherSession_session cn sl nl el) (s, k) \<longleftrightarrow>
     is_established (TcpStream_session cn) (np_session (np_session (np_session s)), k) \<and>
     cypher_good sl nl el (s, k)"
  by (auto simp: CypherSession_session_def NoiseSession_session_def Socks5Session_session_def
      established_layer cypher_good_def layer_good_def)

lemma machine_complete [simp]:
  "is_complete (EidolonRuntime_machine el) r \<longleftrightarrow> ei_remote_cert el (er_state r) \<noteq> None"
  "is_complete (NoiseState_machine nl) n \<longleftrightarrow> get_handshake_hash nl n \<noteq> None"
  "is_complete (Socks5_machine sl) h \<longleftrightarrow> Socks5_artifact sl h \<noteq> None"
  by (simp_all add: is_complete_def EidolonRuntime_machine_def NoiseState_machine_def Socks5_machine_def)

section \<open>What a handshake leaves alone\<close>

text \<open>
  A call that leaves \<open>f\<close> alone unless it fails with an error outside \<open>E\<close>; \<open>keeps\<close> is the case in
  which every error counts.  The loops below retry \<^verbatim>\<open>Interrupted\<close>, so \<open>E\<close> must contain it.
\<close>

definition keeps_on :: "('e \<Rightarrow> bool) \<Rightarrow> ('w \<Rightarrow> 'h) \<Rightarrow> ('w, 'e, 'a) prog \<Rightarrow> bool" where
  "keeps_on E f m \<longleftrightarrow> (\<forall>w r w'. m w = Some (r, w') \<longrightarrow> (\<forall>e. r = Err e \<longrightarrow> E e) \<longrightarrow> f w' = f w)"

abbreviation retryable :: "io_error \<Rightarrow> bool" where
  "retryable e \<equiv> kind e = Interrupted"

lemma keeps_onD: "keeps_on E f m \<Longrightarrow> m w = Some (r, w') \<Longrightarrow> (\<And>e. r = Err e \<Longrightarrow> E e) \<Longrightarrow> f w' = f w"
  by (auto simp: keeps_on_def)

lemma keeps_on_True: "keeps f m \<Longrightarrow> keeps_on (\<lambda>_. True) f m"
  by (auto simp: keeps_def keeps_on_def)

lemma write_all_keeps:
  assumes "\<And>buf. keeps_on E f (wr buf)" and "\<And>e. retryable e \<Longrightarrow> E e"
  shows "keeps_on E f (write_all wr buf)"
proof -
  have "write_all wr buf x = Some z \<Longrightarrow> (\<forall>e. fst z = Err e \<longrightarrow> E e) \<Longrightarrow> f (snd z) = f x" for x z
    by (induction rule: write_all_run) (auto dest: keeps_onD [OF assms(1)] assms(2))
  then show ?thesis by (force simp: keeps_on_def)
qed

lemma read_exact_keeps:
  assumes "\<And>buf. keeps_on E f (rd buf)" and "\<And>e. retryable e \<Longrightarrow> E e"
  shows "keeps_on E f (read_exact rd buf)"
proof -
  have "read_exact_from rd filled buf x = Some z \<Longrightarrow> (\<forall>e. fst z = Err e \<longrightarrow> E e) \<Longrightarrow> f (snd z) = f x"
    for filled x z
    by (induction rule: read_exact_from_run) (auto dest: keeps_onD [OF assms(1)] assms(2))
  then show ?thesis by (force simp: keeps_on_def read_exact_def)
qed

lemma handshake_loop_keeps:
  assumes "\<And>buf. keeps_on E f (rd buf)" and "\<And>buf. keeps_on E f (wr buf)"
    and "\<And>e. retryable e \<Longrightarrow> E e"
    and "handshake_loop sm rd wr input m x = Some z" and "\<forall>e. fst z = Err e \<longrightarrow> E e"
  shows "f (snd (snd z)) = f x"
proof -
  have rd: "read_exact rd buf x = Some (r, y) \<longrightarrow> (\<forall>e. r = Err e \<longrightarrow> E e) \<longrightarrow> f y = f x" for buf x r y
    using read_exact_keeps [OF assms(1,3)] by (auto simp: keeps_on_def)
  have wr: "write_all wr buf x = Some (r, y) \<longrightarrow> (\<forall>e. r = Err e \<longrightarrow> E e) \<longrightarrow> f y = f x" for buf x r y
    using write_all_keeps [OF assms(2,3)] by (auto simp: keeps_on_def)
  show ?thesis
    using assms(4,5) by (induction rule: handshake_loop_run) (use rd wr in fastforce)+
qed

lemma run_handshake_run:
  assumes "NetProtocol_run_handshake cn sm ss ii (p, w) = Some (r, (q, w'))"
  obtains (Inner) s1 where "\<not> is_established ss (np_session p, w)"
      "run_handshake ss (np_session p, w) = Some (r, (s1, w'))" "q = p\<lparr>np_session := s1\<rparr>"
      "\<nexists>u. r = Ok u"
    | (Loop) s1 w1 p1 where "is_established ss (np_session p, w) \<and> s1 = np_session p \<and> w1 = w \<or>
        \<not> is_established ss (np_session p, w) \<and>
        run_handshake ss (np_session p, w) = Some (Ok (), (s1, w1))"
      "p1 = snd (NetProtocol_init sm ss ii (p\<lparr>np_session := s1\<rparr>, w1))"
      "handshake_loop sm (conn_read cn (as_connection ss s1)) (conn_write cn (as_connection ss s1)) []
         (np_state p1) w1 = Some (r, np_state q, w')"
      "np_session q = s1"
proof (cases "is_established ss (np_session p, w)")
  case True
  define p1 where "p1 = snd (NetProtocol_init sm ss ii (p, w))"
  have "np_session p1 = np_session p" by (simp add: p1_def)
  with assms True Loop [of "np_session p" w p1] show ?thesis
    by (auto simp: NetProtocol_run_handshake_def NetStateMachine_run_handshake_def p1_def Let_def io_simps)
next
  case False
  note unfold = NetProtocol_run_handshake_def NetStateMachine_run_handshake_def on_session_def Let_def
  show ?thesis
  proof (cases "run_handshake ss" "(np_session p, w)" rule: prog_cases)
    case (Ok u y)
    define p1 where "p1 = snd (NetProtocol_init sm ss ii (p\<lparr>np_session := fst y\<rparr>, snd y))"
    have "np_session p1 = fst y" by (simp add: p1_def)
    with assms False Ok Loop [of "fst y" "snd y" p1] show ?thesis
      by (cases y) (auto simp: unfold io_simps p1_def)
  qed (use assms False Inner in \<open>auto simp: unfold\<close>)
qed

lemma run_handshake_complete:
  assumes "NetProtocol_run_handshake cn sm ss ii (p, w) = Some (Ok u, (q, w'))"
  shows "is_complete sm (np_state q)"
    and "is_established ss (np_session p, w) \<and> np_session q = np_session p \<or>
      (\<exists>w1. run_handshake ss (np_session p, w) = Some (Ok (), (np_session q, w1)))"
  using assms
  by (cases rule: run_handshake_run; force dest: handshake_loop_complete)+

text \<open>A handshake over TCP keeps what reads and writes of the connection keep.\<close>

lemma run_handshake_keeps:
  fixes f :: "'w \<Rightarrow> 'h"
  assumes run: "NetProtocol_run_handshake cn sm ss ii (p, w) = Some (r, (q, w'))"
    and ok: "\<And>e. r = Err e \<Longrightarrow> E e"
    and inner: "\<And>s r s' w w'. run_handshake ss (s, w) = Some (r, (s', w')) \<Longrightarrow>
      (\<And>e. r = Err e \<Longrightarrow> E e) \<Longrightarrow> f w' = f w \<and> as_connection ss s' = as_connection ss s"
    and conn: "\<And>c buf. keeps_on E f (conn_read cn c buf)" "\<And>c buf. keeps_on E f (conn_write cn c buf)"
      "\<And>e. retryable e \<Longrightarrow> E e"
  shows "f w' = f w \<and> as_connection ss (np_session q) = as_connection ss (np_session p)"
  using run
proof (cases rule: run_handshake_run)
  case (Inner s1)
  with inner [OF Inner(2) ok] show ?thesis by simp
next
  case (Loop s1 w1 p1)
  have "f w' = f w1"
    using handshake_loop_keeps [OF conn Loop(3)] ok by simp
  moreover have "f w1 = f w \<and> as_connection ss s1 = as_connection ss (np_session p)"
    using Loop(1) by (auto dest: inner)
  ultimately show ?thesis using Loop(4) by simp
qed

lemma cypher_run_handshake:
  "run_handshake (CypherSession_session cn sl nl el) = NetProtocol_run_handshake cn
     (EidolonRuntime_machine el) (NoiseSession_session cn sl nl) (into_noise_init nl)"
  "run_handshake (NoiseSession_session cn sl nl) = NetProtocol_run_handshake cn
     (NoiseState_machine nl) (Socks5Session_session cn sl) into_zero_init"
  "run_handshake (Socks5Session_session cn sl) = NetProtocol_run_handshake cn
     (Socks5_machine sl) (TcpStream_session cn) into_zero_init"
  "run_handshake (TcpStream_session cn) = ret ()"
  by (simp_all add: CypherSession_session_def NoiseSession_session_def Socks5Session_session_def
      TcpStream_session_def connection_session_def NetProtocol_session_def)

lemma noise_handshake_good:
  assumes "run_handshake (NoiseSession_session cn sl nl) (s, k) = Some (Ok u, (s', k'))"
  shows "layer_good (NoiseState_machine nl) (layer_good (Socks5_machine sl) (\<lambda>_. True)) (s', k')"
proof -
  have "is_complete (Socks5_machine sl) (np_state s1')"
    if "run_handshake (Socks5Session_session cn sl) (s1, w) = Some (Ok u, (s1', w'))" for s1 s1' u w w'
    using that unfolding cypher_run_handshake by (rule run_handshake_complete(1))
  with run_handshake_complete [OF assms [unfolded cypher_run_handshake]] show ?thesis
    by (auto simp: Socks5Session_session_def established_layer layer_good_def)
qed

lemma noise_established_good:
  "is_established (NoiseSession_session cn sl nl) (s, k) \<Longrightarrow>
     layer_good (NoiseState_machine nl) (layer_good (Socks5_machine sl) (\<lambda>_. True)) (s, k)"
  by (simp add: NoiseSession_session_def Socks5Session_session_def established_layer layer_good_def)

lemma cypher_handshake_good:
  assumes "run_handshake (CypherSession_session cn sl nl el) (s, k) = Some (Ok u, (s', k'))"
  shows "cypher_good sl nl el (s', k')"
proof -
  note fin = run_handshake_complete [OF assms [unfolded cypher_run_handshake(1)]]
  have "\<exists>w :: kernel. layer_good (NoiseState_machine nl) (layer_good (Socks5_machine sl) (\<lambda>_. True)) (np_session s', w)"
    using fin(2) noise_established_good noise_handshake_good by metis
  with fin(1) show ?thesis by (simp add: cypher_good_def layer_good_def)
qed

lemma noise_handshake_keeps:
  assumes run: "run_handshake (NoiseSession_session cn sl nl) (s, k) = Some (r, (s', k'))"
    and ok: "\<And>e. r = Err e \<Longrightarrow> E e"
    and conn: "\<And>c buf. keeps_on E f (conn_read cn c buf)" "\<And>c buf. keeps_on E f (conn_write cn c buf)"
      "\<And>e. retryable e \<Longrightarrow> E e"
  shows "f k' = f k \<and> np_session (np_session s') = np_session (np_session s)"
proof -
  have tcp: "f w' = f w \<and> as_connection (TcpStream_session cn) c' = as_connection (TcpStream_session cn) c"
    if "run_handshake (TcpStream_session cn) (c, w) = Some (r, (c', w'))" for c c' r w w'
    using that by (simp add: cypher_run_handshake)
  have socks: "f w' = f w \<and> as_connection (Socks5Session_session cn sl) s1' =
      as_connection (Socks5Session_session cn sl) s1"
    if "run_handshake (Socks5Session_session cn sl) (s1, w) = Some (r, (s1', w'))"
      and "\<And>e. r = Err e \<Longrightarrow> E e" for s1 s1' r w w'
    using run_handshake_keeps [OF that(1) [unfolded cypher_run_handshake] that(2) _ conn, OF _ tcp]
    by (simp add: TcpStream_session_def connection_session_def)
  show ?thesis
    using run_handshake_keeps [OF run [unfolded cypher_run_handshake] ok _ conn, OF _ socks] by simp
qed

lemma cypher_handshake_keeps:
  assumes run: "run_handshake (CypherSession_session cn sl nl el) (s, k) = Some (r, (s', k'))"
    and ok: "\<And>e. r = Err e \<Longrightarrow> E e"
    and conn: "\<And>c buf. keeps_on E f (conn_read cn c buf)" "\<And>c buf. keeps_on E f (conn_write cn c buf)"
      "\<And>e. retryable e \<Longrightarrow> E e"
  shows "f k' = f k \<and> np_session (np_session (np_session s')) = np_session (np_session (np_session s))"
proof -
  have "f w' = f w \<and> as_connection (NoiseSession_session cn sl nl) s2' =
      as_connection (NoiseSession_session cn sl nl) s2"
    if "run_handshake (NoiseSession_session cn sl nl) (s2, w) = Some (r, (s2', w'))"
      and "\<And>e. r = Err e \<Longrightarrow> E e" for s2 s2' r w w'
    using noise_handshake_keeps [OF that conn] by simp
  from run_handshake_keeps [OF run [unfolded cypher_run_handshake(1)] ok this conn] show ?thesis by simp
qed

text \<open>
  Reads and writes of a stream keep the descriptor table; they keep every socket's peer unless they
  fail, since a failure may report that the peer is gone.
\<close>

definition peers :: "kernel \<Rightarrow> raw_fd \<Rightarrow> SocketAddr option option" where
  "peers k fd = map_option sk_peer (k_sock k fd)"

lemma keeps_tcp_io:
  "keeps k_fds (conn_read (TcpStream_connection lib al) c buf)"
  "keeps k_fds (conn_write (TcpStream_connection lib al) c buf)"
  "keeps_on retryable peers (conn_read (TcpStream_connection lib al) c buf)"
  "keeps_on retryable peers (conn_write (TcpStream_connection lib al) c buf)"
  by (auto simp: keeps_def keeps_on_def TcpStream_connection_def TcpStream_read_def TcpStream_write_def
      k_call_Some peers_def k_update_def k_sock_def fun_eq_iff option.map_comp intro!: option.map_cong0
      split: option.splits
      dest!: sock_read_options sock_write_options)

lemma TcpStream_artifact_peers:
  "TcpStream_artifact (c, k) = Option.bind (peers k (stream_fd c)) id"
  by (auto simp: TcpStream_artifact_def TcpStream_peer_addr_def k_call_def sock_require_def peers_def
      k_sock_def split: option.splits)

lemma tcp_connect_acquires:
  assumes run: "TcpStream_connect_blocking al addr timeout k = Some (r, k')"
    and resolve: "\<And>a. keeps (\<lambda>k. (k_fds k, k_next k)) (to_socket_addrs al a)"
  shows "case r of
      Ok c \<Rightarrow> c = TcpStream (k_next k) \<and> k_fds k' = (k_fds k)(k_next k \<mapsto> k_next k)
    | Err e \<Rightarrow> k_fds k' = k_fds k
    | Panic m \<Rightarrow> True"
  using run
  by (cases r)
    (auto simp: TcpStream_connect_blocking_def io_simps k_connect_timeout_def k_open_def
      split: if_splits sum.splits dest!: keepsD [OF first_addr_keeps [OF resolve]])

lemma connect_blocking_run:
  assumes "CypherSession_connect_blocking cn hl sl nl el remote cert ids signer proxy force timeout k =
    Some (r, k')"
  obtains (Refused) e where "r = Err e"
      "connect_blocking cn (if force then proxy else connection_addr hl remote proxy) timeout k = Some (Err e, k')"
    | (Crashed) m where "r = Panic m"
    | (Connected) c k1 r1 s k2
    where "connect_blocking cn (if force then proxy else connection_addr hl remote proxy) timeout k =
        Some (Ok c, k1)"
      "run_handshake (CypherSession_session cn sl nl el)
        (CypherSession_with_config sl nl el remote c Outbound cert ids signer force, k1) =
        Some (r1, (s, k2))"
      "case r1 of Ok _ \<Rightarrow> r = Ok s \<and> k' = k2 | Err e \<Rightarrow> r = Err e \<and> k' = drop_conn cn c k2
        | Panic m \<Rightarrow> r = Panic m \<and> k' = drop_conn cn c k2"
proof (cases "connect_blocking cn (if force then proxy else connection_addr hl remote proxy) timeout" k
    rule: prog_cases)
  case (Ok c k1)
  let ?s = "CypherSession_with_config sl nl el remote c Outbound cert ids signer force"
  show ?thesis
    using assms Ok Connected [OF Ok]
    by (cases "run_handshake (CypherSession_session cn sl nl el)" "(?s, k1)" rule: prog_cases)
      (auto simp: CypherSession_connect_blocking_def Let_def split: if_splits)
qed (use assms Refused Crashed in \<open>auto simp: CypherSession_connect_blocking_def split: if_splits\<close>)

section \<open>Instances for concrete runs\<close>

text \<open>
  Three machines in the shape of \<open>demo_machine\<close>: the initiator sends one byte, expects two and
  confirms with one.  Hosts are optional socket addresses; none of them needs a proxy.
\<close>

definition demo_noise :: "(demo_state, bytes, bytes, unit) noise_lib" where
  "demo_noise = \<lparr>
     noise_initialize = (\<lambda>starts. if starts then Greeting else Expecting),
     noise_next_read_len = next_read_len demo_machine,
     noise_advance = demo_advance,
     get_handshake_hash = sm_artifact demo_machine,
     get_remote_static_key = (\<lambda>_. None),
     noise_error_to_string = error_to_string demo_machine,
     hash_bytes = id,
     to_pk_compressed = id \<rparr>"

definition demo_socks5 :: "(SocketAddr option, unit, unit) socks5_lib" where
  "demo_socks5 = \<lparr>
     socks5_with = Socks5_Initial,
     socks5_next_read_len = (\<lambda>_. 0),
     socks5_advance = (\<lambda>s _. case s of
        Socks5_Initial a _ \<Rightarrow> (Socks5_Active a, Inr [5])
      | _ \<Rightarrow> (s, Inl ())),
     requires_proxy = (\<lambda>_. False),
     socks5_error_to_string = (\<lambda>_. ''unexpected act'') \<rparr>"

text \<open>The state is paired with the initialisation data, absent at first.\<close>

definition demo_eidolon :: "(demo_state \<times> bytes option, bytes, unit, unit, unit) eidolon_lib" where
  "demo_eidolon = \<lparr>
     ei_initiator = (\<lambda>_ _. (Greeting, None)),
     ei_responder = (\<lambda>_ _. (Expecting, None)),
     ei_init = (\<lambda>(m, _) i. (m, Some i)),
     ei_next_read_len = (\<lambda>(m, _). next_read_len demo_machine m),
     ei_advance = (\<lambda>(m, i) input _. case demo_advance m input of (m', r) \<Rightarrow> ((m', i), r)),
     ei_remote_cert = (\<lambda>(m, _). sm_artifact demo_machine m),
     ei_is_init = (\<lambda>(_, i). i \<noteq> None),
     ei_error_to_string = (\<lambda>_. ''unexpected act''),
     ei_display_cert = (\<lambda>_. ''cert'') \<rparr>"

section \<open>Properties\<close>

text \<open>
  C14: a session the blocking connector returns is authenticated.  Its Eidolon layer holds the
  certificate of the peer, its Noise layer the handshake hash and its Socks5 layer an address.
\<close>

theorem connect_blocking_authenticates:
  assumes "CypherSession_connect_blocking cn hl sl nl el remote cert ids signer proxy force timeout k =
    Some (Ok s, k')"
  shows "ei_remote_cert el (er_state (np_state s)) \<noteq> None \<and>
    get_handshake_hash nl (np_state (np_session s)) \<noteq> None \<and>
    Socks5_artifact sl (np_state (np_session (np_session s))) \<noteq> None"
  using assms
  by (cases rule: connect_blocking_run)
    (auto simp: cypher_good_def layer_good_def split: outcome.splits dest!: cypher_handshake_good)

abbreviation demo_cn :: "(TcpStream, kernel, SocketAddr option, nat) NetConnection" where
  "demo_cn \<equiv> TcpStream_connection demo_socket2 demo_addr_lib"

definition demo_hosts :: "(SocketAddr option, SocketAddr option) host_lib" where
  "demo_hosts = \<lparr>connection_addr = (\<lambda>h _. h), host_of_addr = id\<rparr>"

text \<open>A network in which the peer of every connection answers with the given bytes.\<close>

abbreviation demo_peer :: "bytes \<Rightarrow> kernel" where
  "demo_peer rx \<equiv> demo_kernel demo_socket (Inr (demo_socket\<lparr>sk_rx := rx, sk_eof := True\<rparr>))"

theorem connect_blocking_authenticates_witness:
  "\<exists>s k'. CypherSession_connect_blocking demo_cn demo_hosts demo_socks5 demo_noise demo_eidolon
      (Some demo_addr) [] () () None False 5 (demo_peer [1, 2, 3, 4]) = Some (Ok s, k') \<and>
    ei_remote_cert demo_eidolon (er_state (np_state s)) \<noteq> None"
proof -
  have "yields (CypherSession_connect_blocking demo_cn demo_hosts demo_socks5 demo_noise demo_eidolon
      (Some demo_addr) [] () () None False 5 (demo_peer [1, 2, 3, 4])) (\<lambda>_ _. True)"
    by code_simp
  then obtain s k' where run: "CypherSession_connect_blocking demo_cn demo_hosts demo_socks5 demo_noise
      demo_eidolon (Some demo_addr) [] () () None False 5 (demo_peer [1, 2, 3, 4]) = Some (Ok s, k')"
    by (rule yieldsE)
  from connect_blocking_authenticates [OF run] run show ?thesis by blast
qed

text \<open>
  C15: the blocking connector leaks no descriptor.  When resolution, connection or any of the
  handshakes fails, the descriptor table is the one before the call; when it succeeds, the table
  has exactly the descriptor of the returned session more.  Descriptors below \<open>k_next\<close> are the ones
  ever given out, and resolving an address opens none.
\<close>

theorem connect_blocking_no_leak:
  assumes run: "CypherSession_connect_blocking (TcpStream_connection lib al) hl sl nl el remote cert ids
      signer proxy force timeout k = Some (r, k')"
    and fresh: "k_fds k (k_next k) = None"
    and resolve: "\<And>a. keeps (\<lambda>k. (k_fds k, k_next k)) (to_socket_addrs al a)"
  shows "case r of
      Ok s \<Rightarrow> k_fds k' = (k_fds k)(k_next k \<mapsto> k_next k) \<and>
        np_session (np_session (np_session s)) = TcpStream (k_next k)
    | Err e \<Rightarrow> k_fds k' = k_fds k
    | Panic m \<Rightarrow> True"
  using run
proof (cases rule: connect_blocking_run)
  case (Refused e)
  with tcp_connect_acquires [OF _ resolve, of _ timeout k "Err e" k'] show ?thesis
    by (simp add: TcpStream_connection_def)
next
  case (Connected c k1 r1 s k2)
  from Connected(1) tcp_connect_acquires [OF _ resolve, of _ timeout k "Ok c" k1]
  have c: "c = TcpStream (k_next k)" "k_fds k1 = (k_fds k)(k_next k \<mapsto> k_next k)"
    by (auto simp: TcpStream_connection_def)
  from cypher_handshake_keeps [OF Connected(2) TrueI keeps_tcp_io(1,2) [THEN keeps_on_True] TrueI]
  have "k_fds k2 = k_fds k1 \<and> np_session (np_session (np_session s)) = c"
    by (simp add: CypherSession_with_config_def Let_def NetProtocol_with_def)
  then show ?thesis
    using Connected(3) c fresh
    by (auto simp: TcpStream_connection_def k_close_def fun_upd_idem split: outcome.splits)
qed simp

theorem connect_blocking_no_leak_witness:
  "\<exists>e k'. CypherSession_connect_blocking demo_cn demo_hosts demo_socks5 demo_noise demo_eidolon
      (Some demo_addr) [] () () None False 5 (demo_peer [1]) = Some (Err e, k') \<and> k_fds k' = [3 \<mapsto> 3]"
proof -
  have "raises (CypherSession_connect_blocking demo_cn demo_hosts demo_socks5 demo_noise demo_eidolon
      (Some demo_addr) [] () () None False 5 (demo_peer [1])) (\<lambda>_ _. True)"
    by code_simp
  then obtain e k' where run: "CypherSession_connect_blocking demo_cn demo_hosts demo_socks5 demo_noise
      demo_eidolon (Some demo_addr) [] () () None False 5 (demo_peer [1]) = Some (Err e, k')"
    by (rule raisesE)
  have "keeps (\<lambda>k. (k_fds k, k_next k)) (to_socket_addrs demo_addr_lib a)" for a
    by (simp add: keeps_def demo_addr_lib_def)
  from connect_blocking_no_leak [OF run _ this] run show ?thesis by (simp add: demo_kernel_def)
qed

text \<open>
  C16: the authentication handshake is bound to the encryption handshake.  When the handshakes of a
  connected session succeed, the Eidolon machine was started from the state initialised with the
  bytes of the Noise artifact, the handshake hash and the remote static key, that the session's
  Noise layer holds.
\<close>

theorem eidolon_bound_to_noise:
  assumes run: "run_handshake (CypherSession_session (TcpStream_connection lib al) sl nl el) (s, k) =
      Some (Ok (), (s', k'))"
    and peer: "is_established (tcp_session lib al) (c, k)" and c: "c = np_session (np_session (np_session s))"
    and uninit: "\<not> ei_is_init el (er_state (np_state s))"
  shows "\<exists>a k1. sm_artifact (NoiseState_machine nl) (np_state (np_session s')) = Some a \<and>
    NetStateMachine_run_handshake (EidolonRuntime_machine el) (TcpStream_read c) (TcpStream_write c)
      ((np_state s)\<lparr>er_state := ei_init el (er_state (np_state s)) (NoiseArtifact_to_vec nl a)\<rparr>, k1) =
      Some (Ok (), (np_state s', k'))"
  using run unfolding cypher_run_handshake(1)
proof (cases rule: run_handshake_run)
  case (Loop s1 k1 p1)
  have kept: "peers k1 = peers k \<and> np_session (np_session s1) = c"
    using Loop(1)
  proof (elim disjE conjE)
    assume "run_handshake (NoiseSession_session (TcpStream_connection lib al) sl nl) (np_session s, k) =
      Some (Ok (), (s1, k1))"
    from noise_handshake_keeps [OF this _ keeps_tcp_io(3,4)] c show ?thesis by simp
  qed (simp add: c)
  have good: "layer_good (NoiseState_machine nl) (layer_good (Socks5_machine sl) (\<lambda>_. True)) (s1, k1)"
    using Loop(1) by (auto dest: noise_handshake_good noise_established_good)
  from peer kept have "is_established (tcp_session lib al) (np_session (np_session s1), k1)"
    by (simp add: is_established_def TcpStream_artifact_peers)
  with good have "\<exists>a. artifact (NoiseSession_session (TcpStream_connection lib al) sl nl) (s1, k1) = Some a \<and>
      sm_artifact (NoiseState_machine nl) (np_state s1) = Some (pa_state a)"
    by (auto simp: NoiseSession_session_def Socks5Session_session_def NetProtocol_artifact_def
        layer_good_def is_established_def is_complete_def split: option.splits)
  then obtain a where a: "artifact (NoiseSession_session (TcpStream_connection lib al) sl nl) (s1, k1) = Some a"
    "sm_artifact (NoiseState_machine nl) (np_state s1) = Some (pa_state a)"
    by blast
  with Loop(2) uninit have "np_state p1 = (np_state s)\<lparr>er_state :=
      ei_init el (er_state (np_state s)) (NoiseArtifact_to_vec nl (pa_state a))\<rparr>"
    by (cases s) (simp add: NetProtocol_init_def EidolonRuntime_machine_def into_noise_init_def)
  with Loop(3,4) a(2) kept show ?thesis
    by (auto simp: NetStateMachine_run_handshake_def TcpStream_connection_def)
qed simp

text \<open>A session of the initiator over descriptor 3.\<close>

definition demo_cypher ::
  "bool \<Rightarrow> (SocketAddr option, unit, demo_state, demo_state \<times> bytes option, unit) CypherSession"
where
  "demo_cypher force = CypherSession_with_config demo_socks5 demo_noise demo_eidolon (Some demo_addr)
     (TcpStream 3) Outbound [] () () force"

theorem eidolon_bound_to_noise_witness:
  "\<exists>s' k' k1. run_handshake (CypherSession_session demo_cn demo_socks5 demo_noise demo_eidolon)
      (demo_cypher False, demo_net [1, 2, 3, 4] []) = Some (Ok (), (s', k')) \<and>
    NetStateMachine_run_handshake (EidolonRuntime_machine demo_eidolon) (TcpStream_read (TcpStream 3))
      (TcpStream_write (TcpStream 3)) (\<lparr>er_state = (Greeting, Some [1, 2]), er_signer = ()\<rparr>, k1) =
      Some (Ok (), (np_state s', k'))"
proof -
  have "yields (run_handshake (CypherSession_session demo_cn demo_socks5 demo_noise demo_eidolon)
      (demo_cypher False, demo_net [1, 2, 3, 4] []))
      (\<lambda>_ (s', _). np_state (np_session s') = Agreed [1, 2])"
    by code_simp
  then obtain s' k' where run: "run_handshake (CypherSession_session demo_cn demo_socks5 demo_noise
      demo_eidolon) (demo_cypher False, demo_net [1, 2, 3, 4] []) = Some (Ok (), (s', k'))"
    and noise: "np_state (np_session s') = Agreed [1, 2]"
    by (auto elim!: yieldsE)
  have "is_established demo_tcp (TcpStream 3, demo_net [1, 2, 3, 4] [])"
    by (simp add: demo_run)
  from eidolon_bound_to_noise [OF run this] run show ?thesis
    by (auto simp: demo_cypher_def CypherSession_with_config_def NetProtocol_with_def
        EidolonRuntime_initiator_def demo_eidolon_def demo_noise_def noise NoiseState_machine_def
        NoiseArtifact_to_vec_def NoiseArtifact_with_def)
qed

text \<open>
  C17: when the proxy layer stands aside.  A fresh session lets its Noise layer talk to the peer at
  once exactly when the connection is up and neither the caller nor the address asks for a proxy;
  otherwise the layer above has to wait for the Socks5 handshake.  \<^verbatim>\<open>Socks5::with\<close> starts in the
  variant \<^verbatim>\<open>Initial\<close> with its two arguments.
\<close>

theorem proxy_layer_stands_aside:
  assumes "\<And>a b. socks5_with sl a b = Socks5_Initial a b"
    and "s = CypherSession_with_config sl nl el remote c dir cert ids signer force"
  shows "is_established (Socks5Session_session (TcpStream_connection lib al) sl) (np_session (np_session s), k) \<longleftrightarrow>
    TcpStream_artifact (c, k) \<noteq> None \<and> \<not> force \<and> \<not> requires_proxy sl remote"
  using assms
  by (cases force)
    (auto simp: Socks5Session_session_def established_layer Socks5_artifact_def
      CypherSession_with_config_def NetProtocol_with_def Let_def)

theorem proxy_layer_stands_aside_witness:
  "is_established (Socks5Session_session demo_cn demo_socks5)
     (np_session (np_session (demo_cypher False)), demo_net [] []) \<and>
   \<not> is_established (Socks5Session_session demo_cn demo_socks5)
     (np_session (np_session (demo_cypher True)), demo_net [] [])"
proof -
  have starts: "socks5_with demo_socks5 a b = Socks5_Initial a b" for a b
    by (simp add: demo_socks5_def)
  have up: "TcpStream_artifact (TcpStream 3, demo_net [] []) \<noteq> None"
    by (simp add: demo_run)
  have "\<not> requires_proxy demo_socks5 a" for a
    by (simp add: demo_socks5_def)
  with up show ?thesis
    by (simp add: proxy_layer_stands_aside [OF starts demo_cypher_def])
qed

end
