(* ===== verification/Transport.thy ===== *)
theory Transport
  imports Cypher
begin

text \<open>
  \<^verbatim>\<open>NetTransport\<close> of \<^verbatim>\<open>src/resource.rs\<close>: a session as a resource of the reactor.  It keeps the
  life-cycle state, the write buffer and the write intent, turns readiness notifications into
  reads, flushes and events, and buffers what the session does not take at once.
\<close>

section \<open>State\<close>

definition READ_BUFFER_SIZE :: nat where "READ_BUFFER_SIZE = 2 ^ 16 - 1"
definition HEAP_BUFFER_SIZE :: nat where "HEAP_BUFFER_SIZE = 2 ^ 16 - 1"

text \<open>Timeouts in seconds.\<close>

definition READ_TIMEOUT :: duration where "READ_TIMEOUT = 6"
definition WRITE_TIMEOUT :: duration where "WRITE_TIMEOUT = 3"

text \<open>What a resource asks the poller for (\<^verbatim>\<open>IoType\<close>, by its constructors).\<close>

datatype IoType = IoType_none | read_only | write_only | read_write

datatype 'art SessionEvent = Established raw_fd 'art | Data bytes | Terminated io_error

datatype TransportState = Init | Handshake | Active | Terminated

text \<open>The derived \<^verbatim>\<open>Ord\<close> of \<^verbatim>\<open>TransportState\<close> is the order of the variants.\<close>

fun state_rank :: "TransportState \<Rightarrow> nat" where
  "state_rank Init = 0"
| "state_rank Handshake = 1"
| "state_rank Active = 2"
| "state_rank TransportState.Terminated = 3"

lemma state_rank_inject: "state_rank a = state_rank b \<longleftrightarrow> a = b"
  by (cases a; cases b) simp_all

instantiation TransportState :: linorder
begin

definition less_eq_TransportState :: "TransportState \<Rightarrow> TransportState \<Rightarrow> bool" where
  "less_eq_TransportState a b \<longleftrightarrow> state_rank a \<le> state_rank b"

definition less_TransportState :: "TransportState \<Rightarrow> TransportState \<Rightarrow> bool" where
  "less_TransportState a b \<longleftrightarrow> state_rank a < state_rank b"

instance
  by intro_classes
    (auto simp: less_eq_TransportState_def less_TransportState_def state_rank_inject)

end

lemmas state_order = less_eq_TransportState_def less_TransportState_def

record 's NetTransport =
  t_state :: TransportState
  t_session :: 's
  t_link_direction :: Direction
  t_write_intent :: bool
  t_read_buffer :: bytes
  t_write_buffer :: bytes

text \<open>A method of the session, run inside the transport.\<close>

definition on_transport :: "('s \<times> 'w, 'e, 'r) prog \<Rightarrow> ('s NetTransport \<times> 'w, 'e, 'r) prog" where
  "on_transport = zoom (\<lambda>(t, w). (t_session t, w)) (\<lambda>(s, w') (t, w). (t\<lparr>t_session := s\<rparr>, w'))"

definition change :: "('s NetTransport \<Rightarrow> 's NetTransport) \<Rightarrow> ('s NetTransport \<times> 'w, 'e, unit) prog" where
  "change f = (\<lambda>(t, w). Some (Ok (), (f t, w)))"

section \<open>Constructors\<close>

text \<open>
  The session is moved into the constructor, so an early return drops it together with its
  connection.
\<close>

definition NetTransport_with_session ::
  "('c, 'w, 'addr, 'ka) NetConnection \<Rightarrow> ('s, 'w, 'c, 'art) NetSession \<Rightarrow> 's \<Rightarrow> Direction \<Rightarrow>
   ('w, 's NetTransport) io"
where
  "NetTransport_with_session cn ss session link_direction w =
     (let st = (if is_established ss (session, w) then Active else Handshake);
          c = as_connection ss session in
      bind_drop (drop_conn cn c) (set_nonblocking cn c True) (\<lambda>_.
        ret \<lparr>t_state = st, t_session = session, t_link_direction = link_direction,
          t_write_intent = True, t_read_buffer = replicate READ_BUFFER_SIZE 0,
          t_write_buffer = []\<rparr>) w)"

definition NetTransport_with_state ::
  "('c, 'w, 'addr, 'ka) NetConnection \<Rightarrow> ('s, 'w, 'c, 'art) NetSession \<Rightarrow> 's \<Rightarrow> TransportState \<Rightarrow>
   Direction \<Rightarrow> ('w, 's NetTransport) io"
where
  "NetTransport_with_state cn ss session st link_direction =
     (let c = as_connection ss session in
      bind_drop (drop_conn cn c) (set_read_timeout cn c (Some READ_TIMEOUT)) (\<lambda>_.
      bind_drop (drop_conn cn c) (set_write_timeout cn c (Some WRITE_TIMEOUT)) (\<lambda>_.
        ret \<lparr>t_state = st, t_session = session, t_link_direction = link_direction,
          t_write_intent = False, t_read_buffer = replicate READ_BUFFER_SIZE 0,
          t_write_buffer = []\<rparr>)))"

definition NetTransport_accept ::
  "('c, 'w, 'addr, 'ka) NetConnection \<Rightarrow> ('s, 'w, 'c, 'art) NetSession \<Rightarrow> 's \<Rightarrow> ('w, 's NetTransport) io"
where
  "NetTransport_accept cn ss session = NetTransport_with_state cn ss session Handshake Inbound"

section \<open>Queries\<close>

definition NetTransport_as_raw_fd ::
  "('c, 'w, 'addr, 'ka) NetConnection \<Rightarrow> ('s, 'w, 'c, 'art) NetSession \<Rightarrow> 's NetTransport \<Rightarrow> raw_fd"
where
  "NetTransport_as_raw_fd cn ss t = as_raw_fd cn (as_connection ss (t_session t))"

text \<open>\<^verbatim>\<open>Display\<close>; \<open>show_fd\<close> and \<open>show_art\<close> print a descriptor and an artifact.\<close>

definition NetTransport_fmt ::
  "(raw_fd \<Rightarrow> string) \<Rightarrow> ('art \<Rightarrow> string) \<Rightarrow> ('c, 'w, 'addr, 'ka) NetConnection \<Rightarrow>
   ('s, 'w, 'c, 'art) NetSession \<Rightarrow> 's NetTransport \<times> 'w \<Rightarrow> string"
where
  "NetTransport_fmt show_fd show_art cn ss = (\<lambda>(t, w). case artifact ss (t_session t, w) of
      None \<Rightarrow> show_fd (NetTransport_as_raw_fd cn ss t)
    | Some a \<Rightarrow> show_art a)"

definition NetTransport_display ::
  "('art \<Rightarrow> string) \<Rightarrow> ('s, 'w, 'c, 'art) NetSession \<Rightarrow> 's NetTransport \<times> 'w \<Rightarrow> string"
where
  "NetTransport_display show_art ss = (\<lambda>(t, w). NetSession_display show_art ss (t_session t, w))"

definition NetTransport_is_active :: "'s NetTransport \<Rightarrow> bool" where
  "NetTransport_is_active t \<longleftrightarrow> t_state t = Active"

definition NetTransport_is_inbound :: "'s NetTransport \<Rightarrow> bool" where
  "NetTransport_is_inbound t \<longleftrightarrow> t_link_direction t = Inbound"

definition NetTransport_is_outbound :: "'s NetTransport \<Rightarrow> bool" where
  "NetTransport_is_outbound t \<longleftrightarrow> t_link_direction t = Outbound"

definition NetTransport_local_addr ::
  "('c, 'w, 'addr, 'ka) NetConnection \<Rightarrow> ('s, 'w, 'c, 'art) NetSession \<Rightarrow> 's NetTransport \<Rightarrow> ('w, 'addr) io"
where
  "NetTransport_local_addr cn ss t = local_addr cn (as_connection ss (t_session t))"

definition NetTransport_artifact ::
  "('s, 'w, 'c, 'art) NetSession \<Rightarrow> 's NetTransport \<times> 'w \<Rightarrow> 'art option"
where
  "NetTransport_artifact ss = (\<lambda>(t, w). artifact ss (t_session t, w))"

definition NetTransport_expect_peer_id ::
  "('s, 'w, 'c, 'art) NetSession \<Rightarrow> ('s NetTransport \<times> 'w, 'e, 'art) prog"
where
  "NetTransport_expect_peer_id ss = (\<lambda>(t, w). case artifact ss (t_session t, w) of
      Some a \<Rightarrow> ret a (t, w)
    | None \<Rightarrow> panic ''session is expected to be established at this stage'' (t, w))"

definition NetTransport_write_buf_len :: "'s NetTransport \<Rightarrow> nat" where
  "NetTransport_write_buf_len t = length (t_write_buffer t)"

section \<open>Writing\<close>

text \<open>\<^verbatim>\<open>VecDeque::drain(..len)\<close> of the write buffer panics when the range is too long.\<close>

definition drain_write_buffer :: "nat \<Rightarrow> ('s NetTransport \<times> 'w, 'e, unit) prog" where
  "drain_write_buffer len = (\<lambda>(t, w).
     if length (t_write_buffer t) < len then panic ''range end index out of range'' (t, w)
     else ret () (t\<lparr>t_write_buffer := drop len (t_write_buffer t)\<rparr>, w))"

definition NetTransport_flush_buffer ::
  "('s, 'w, 'c, 'art) NetSession \<Rightarrow> ('s NetTransport \<times> 'w, unit) io"
where
  "NetTransport_flush_buffer ss = (\<lambda>(t, w).
     let orig_len = length (t_write_buffer t) in
     bind_io
       (match_io (on_transport (nwrite ss (t_write_buffer t))) ret
          (\<lambda>err. if kind err \<in> set [WouldBlock, OutOfMemory, WriteZero, Interrupted] then ret 0
            else fail err))
       (\<lambda>len. bind_io
          (if orig_len > len then change (\<lambda>t. t\<lparr>t_write_intent := True\<rparr>)
           else change (\<lambda>t. t\<lparr>t_write_intent := False\<rparr>))
          (\<lambda>_. drain_write_buffer len))
       (t, w))"

text \<open>\<^verbatim>\<open>self.session.flush().and(res)\<close>: the error of the session comes first.\<close>

definition NetTransport_flush :: "('s, 'w, 'c, 'art) NetSession \<Rightarrow> ('s NetTransport \<times> 'w, unit) io" where
  "NetTransport_flush ss = match_io (NetTransport_flush_buffer ss)
     (\<lambda>_. on_transport (nflush ss))
     (\<lambda>err. bind_io (on_transport (nflush ss)) (\<lambda>_. fail err))"

definition NetTransport_is_ready_to_write :: "'s NetTransport \<Rightarrow> bool" where
  "NetTransport_is_ready_to_write t \<longleftrightarrow> t_state t = Active"

definition NetTransport_empty_write_buf ::
  "('s, 'w, 'c, 'art) NetSession \<Rightarrow> ('s NetTransport \<times> 'w, bool) io"
where
  "NetTransport_empty_write_buf ss = (\<lambda>(t, w).
     bind_io (on_transport (nwrite ss (t_write_buffer t))) (\<lambda>len.
     bind_io (drain_write_buffer len) (\<lambda>_ (t, w).
       if NetTransport_write_buf_len t > 0 then fail (SimpleError WouldBlock) (t, w)
       else ret (len > 0) (t, w))) (t, w))"

definition NetTransport_write_or_buf ::
  "('s, 'w, 'c, 'art) NetSession \<Rightarrow> bytes \<Rightarrow> ('s NetTransport \<times> 'w, unit) io"
where
  "NetTransport_write_or_buf ss buf =
     (if buf = [] then ret ()
      else bind_io (change (\<lambda>t. t\<lparr>t_write_buffer := t_write_buffer t @ buf\<rparr>)) (\<lambda>_.
        NetTransport_flush_buffer ss))"

text \<open>
  \<^verbatim>\<open>io::Write::write\<close> goes through \<^verbatim>\<open>WriteAtomic::write_atomic\<close>, a method the reactor crate
  provides on top of the three above; it is the parameter \<open>write_atomic\<close>.
\<close>

datatype WriteError = NotReady | WriteError_Io io_error

definition NetTransport_write ::
  "(bytes \<Rightarrow> ('s NetTransport \<times> 'w, WriteError, unit) prog) \<Rightarrow> bytes \<Rightarrow> ('s NetTransport \<times> 'w, nat) io"
where
  "NetTransport_write write_atomic buf = match_io (write_atomic buf)
     (\<lambda>_. ret (length buf))
     (\<lambda>err. case err of
        NotReady \<Rightarrow> fail (SimpleError NotConnected)
      | WriteError_Io e \<Rightarrow> fail e)"

text \<open>
  \<^verbatim>\<open>into_session\<close> consumes the transport: an error gives it back.
\<close>

definition NetTransport_into_session ::
  "('s, 'w, 'c, 'art) NetSession \<Rightarrow> 's NetTransport \<times> 'w \<Rightarrow>
   (('s NetTransport \<times> io_error, 's) outcome \<times> 'w) option"
where
  "NetTransport_into_session ss x = (case NetTransport_empty_write_buf ss x of
      None \<Rightarrow> None
    | Some (Ok _, (t, w)) \<Rightarrow> Some (Ok (t_session t), w)
    | Some (Err err, (t, w)) \<Rightarrow> Some (Err (t, err), w)
    | Some (Panic msg, (t, w)) \<Rightarrow> Some (Panic msg, w))"

section \<open>Reacting\<close>

definition NetTransport_terminate ::
  "io_error \<Rightarrow> ('s NetTransport \<times> 'w, 'e, 'art SessionEvent) prog"
where
  "NetTransport_terminate reason =
     bind_io (change (\<lambda>t. t\<lparr>t_state := TransportState.Terminated\<rparr>)) (\<lambda>_.
       ret (SessionEvent.Terminated reason))"

definition NetTransport_handle_writable ::
  "('s, 'w, 'c, 'art) NetSession \<Rightarrow> ('s NetTransport \<times> 'w, 'e, 'art SessionEvent option) prog"
where
  "NetTransport_handle_writable ss = (\<lambda>(t, w).
     let intend = bind_io (change (\<lambda>t. t\<lparr>t_write_intent := True\<rparr>)) (\<lambda>_. ret None) in
     if \<not> is_established ss (t_session t, w) then
       match_io (on_transport (nwrite ss [])) (\<lambda>_. intend) (\<lambda>_. intend) (t, w)
     else
       match_io (NetTransport_flush ss)
         (\<lambda>_. ret None)
         (\<lambda>err. if kind err \<in> set [WouldBlock, WriteZero, OutOfMemory, Interrupted] then intend
           else bind_io (NetTransport_terminate err) (\<lambda>ev. ret (Some ev)))
         (t, w))"

text \<open>A failed read leaves the read buffer alone; its contents are not used before the next read.\<close>

definition NetTransport_handle_readable ::
  "('s, 'w, 'c, 'art) NetSession \<Rightarrow> ('s NetTransport \<times> 'w, 'e, 'art SessionEvent option) prog"
where
  "NetTransport_handle_readable ss = (\<lambda>(t, w).
     match_io (on_transport (nread ss (t_read_buffer t)))
       (\<lambda>(len, buf). bind_io (change (\<lambda>t. t\<lparr>t_read_buffer := buf\<rparr>)) (\<lambda>_ (t, w).
          if len = 0 \<and> \<not> is_established ss (t_session t, w) then ret None (t, w)
          else if len = 0 then
            ret (Some (SessionEvent.Terminated (SimpleError ConnectionReset))) (t, w)
          else if length (t_read_buffer t) < len then panic ''range end index out of range'' (t, w)
          else ret (Some (Data (take len (t_read_buffer t)))) (t, w)))
       (\<lambda>err. if kind err = WouldBlock then ret None
         else bind_io (NetTransport_terminate err) (\<lambda>ev. ret (Some ev)))
       (t, w))"

definition NetTransport_interests :: "'s NetTransport \<Rightarrow> IoType" where
  "NetTransport_interests t = (case t_state t of
      Init \<Rightarrow> write_only
    | TransportState.Terminated \<Rightarrow> IoType_none
    | _ \<Rightarrow> if t_write_intent t then read_write else read_only)"

fun is_reset :: "'art SessionEvent option \<Rightarrow> bool" where
  "is_reset (Some (SessionEvent.Terminated e)) \<longleftrightarrow> kind e = ConnectionReset"
| "is_reset _ \<longleftrightarrow> False"

text \<open>
  \<^verbatim>\<open>handle_io\<close>; \<open>debug\<close> says whether the crate is built with debug assertions.  The second part,
  after the response, is \<open>handle_response\<close>.  It asks the session twice, by \<^verbatim>\<open>is_established\<close> and by
  \<^verbatim>\<open>artifact().expect(..)\<close>, and each time the answer rests on a system call; \<open>lapse\<close> is what happens in
  the world between the two.
\<close>

definition handle_response ::
  "('w \<Rightarrow> 'w) \<Rightarrow> ('c, 'w, 'addr, 'ka) NetConnection \<Rightarrow> ('s, 'w, 'c, 'art) NetSession \<Rightarrow> bool \<Rightarrow> Io \<Rightarrow>
   'art SessionEvent option \<Rightarrow> ('s NetTransport \<times> 'w, 'e, 'art SessionEvent option) prog"
where
  "handle_response lapse cn ss force_write_intent io resp = (\<lambda>(t, w).
     let t = (if force_write_intent then t\<lparr>t_write_intent := True\<rparr>
              else if t_state t = Handshake then t\<lparr>t_write_intent := (io = Io_Read)\<rparr>
              else t) in
     if is_reset resp \<and> t_state t \<noteq> Handshake then
       ret resp (t\<lparr>t_state := TransportState.Terminated\<rparr>, w)
     else if is_established ss (t_session t, w) \<and> t_state t = Handshake then
       (let t = t\<lparr>t_write_intent := True, t_state := Active\<rparr>;
            w = lapse w in
        case artifact ss (t_session t, w) of
          Some a \<Rightarrow> ret (Some (Established (NetTransport_as_raw_fd cn ss t) a)) (t, w)
        | None \<Rightarrow> panic ''session is established'' (t, w))
     else ret resp (t, w))"

definition NetTransport_handle_io ::
  "bool \<Rightarrow> ('w \<Rightarrow> 'w) \<Rightarrow> ('c, 'w, 'addr, 'ka) NetConnection \<Rightarrow> ('s, 'w, 'c, 'art) NetSession \<Rightarrow> Io \<Rightarrow>
   ('s NetTransport \<times> 'w, 'e, 'art SessionEvent option) prog"
where
  "NetTransport_handle_io debug lapse cn ss io = (\<lambda>(t, w).
     if debug \<and> t_state t = TransportState.Terminated then panic ''I/O on terminated transport'' (t, w)
     else if debug \<and> t_state t = Handshake \<and> is_established ss (t_session t, w) then
       panic ''assertion failed: !self.session.is_established()'' (t, w)
     else
       (let force_write_intent = (t_state t = Init);
            t = (if t_state t = Init then t\<lparr>t_state := Handshake\<rparr> else t) in
        bind_io
          (case io of Io_Read \<Rightarrow> NetTransport_handle_readable ss | Io_Write \<Rightarrow> NetTransport_handle_writable ss)
          (handle_response lapse cn ss force_write_intent io) (t, w)))"

end
