(* ===== verification/Transport_Laws.thy ===== *)
theory Transport_Laws
  imports Transport
begin

text \<open>
  Laws of \<^verbatim>\<open>NetTransport\<close>: the ways each method can go, the life cycle, and the fate of the bytes
  it buffers, proved once for every session that keeps the stream contract.
\<close>

section \<open>The ways a method can go\<close>

lemma on_transport_Some [io_simps]:
  "on_transport m (t, w) = Some (r, y) \<longleftrightarrow>
     (\<exists>s' w'. m (t_session t, w) = Some (r, (s', w')) \<and> y = (t\<lparr>t_session := s'\<rparr>, w'))"
  by (auto simp: on_transport_def io_simps)

lemma change_apply [simp]: "change f (t, w) = Some (Ok (), (f t, w))"
  by (simp add: change_def)

lemma bind_change [simp]: "bind_io (change f) g (t, w) = g () (f t, w)"
  by (simp add: change_def)

lemma terminate_apply [simp]:
  "NetTransport_terminate e (t, w) =
     Some (Ok (SessionEvent.Terminated e), (t\<lparr>t_state := TransportState.Terminated\<rparr>, w))"
  by (simp add: NetTransport_terminate_def)

lemma drain_apply [simp]:
  "drain_write_buffer len (t, w) =
     (if length (t_write_buffer t) < len then panic ''range end index out of range'' (t, w)
      else ret () (t\<lparr>t_write_buffer := drop len (t_write_buffer t)\<rparr>, w))"
  by (simp add: drain_write_buffer_def)

text \<open>The kinds of error a flush takes as ``try again later''.\<close>

abbreviation retry :: "io_error \<Rightarrow> bool" where
  "retry e \<equiv> kind e \<in> {WouldBlock, OutOfMemory, WriteZero, Interrupted}"

text \<open>The method \<^verbatim>\<open>handle_io\<close> dispatches to.\<close>

abbreviation react ::
  "('s, 'w, 'c, 'art) NetSession \<Rightarrow> Io \<Rightarrow> ('s NetTransport \<times> 'w, io_error, 'art SessionEvent option) prog"
where
  "react ss io \<equiv> (case io of Io_Read \<Rightarrow> NetTransport_handle_readable ss
     | Io_Write \<Rightarrow> NetTransport_handle_writable ss)"

text \<open>What the debug assertions of \<^verbatim>\<open>handle_io\<close> demand.\<close>

definition asserts :: "('s, 'w, 'c, 'art) NetSession \<Rightarrow> bool \<Rightarrow> 's NetTransport \<times> 'w \<Rightarrow> bool" where
  "asserts ss debug = (\<lambda>(t, w). debug \<longrightarrow> t_state t \<noteq> TransportState.Terminated \<and>
     (t_state t = Handshake \<longrightarrow> \<not> is_established ss (t_session t, w)))"

text \<open>What one notification does to the life cycle.\<close>

definition life_step ::
  "('c, 'w, 'addr, 'ka) NetConnection \<Rightarrow> ('s, 'w, 'c, 'art) NetSession \<Rightarrow> TransportState \<Rightarrow>
   'art SessionEvent option \<Rightarrow> 's NetTransport \<times> 'w \<Rightarrow> bool"
where
  "life_step cn ss st ev = (\<lambda>(t', w').
     ((\<exists>e. ev = Some (SessionEvent.Terminated e)) \<longleftrightarrow> t_state t' = TransportState.Terminated) \<and>
     ((\<exists>fd a. ev = Some (Established fd a)) \<longleftrightarrow> st < Active \<and> t_state t' = Active) \<and>
     (\<forall>fd a. ev = Some (Established fd a) \<longrightarrow>
        fd = NetTransport_as_raw_fd cn ss t' \<and> artifact ss (t_session t', w') = Some a) \<and>
     st \<le> t_state t' \<and> Init < t_state t')"

text \<open>A transport over a session that keeps the stream contract and whose flush does not panic.\<close>

locale transport = byte_stream "nread ss" "nwrite ss"
  for ss :: "('s, 'w, 'c, 'art) NetSession" +
  fixes cn :: "('c, 'w, 'addr, 'ka) NetConnection"
  assumes flush_no_panic: "nflush ss x \<noteq> Some (Panic m, y)"
begin

lemma flush_buffer_cases [consumes 1, case_names Wrote Full Failed]:
  assumes "NetTransport_flush_buffer ss (t, w) = Some (r, (t', w'))"
  obtains n s' where "nwrite ss (t_write_buffer t) (t_session t, w) = Some (Ok n, (s', w'))"
      "n \<le> length (t_write_buffer t)" "r = Ok ()"
      "t' = t\<lparr>t_session := s', t_write_intent := n < length (t_write_buffer t),
        t_write_buffer := drop n (t_write_buffer t)\<rparr>"
    | e s' where "nwrite ss (t_write_buffer t) (t_session t, w) = Some (Err e, (s', w'))" "retry e"
      "r = Ok ()" "t' = t\<lparr>t_session := s', t_write_intent := t_write_buffer t \<noteq> []\<rparr>"
    | e s' where "nwrite ss (t_write_buffer t) (t_session t, w) = Some (Err e, (s', w'))" "\<not> retry e"
      "r = Err e" "t' = t\<lparr>t_session := s'\<rparr>"
proof -
  let ?m = "on_transport (nwrite ss (t_write_buffer t)) :: ('s NetTransport \<times> 'w, nat) io"
  note unfold = NetTransport_flush_buffer_def Let_def match_io_def bind_io_def
  show ?thesis
  proof (cases ?m "(t, w)" rule: prog_cases)
    case Never
    with assms show ?thesis by (simp add: unfold)
  next
    case (Ok n y)
    then obtain s' v where "y = (t\<lparr>t_session := s'\<rparr>, v)"
      "nwrite ss (t_write_buffer t) (t_session t, w) = Some (Ok n, (s', v))"
      by (auto simp: io_simps)
    with assms Ok that(1) [of n s'] wr_len [OF this(2)] show ?thesis
      by (auto simp: unfold split: if_splits)
  next
    case (Err e y)
    then obtain s' v where "y = (t\<lparr>t_session := s'\<rparr>, v)"
      "nwrite ss (t_write_buffer t) (t_session t, w) = Some (Err e, (s', v))"
      by (auto simp: io_simps)
    with assms Err that(2,3) [of e s'] show ?thesis
      by (auto simp: unfold split: if_splits)
  next
    case (Panic m y)
    then show ?thesis by (auto simp: io_simps wr_no_panic)
  qed
qed

lemma flush_buffer_outcome:
  assumes "NetTransport_flush_buffer ss (t, w) = Some (r, (t', w'))"
  shows "r = Ok () \<or> (\<exists>e. r = Err e \<and> \<not> retry e)"
  using assms by (cases rule: flush_buffer_cases) auto

lemma flush_cases [consumes 1, case_names Flush]:
  assumes "NetTransport_flush ss (t, w) = Some (r, (t', w'))"
  obtains r1 t1 w1 r2 s2 where "NetTransport_flush_buffer ss (t, w) = Some (r1, (t1, w1))"
    "nflush ss (t_session t1, w1) = Some (r2, (s2, w'))" "t' = t1\<lparr>t_session := s2\<rparr>"
    "r = r1 \<and> r2 = Ok () \<or> (\<exists>e. r = Err e \<and> r2 = Err e)"
proof -
  show ?thesis
  proof (cases "NetTransport_flush_buffer ss" "(t, w)" rule: prog_cases)
    case (Ok u y)
    obtain t1 w1 where "y = (t1, w1)" by (cases y)
    with assms Ok that [of "Ok ()" t1 w1] show ?thesis
      by (cases "nflush ss" "(t_session t1, w1)" rule: prog_cases)
        (auto simp: NetTransport_flush_def on_transport_def flush_no_panic)
  next
    case (Err e y)
    obtain t1 w1 where "y = (t1, w1)" by (cases y)
    with assms Err that [of "Err e" t1 w1] show ?thesis
      by (cases "nflush ss" "(t_session t1, w1)" rule: prog_cases)
        (auto simp: NetTransport_flush_def on_transport_def flush_no_panic bind_io_def match_io_def)
  next
    case (Panic m y)
    then show ?thesis by (cases y) (auto dest: flush_buffer_outcome)
  qed (use assms in \<open>simp add: NetTransport_flush_def\<close>)
qed

lemma handle_writable_cases [consumes 1, case_names Nudge Flush]:
  assumes "NetTransport_handle_writable ss (t, w) = Some (r, (t', w'))"
  obtains r0 s' where "\<not> is_established ss (t_session t, w)" "r = Ok None"
      "nwrite ss [] (t_session t, w) = Some (r0, (s', w'))" "\<nexists>m. r0 = Panic m"
      "t' = t\<lparr>t_session := s', t_write_intent := True\<rparr>"
    | r0 t0 where "is_established ss (t_session t, w)" "NetTransport_flush ss (t, w) = Some (r0, (t0, w'))"
      "r0 = Ok () \<and> r = Ok None \<and> t' = t0 \<or>
       (\<exists>e. r0 = Err e \<and> retry e \<and> r = Ok None \<and> t' = t0\<lparr>t_write_intent := True\<rparr>) \<or>
       (\<exists>e. r0 = Err e \<and> \<not> retry e \<and> r = Ok (Some (SessionEvent.Terminated e)) \<and>
         t' = t0\<lparr>t_state := TransportState.Terminated\<rparr>)"
proof (cases "is_established ss (t_session t, w)")
  case False
  with assms that(1) show ?thesis
    by (cases "nwrite ss []" "(t_session t, w)" rule: prog_cases)
      (auto simp: NetTransport_handle_writable_def Let_def on_transport_def wr_no_panic
        match_io_def bind_io_def)
next
  case True
  show ?thesis
  proof (cases "NetTransport_flush ss" "(t, w)" rule: prog_cases)
    case (Ok u y)
    with assms True that(2) [of "Ok ()"] show ?thesis
      by (auto simp: NetTransport_handle_writable_def Let_def)
  next
    case (Err e y)
    with assms True that(2) [of "Err e"] show ?thesis
      by (cases y) (auto simp: NetTransport_handle_writable_def Let_def split: if_splits)
  next
    case (Panic m y)
    then show ?thesis by (cases y) (auto elim!: flush_cases dest: flush_buffer_outcome)
  qed (use assms True in \<open>simp add: NetTransport_handle_writable_def Let_def\<close>)
qed

lemma handle_readable_cases [consumes 1, case_names Read Error]:
  assumes "NetTransport_handle_readable ss (t, w) = Some (r, (t', w'))"
  obtains n buf s' where "nread ss (t_read_buffer t) (t_session t, w) = Some (Ok (n, buf), (s', w'))"
      "n \<le> length (t_read_buffer t)" "length buf = length (t_read_buffer t)"
      "t' = t\<lparr>t_session := s', t_read_buffer := buf\<rparr>"
      "r = Ok (if 0 < n then Some (Data (take n buf))
        else if is_established ss (s', w') then Some (SessionEvent.Terminated (SimpleError ConnectionReset))
        else None)"
    | e s' where "nread ss (t_read_buffer t) (t_session t, w) = Some (Err e, (s', w'))"
      "kind e = WouldBlock \<and> r = Ok None \<and> t' = t\<lparr>t_session := s'\<rparr> \<or>
       kind e \<noteq> WouldBlock \<and> r = Ok (Some (SessionEvent.Terminated e)) \<and>
         t' = t\<lparr>t_session := s', t_state := TransportState.Terminated\<rparr>"
proof (cases "nread ss (t_read_buffer t)" "(t_session t, w)" rule: prog_cases)
  case (Ok a y)
  obtain n buf s' v where "a = (n, buf)" "y = (s', v)" by (cases a; cases y)
  with assms Ok that(1) [of n buf s'] rd_len [of "t_read_buffer t" _ n buf] show ?thesis
    by (auto simp: NetTransport_handle_readable_def on_transport_def split: if_splits)
next
  case (Err e y)
  with assms that(2) [of e "fst y"] show ?thesis
    by (cases y) (auto simp: NetTransport_handle_readable_def on_transport_def split: if_splits)
qed (use assms in \<open>auto simp: NetTransport_handle_readable_def on_transport_def rd_no_panic\<close>)

lemma flush_state:
  assumes "NetTransport_flush ss (t, w) = Some (r, (t', w'))"
  shows "t_state t' = t_state t \<and> t_read_buffer t' = t_read_buffer t"
  using assms by (cases rule: flush_cases) (auto elim!: flush_buffer_cases)

lemma react_state:
  assumes "react ss io (t, w) = Some (r, (t', w'))"
  shows "\<exists>resp. r = Ok resp \<and> (\<forall>fd a. resp \<noteq> Some (Established fd a)) \<and>
    length (t_read_buffer t') = length (t_read_buffer t) \<and>
    (t_state t' = t_state t \<and> (\<forall>e. resp = Some (SessionEvent.Terminated e) \<longrightarrow>
        kind e = ConnectionReset \<and> is_established ss (t_session t', w')) \<or>
     t_state t' = TransportState.Terminated \<and> (\<exists>e. resp = Some (SessionEvent.Terminated e)))"
proof (cases io)
  case Io_Read
  with assms have "NetTransport_handle_readable ss (t, w) = Some (r, (t', w'))" by simp
  then show ?thesis by (cases rule: handle_readable_cases) auto
next
  case Io_Write
  with assms have "NetTransport_handle_writable ss (t, w) = Some (r, (t', w'))" by simp
  then show ?thesis by (cases rule: handle_writable_cases) (auto dest: flush_state)
qed

lemma handle_io_cases [consumes 3, case_names Reset Up Gone Other]:
  assumes run: "NetTransport_handle_io debug lapse cn ss io (t, w) =
      Some (r :: (io_error, 'art SessionEvent option) outcome, (t', w'))"
    and ok: "asserts ss debug (t, w)"
    and t0: "t0 = (if t_state t = Init then t\<lparr>t_state := Handshake\<rparr> else t)"
  obtains resp t1 b where "react ss io (t0, w) = Some (Ok resp, (t1, w'))"
      "is_reset resp" "t_state t1 \<noteq> Handshake" "r = Ok resp"
      "t' = t1\<lparr>t_write_intent := b, t_state := TransportState.Terminated\<rparr>"
    | resp t1 a w1 where "react ss io (t0, w) = Some (Ok resp, (t1, w1))"
      "artifact ss (t_session t1, w') = Some a" "t_state t1 = Handshake"
      "r = Ok (Some (Established (NetTransport_as_raw_fd cn ss t1) a))"
      "t' = t1\<lparr>t_write_intent := True, t_state := Active\<rparr>"
    | resp t1 w1 where "react ss io (t0, w) = Some (Ok resp, (t1, w1))"
      "is_established ss (t_session t1, w1)" "w' = lapse w1"
      "artifact ss (t_session t1, w') = None" "t_state t1 = Handshake"
      "r = Panic ''session is established''"
      "t' = t1\<lparr>t_write_intent := True, t_state := Active\<rparr>"
    | resp t1 where "react ss io (t0, w) = Some (Ok resp, (t1, w'))"
      "t_state t1 = Handshake \<and> \<not> is_established ss (t_session t1, w') \<or>
       t_state t1 \<noteq> Handshake \<and> \<not> is_reset resp" "r = Ok resp"
      "t' = t1\<lparr>t_write_intent := (if t_state t = Init then True
        else if t_state t1 = Handshake then io = Io_Read else t_write_intent t1)\<rparr>"
proof -
  have unfold: "NetTransport_handle_io debug lapse cn ss io (t, w) =
      bind_io (react ss io) (handle_response lapse cn ss (t_state t = Init) io) (t0, w)"
    using ok by (cases io) (auto simp: NetTransport_handle_io_def asserts_def t0 Let_def)
  obtain r1 t1 w1 where react: "react ss io (t0, w) = Some (r1, (t1, w1))"
    using run by (cases "react ss io" "(t0, w)" rule: prog_cases) (auto simp: unfold)
  obtain resp where resp: "r1 = Ok resp" using react_state [OF react] by blast
  have same: "t_write_intent_update (\<lambda>_. t_write_intent t1) t1 = t1" by (cases t1) simp
  have fd: "NetTransport_as_raw_fd cn ss (t1\<lparr>t_write_intent := True, t_state := Active\<rparr>) =
      NetTransport_as_raw_fd cn ss t1" by (simp add: NetTransport_as_raw_fd_def)
  have run': "handle_response lapse cn ss (t_state t = Init) io resp (t1, w1) = Some (r, (t', w'))"
    using run react resp by (simp add: unfold)
  show ?thesis
  proof (cases "t_state t1 = Handshake")
    case True
    show ?thesis
    proof (cases "is_established ss (t_session t1, w1)")
      case est: True
      with True run' react resp that(2,3) show ?thesis
        by (cases "artifact ss (t_session t1, lapse w1)")
          (auto simp: handle_response_def Let_def fd split: if_splits)
    next
      case False
      with True run' react resp that(4) show ?thesis
        by (auto simp: handle_response_def Let_def split: if_splits)
    qed
  next
    case False
    show ?thesis
    proof (cases "is_reset resp")
      case True
      with False run' react resp that(1) [of resp t1 "t_write_intent t1"] that(1) [of resp t1 True] show ?thesis
        by (auto simp: handle_response_def Let_def same split: if_splits)
    next
      assume "\<not> is_reset resp"
      with False run' react resp that(4) show ?thesis
        by (auto simp: handle_response_def Let_def same split: if_splits)
    qed
  qed
qed

lemma handle_io_life_cycle:
  assumes run: "NetTransport_handle_io debug lapse cn ss io (t, w) = Some (Ok ev :: (io_error, _) outcome, (t', w'))"
    and live: "t_state t \<noteq> TransportState.Terminated" and ok: "asserts ss debug (t, w)"
  shows "life_step cn ss (t_state t) ev (t', w') \<and> length (t_read_buffer t') = length (t_read_buffer t)"
proof -
  define t0 where "t0 = (if t_state t = Init then t\<lparr>t_state := Handshake\<rparr> else t)"
  have t0: "t_state t0 = (if t_state t = Init then Handshake else t_state t)"
    "length (t_read_buffer t0) = length (t_read_buffer t)" by (simp_all add: t0_def)
  from run ok t0_def show ?thesis
  proof (cases rule: handle_io_cases)
    case (Reset resp t1 b)
    then obtain e where "resp = Some (SessionEvent.Terminated e)"
      by (cases resp rule: is_reset.cases) auto
    with Reset live t0(2) react_state [OF Reset(1)] show ?thesis
      by (cases "t_state t") (auto simp: life_step_def state_order)
  next
    case (Up resp t1 a w1)
    from react_state [OF Up(1)] Up(3) t0 have "t_state t \<in> {Init, Handshake}"
      by (auto split: if_splits)
    with Up t0(2) react_state [OF Up(1)] show ?thesis
      by (auto simp: life_step_def state_order NetTransport_as_raw_fd_def)
  next
    case (Gone resp t1 w1)
    then show ?thesis by simp
  next
    case (Other resp t1)
    note st = react_state [OF Other(1)]
    show ?thesis
    proof (cases "t_state t1 = TransportState.Terminated")
      case True
      with st t0(1) live obtain e where "resp = Some (SessionEvent.Terminated e)"
        by (auto split: if_splits)
      with True Other(3,4) st t0(2) show ?thesis
        by (cases "t_state t") (auto simp: life_step_def state_order)
    next
      case False
      with st have "t_state t1 = t_state t0" "\<forall>e. resp = Some (SessionEvent.Terminated e) \<longrightarrow>
        kind e = ConnectionReset \<and> is_established ss (t_session t1, w')" "\<forall>fd a. resp \<noteq> Some (Established fd a)"
        by auto
      moreover from this(2) Other(2) have "\<forall>e. resp \<noteq> Some (SessionEvent.Terminated e)" by auto
      ultimately show ?thesis
        using False Other(3,4) st t0 by (cases "t_state t") (auto simp: life_step_def state_order)
    qed
  qed
qed

end

section \<open>Histories of a transport\<close>

text \<open>
  What the reactor and the application do with a transport: notify it of readiness while it is not
  terminated, send through \<^verbatim>\<open>write_or_buf\<close> and \<^verbatim>\<open>empty_write_buf\<close> while it is ready to write.
  Between two calls the world may change by \<open>env\<close>, and so may it between the two questions
  \<^verbatim>\<open>handle_io\<close> asks its session.
\<close>

datatype 'art call = Notified Io "'art SessionEvent option"
  | Sent bytes "(io_error, unit) outcome" | Emptied "(io_error, bool) outcome"

inductive history ::
  "bool \<Rightarrow> ('c, 'w, 'addr, 'ka) NetConnection \<Rightarrow> ('s, 'w, 'c, 'art) NetSession \<Rightarrow> ('w \<Rightarrow> 'w \<Rightarrow> bool) \<Rightarrow>
   's NetTransport \<times> 'w \<Rightarrow> 'art call list \<Rightarrow> 's NetTransport \<times> 'w \<Rightarrow> bool"
  for debug cn ss env x
where
  fresh: "history debug cn ss env x [] x"
| world: "history debug cn ss env x cs (t, w) \<Longrightarrow> env w w' \<Longrightarrow> history debug cn ss env x cs (t, w')"
| notified: "history debug cn ss env x cs (t, w) \<Longrightarrow> t_state t \<noteq> TransportState.Terminated \<Longrightarrow>
    NetTransport_handle_io debug lapse cn ss io (t, w) = Some (Ok ev :: (io_error, _) outcome, y) \<Longrightarrow>
    (\<And>v. lapse v = v \<or> env v (lapse v)) \<Longrightarrow> history debug cn ss env x (cs @ [Notified io ev]) y"
| sent: "history debug cn ss env x cs (t, w) \<Longrightarrow> NetTransport_is_ready_to_write t \<Longrightarrow>
    NetTransport_write_or_buf ss buf (t, w) = Some (r, y) \<Longrightarrow>
    history debug cn ss env x (cs @ [Sent buf r]) y"
| emptied: "history debug cn ss env x cs (t, w) \<Longrightarrow> NetTransport_is_ready_to_write t \<Longrightarrow>
    NetTransport_empty_write_buf ss (t, w) = Some (r, y) \<Longrightarrow>
    history debug cn ss env x (cs @ [Emptied r]) y"

text \<open>The bytes handed to the transport, and the bytes it delivered.\<close>

fun sent_bytes :: "'art call list \<Rightarrow> bytes" where
  "sent_bytes [] = []"
| "sent_bytes (Sent buf r # cs) = buf @ sent_bytes cs"
| "sent_bytes (c # cs) = sent_bytes cs"

fun data_bytes :: "'art call list \<Rightarrow> bytes" where
  "data_bytes [] = []"
| "data_bytes (Notified io (Some (Data bs)) # cs) = bs @ data_bytes cs"
| "data_bytes (c # cs) = data_bytes cs"

lemma sent_bytes_append [simp]: "sent_bytes (cs @ ds) = sent_bytes cs @ sent_bytes ds"
  by (induction cs rule: sent_bytes.induct) simp_all

lemma data_bytes_append [simp]: "data_bytes (cs @ ds) = data_bytes cs @ data_bytes ds"
  by (induction cs rule: data_bytes.induct) simp_all

text \<open>The events of a whole history follow the life cycle.\<close>

definition count_established :: "'art call list \<Rightarrow> nat" where
  "count_established cs = length (filter (\<lambda>c. \<exists>io fd a. c = Notified io (Some (Established fd a))) cs)"

definition count_terminated :: "'art call list \<Rightarrow> nat" where
  "count_terminated cs = length (filter (\<lambda>c. \<exists>io e. c = Notified io (Some (SessionEvent.Terminated e))) cs)"

definition life_so_far :: "TransportState \<Rightarrow> 'art call list \<Rightarrow> TransportState \<Rightarrow> bool" where
  "life_so_far st cs st' \<longleftrightarrow> st \<le> st' \<and>
     count_terminated cs = (if st' = TransportState.Terminated then 1 else 0) \<and>
     count_established cs \<le> 1 \<and> (st' < Active \<longrightarrow> count_established cs = 0) \<and>
     (st' = Active \<longrightarrow> count_established cs = 1)"

lemma counts_append [simp]:
  "count_established (cs @ [c]) = count_established cs +
     (if \<exists>io fd a. c = Notified io (Some (Established fd a)) then 1 else 0)"
  "count_terminated (cs @ [c]) = count_terminated cs +
     (if \<exists>io e. c = Notified io (Some (SessionEvent.Terminated e)) then 1 else 0)"
  by (simp_all add: count_established_def count_terminated_def)

lemma life_so_far_step:
  assumes st: "st1 \<noteq> TransportState.Terminated" and before: "life_so_far st cs st1"
    and step: "life_step cn ss st1 ev (t', w')"
  shows "life_so_far st (cs @ [Notified io ev]) (t_state t')"
proof -
  have ends: "count_terminated (cs @ [Notified io ev]) = (if t_state t' = TransportState.Terminated then 1 else 0)"
    using st before step by (auto simp: life_so_far_def life_step_def)
  have est: "count_established (cs @ [Notified io ev]) =
      count_established cs + (if st1 < Active \<and> t_state t' = Active then 1 else 0)"
    using step by (auto simp: life_step_def)
  have le: "st \<le> t_state t'" "st1 \<le> t_state t'" using before step by (auto simp: life_so_far_def life_step_def)
  show ?thesis
    unfolding life_so_far_def ends est using before le st
    by (cases st1; cases "t_state t'") (auto simp: life_so_far_def state_order)
qed

lemma handle_io_asserts:
  assumes "NetTransport_handle_io debug lapse cn ss io (t, w) = Some (Ok ev :: ('e, 'art SessionEvent option) outcome, y)"
  shows "asserts ss debug (t, w)"
  using assms by (auto simp: NetTransport_handle_io_def asserts_def split: if_splits)

context transport
begin

lemma write_or_buf_cases [consumes 1, case_names Nothing Flush]:
  assumes "NetTransport_write_or_buf ss buf (t, w) = Some (r, (t', w'))"
  obtains "buf = []" "r = Ok ()" "t' = t" "w' = w"
    | "buf \<noteq> []" "NetTransport_flush_buffer ss (t\<lparr>t_write_buffer := t_write_buffer t @ buf\<rparr>, w) = Some (r, (t', w'))"
  using assms that by (auto simp: NetTransport_write_or_buf_def split: if_splits)

lemma empty_write_buf_cases [consumes 1, case_names Wrote Failed]:
  assumes "NetTransport_empty_write_buf ss (t, w) = Some (r, (t', w'))"
  obtains n s' where "nwrite ss (t_write_buffer t) (t_session t, w) = Some (Ok n, (s', w'))"
      "n \<le> length (t_write_buffer t)" "t' = t\<lparr>t_session := s', t_write_buffer := drop n (t_write_buffer t)\<rparr>"
      "r = (if n < length (t_write_buffer t) then Err (SimpleError WouldBlock) else Ok (0 < n))"
    | e s' where "nwrite ss (t_write_buffer t) (t_session t, w) = Some (Err e, (s', w'))"
      "t' = t\<lparr>t_session := s'\<rparr>" "r = Err e"
proof (cases "nwrite ss (t_write_buffer t)" "(t_session t, w)" rule: prog_cases)
  case (Ok n y)
  with assms that(1) [of n "fst y"] wr_len [OF Ok] show ?thesis
    by (cases y) (auto simp: NetTransport_empty_write_buf_def NetTransport_write_buf_len_def
      on_transport_def split: if_splits)
qed (use assms that(2) in \<open>auto simp: NetTransport_empty_write_buf_def on_transport_def wr_no_panic\<close>)

lemma write_state:
  "NetTransport_write_or_buf ss buf (t, w) = Some (r, (t', w')) \<Longrightarrow> t_state t' = t_state t"
  "NetTransport_empty_write_buf ss (t, w) = Some (r', (t', w')) \<Longrightarrow> t_state t' = t_state t"
  by (auto elim!: write_or_buf_cases flush_buffer_cases empty_write_buf_cases)

lemma history_life_cycle:
  assumes "history debug cn ss env x cs y" and "t_state (fst x) \<le> Handshake"
  shows "life_so_far (t_state (fst x)) cs (t_state (fst y))"
  using assms
proof (induction rule: history.induct)
  case (notified cs t w lapse io ev y)
  obtain t' w' where y: "y = (t', w')" by (cases y)
  have "life_step cn ss (t_state t) ev (t', w')"
    using handle_io_life_cycle [OF notified(3) [unfolded y] notified(2) handle_io_asserts [OF notified(3)]] ..
  with life_so_far_step [OF notified(2)] notified.IH [OF notified.prems] show ?case
    by (simp add: y)
qed (auto simp: life_so_far_def count_established_def count_terminated_def state_order dest: write_state)

end

section \<open>Single notifications\<close>

context transport
begin

lemma react_data:
  assumes "react ss io (t, w) = Some (Ok (Some (Data bs)), (t', w'))"
  shows "0 < length bs \<and> length bs \<le> length (t_read_buffer t)"
proof (cases io)
  case Io_Read
  with assms have "NetTransport_handle_readable ss (t, w) =
      Some (Ok (Some (Data bs)) :: (io_error, _) outcome, (t', w'))" by simp
  then show ?thesis by (cases rule: handle_readable_cases) (auto split: if_splits)
next
  case Io_Write
  with assms have "NetTransport_handle_writable ss (t, w) =
      Some (Ok (Some (Data bs)) :: (io_error, _) outcome, (t', w'))" by simp
  then show ?thesis by (cases rule: handle_writable_cases) auto
qed

lemma handle_io_data:
  assumes run: "NetTransport_handle_io debug lapse cn ss io (t, w) =
      Some (Ok (Some (Data bs)) :: (io_error, _) outcome, (t', w'))"
  shows "0 < length bs \<and> length bs \<le> length (t_read_buffer t)"
  using run handle_io_asserts [OF run] refl
  by (cases rule: handle_io_cases) (auto dest!: react_data split: if_splits)

lemma handle_io_quiet:
  assumes run: "NetTransport_handle_io debug lapse cn ss io (t, w) = Some (Ok None :: (io_error, _) outcome, (t', w'))"
    and live: "t_state t \<noteq> TransportState.Terminated"
  shows "t_state t' = (if t_state t = Init then Handshake else t_state t)"
  using run handle_io_asserts [OF run] refl
  by (cases rule: handle_io_cases) (use live in \<open>auto dest!: react_state split: if_splits\<close>)

text \<open>The assertion about the handshake holds again after every call.\<close>

lemma handle_io_asserts_after:
  assumes run: "NetTransport_handle_io debug lapse cn ss io (t, w) =
      Some (r :: (io_error, 'art SessionEvent option) outcome, (t', w'))"
    and ok: "asserts ss debug (t, w)"
  shows "t_state t' = Handshake \<Longrightarrow> \<not> is_established ss (t_session t', w')"
  using run ok refl by (cases rule: handle_io_cases) auto

text \<open>The only panic left when the assertions hold: the session is gone between the two questions.\<close>

lemma handle_io_panic:
  assumes run: "NetTransport_handle_io debug lapse cn ss io (t, w) =
      Some (r :: (io_error, 'art SessionEvent option) outcome, (t', w'))"
    and ok: "asserts ss debug (t, w)"
  shows "(\<exists>ev. r = Ok ev) \<or> r = Panic ''session is established'' \<and> t_state t \<le> Handshake \<and>
    t_state t' = Active \<and> \<not> is_established ss (t_session t', w') \<and>
    (\<exists>w1. is_established ss (t_session t', w1) \<and> w' = lapse w1)"
  using run ok refl
proof (cases rule: handle_io_cases)
  case (Gone resp t1 w1)
  from react_state [OF Gone(1)] Gone(5) have "t_state t \<le> Handshake"
    by (auto simp: state_order split: if_splits)
  with Gone show ?thesis by (auto simp: is_established_def)
qed auto

lemma write_outcome:
  "NetTransport_write_or_buf ss buf (t, w) = Some (r, (t', w')) \<Longrightarrow> r = Ok () \<or> (\<exists>e. r = Err e \<and> \<not> retry e)"
  "NetTransport_empty_write_buf ss (t, w) = Some (r', (t', w')) \<Longrightarrow> \<nexists>m. r' = Panic m"
  by (auto elim!: write_or_buf_cases empty_write_buf_cases dest: flush_buffer_outcome split: if_splits)

end

section \<open>Buffered bytes keep the write intent\<close>

text \<open>An active transport with buffered bytes asks to be told when it can write.\<close>

definition wakes :: "'s NetTransport \<Rightarrow> bool" where
  "wakes t \<longleftrightarrow> (t_state t = Active \<and> t_write_buffer t \<noteq> [] \<longrightarrow> t_write_intent t)"

context transport
begin

lemma flush_buffer_wakes:
  assumes "NetTransport_flush_buffer ss (t, w) = Some (Ok u, (t', w'))"
  shows "t_write_intent t' \<longleftrightarrow> t_write_buffer t' \<noteq> []"
  using assms by (cases rule: flush_buffer_cases) auto

lemma react_wakes:
  assumes run: "react ss io (t, w) = Some (Ok ev :: (io_error, _) outcome, (t', w'))" and "wakes t"
  shows "wakes t'"
proof (cases io)
  case Io_Read
  with run have "NetTransport_handle_readable ss (t, w) = Some (Ok ev :: (io_error, _) outcome, (t', w'))"
    by simp
  then show ?thesis by (cases rule: handle_readable_cases) (use \<open>wakes t\<close> in \<open>auto simp: wakes_def\<close>)
next
  case Io_Write
  with run have "NetTransport_handle_writable ss (t, w) = Some (Ok ev :: (io_error, _) outcome, (t', w'))"
    by simp
  then show ?thesis
  proof (cases rule: handle_writable_cases)
    case (Flush r0 t0)
    from Flush(2) show ?thesis
      by (cases rule: flush_cases)
        (use Flush(3) in \<open>auto simp: wakes_def dest: flush_buffer_wakes flush_buffer_outcome\<close>)
  qed (simp add: wakes_def)
qed

lemma handle_io_wakes:
  assumes run: "NetTransport_handle_io debug lapse cn ss io (t, w) = Some (Ok ev :: (io_error, _) outcome, (t', w'))"
    and "wakes t"
  shows "wakes t'"
proof -
  define t0 where "t0 = (if t_state t = Init then t\<lparr>t_state := Handshake\<rparr> else t)"
  have t0: "wakes t0" using \<open>wakes t\<close> by (auto simp: t0_def wakes_def)
  from run handle_io_asserts [OF run] t0_def show ?thesis
    by (cases rule: handle_io_cases) (use react_wakes [OF _ t0] in \<open>auto simp: wakes_def\<close>)
qed

lemma history_wakes:
  assumes "history debug cn ss env x cs y" and "wakes (fst x)"
    and "\<And>buf e. Sent buf (Err e) \<notin> set cs"
  shows "wakes (fst y)"
  using assms
proof (induction rule: history.induct)
  case (notified cs t w lapse io ev y)
  then show ?case by (cases y) (auto dest: handle_io_wakes)
next
  case (sent cs t w buf r y)
  obtain t' w' where y: "y = (t', w')" by (cases y)
  from sent have "wakes t" and no_err: "r \<noteq> Err e" for e by auto
  from sent(3) [unfolded y] show ?case
  proof (cases rule: write_or_buf_cases)
    case Flush
    then obtain u where "r = Ok u" using no_err flush_buffer_outcome by blast
    with flush_buffer_wakes Flush(2) show ?thesis by (auto simp: wakes_def y)
  qed (use \<open>wakes t\<close> y in auto)
next
  case (emptied cs t w r y)
  then have "wakes t" by auto
  obtain t' w' where y: "y = (t', w')" by (cases y)
  from emptied(3) [unfolded y] show ?case
    by (cases rule: empty_write_buf_cases) (use \<open>wakes t\<close> y in \<open>auto simp: wakes_def\<close>)
qed auto

end

section \<open>The fate of the bytes\<close>

text \<open>
  The account of a call: the session stays good, what was sent or buffered before and the bytes
  \<open>tx\<close> are sent or buffered after, and the bytes \<open>rx\<close> are taken from the input.
\<close>

definition account ::
  "('s \<times> 'w \<Rightarrow> bool) \<Rightarrow> ('s \<times> 'w \<Rightarrow> bytes) \<Rightarrow> ('s \<times> 'w \<Rightarrow> bytes) \<Rightarrow> bytes \<Rightarrow> bytes \<Rightarrow>
   's NetTransport \<times> 'w \<Rightarrow> 's NetTransport \<times> 'w \<Rightarrow> bool"
where
  "account good inp out tx rx = (\<lambda>(t, w) (t', w'). good (t_session t', w') \<and>
     out (t_session t', w') @ t_write_buffer t' = out (t_session t, w) @ t_write_buffer t @ tx \<and>
     inp (t_session t, w) = rx @ inp (t_session t', w'))"

text \<open>A transport over an observable medium; flushing the session moves no bytes.\<close>

locale transport_duplex = transport ss cn + byte_duplex "nread ss" "nwrite ss" good inp out
  for ss :: "('s, 'w, 'c, 'art) NetSession" and cn :: "('c, 'w, 'addr, 'ka) NetConnection"
    and good :: "'s \<times> 'w \<Rightarrow> bool" and inp :: "'s \<times> 'w \<Rightarrow> bytes" and out :: "'s \<times> 'w \<Rightarrow> bytes" +
  assumes flush_moves: "good x \<Longrightarrow> nflush ss x = Some (r, y) \<Longrightarrow> inp y = inp x \<and> out y = out x \<and> good y"
begin

lemma account_trans:
  "account good inp out tx rx x y \<Longrightarrow> account good inp out tx' rx' y z \<Longrightarrow> account good inp out (tx @ tx') (rx @ rx') x z"
  by (auto simp: account_def)

lemma flush_buffer_account:
  assumes "NetTransport_flush_buffer ss (t, w) = Some (r, (t', w'))" and good: "good (t_session t, w)"
  shows "account good inp out [] [] (t, w) (t', w')"
  using assms(1)
  by (cases rule: flush_buffer_cases)
    (auto simp: account_def dest!: wr_moves [OF good] wr_err [OF good])

lemma flush_account:
  assumes "NetTransport_flush ss (t, w) = Some (r, (t', w'))" and good: "good (t_session t, w)"
  shows "account good inp out [] [] (t, w) (t', w')"
  using assms(1)
proof (cases rule: flush_cases)
  case (Flush r1 t1 w1 r2 s2)
  with flush_buffer_account [OF Flush(1) good] flush_moves [OF _ Flush(2)] show ?thesis
    by (auto simp: account_def)
qed

lemma react_account:
  assumes run: "react ss io (t, w) = Some (Ok ev, (t', w'))" and good: "good (t_session t, w)"
  shows "account good inp out [] (data_bytes [Notified io ev]) (t, w) (t', w')"
proof (cases io)
  case Io_Read
  with run have "NetTransport_handle_readable ss (t, w) = Some (Ok ev :: (io_error, _) outcome, (t', w'))" by simp
  then show ?thesis
    by (cases rule: handle_readable_cases)
      (auto simp: account_def dest!: rd_moves [OF good] rd_err [OF good])
next
  case Io_Write
  with run have "NetTransport_handle_writable ss (t, w) = Some (Ok ev :: (io_error, _) outcome, (t', w'))" by simp
  then show ?thesis
  proof (cases rule: handle_writable_cases)
    case (Nudge r0 s')
    then show ?thesis
      by (cases r0) (auto simp: account_def dest!: wr_moves [OF good] wr_err [OF good])
  next
    case (Flush r0 t0)
    with flush_account [OF Flush(2) good] show ?thesis by (auto simp: account_def)
  qed
qed

lemma handle_io_account:
  assumes run: "NetTransport_handle_io debug lapse cn ss io (t, w) = Some (Ok ev :: (io_error, _) outcome, (t', w'))"
    and good: "good (t_session t, w)" and active: "Active \<le> t_state t"
  shows "account good inp out [] (data_bytes [Notified io ev]) (t, w) (t', w')"
proof -
  have st: "t_state t \<noteq> Init" "t_state t \<noteq> Handshake" using active by (auto simp: state_order)
  then have "t = (if t_state t = Init then t\<lparr>t_state := Handshake\<rparr> else t)" by simp
  with run handle_io_asserts [OF run] show ?thesis
  proof (cases rule: handle_io_cases)
    case (Up resp t1 a w1)
    with react_state [OF Up(1)] st show ?thesis by auto
  qed (use st react_account [OF _ good] in \<open>auto simp: account_def\<close>)
qed

lemma write_account:
  assumes good: "good (t_session t, w)"
  shows "NetTransport_write_or_buf ss buf (t, w) = Some (r, (t', w')) \<Longrightarrow> account good inp out buf [] (t, w) (t', w')"
    and "NetTransport_empty_write_buf ss (t, w) = Some (r', (t', w')) \<Longrightarrow> account good inp out [] [] (t, w) (t', w')"
  subgoal
    by (erule write_or_buf_cases) (use good in \<open>auto simp: account_def dest!: flush_buffer_account\<close>)
  subgoal
    by (erule empty_write_buf_cases) (auto simp: account_def dest!: wr_moves [OF good] wr_err [OF good])
  done

lemma history_account:
  assumes "history debug cn ss env x cs y"
    and "good (t_session (fst x), snd x)" and "Active \<le> t_state (fst x)"
    and env: "\<And>s w w'. env w w' \<Longrightarrow> good (s, w) \<Longrightarrow>
      good (s, w') \<and> inp (s, w') = inp (s, w) \<and> out (s, w') = out (s, w)"
  shows "account good inp out (sent_bytes cs) (data_bytes cs) x y \<and> Active \<le> t_state (fst y)"
  using assms(1-3)
proof (induction rule: history.induct)
  case fresh
  then show ?case by (cases x) (simp add: account_def)
next
  case (world cs t w w')
  then show ?case using env [OF world(2)] by (cases x) (simp add: account_def)
next
  case (notified cs t w lapse io ev y)
  obtain t' w' where y: "y = (t', w')" by (cases y)
  from notified have acc: "account good inp out (sent_bytes cs) (data_bytes cs) x (t, w)" and "Active \<le> t_state t" by auto
  then have good: "good (t_session t, w)" by (cases x) (simp add: account_def)
  from handle_io_life_cycle [OF notified(3) [unfolded y] notified(2) handle_io_asserts [OF notified(3)]]
  have "t_state t \<le> t_state t'" by (simp add: life_step_def)
  with account_trans [OF acc handle_io_account [OF notified(3) [unfolded y] good]] \<open>Active \<le> t_state t\<close>
  show ?case by (auto simp: y)
next
  case (sent cs t w buf r y)
  obtain t' w' where y: "y = (t', w')" by (cases y)
  from sent have acc: "account good inp out (sent_bytes cs) (data_bytes cs) x (t, w)" and st: "Active \<le> t_state t" by auto
  then have "good (t_session t, w)" by (cases x) (simp add: account_def)
  from account_trans [OF acc write_account(1) [OF this sent(3) [unfolded y]]] st
    write_state(1) [OF sent(3) [unfolded y]]
  show ?case by (auto simp: y)
next
  case (emptied cs t w r y)
  obtain t' w' where y: "y = (t', w')" by (cases y)
  from emptied have acc: "account good inp out (sent_bytes cs) (data_bytes cs) x (t, w)" and st: "Active \<le> t_state t" by auto
  then have "good (t_session t, w)" by (cases x) (simp add: account_def)
  from account_trans [OF acc write_account(2) [OF this emptied(3) [unfolded y]]] st
    write_state(2) [OF emptied(3) [unfolded y]]
  show ?case by (auto simp: y)
qed

end

end
