(* ===== verification/Reactor.thy ===== *)
theory Reactor
  imports Transport_Laws
begin

text \<open>
  The laws of \<open>Transport_Laws\<close> on the sessions of the library: transports over \<^verbatim>\<open>TcpStream\<close> and
  over \<^verbatim>\<open>CypherSession\<close>, whatever the three handshake machines are.
\<close>

section \<open>Interpretations\<close>

lemma flush_tcp [simp]: "with_handle (\<lambda>s. ret ()) x = Some (Ok (), x)"
  by (cases x) (simp add: with_handle_def)

lemma flush_layer: "nflush ss (np_session p, w) = Some (Ok (), (np_session p, w)) \<Longrightarrow>
    NetProtocol_flush ss (p, w) = Some (Ok (), (p, w))"
  by (simp add: NetProtocol_flush_def on_session_def)

lemma cypher_flush [simp]:
  "nflush (CypherSession_session (TcpStream_connection lib al) sl nl el) x = Some (Ok (), x)"
  by (cases x) (simp add: CypherSession_session_def NoiseSession_session_def Socks5Session_session_def
      flush_layer)

lemmas transport_intros = transport_duplex.intro transport.intro transport_axioms.intro
  transport_duplex_axioms.intro

interpretation tcp_transport: transport_duplex "tcp_session lib al" "TcpStream_connection lib al"
  "\<lambda>_. True" sess_inp sess_out for lib al
  by (intro transport_intros tcp_layer.byte_duplex_axioms tcp_layer.byte_stream_axioms) auto

text \<open>A complete session over the connection \<open>c\<close>; transfers do not exchange the connection.\<close>

definition cypher_at ::
  "('host, 'r, 'se) socks5_lib \<Rightarrow> ('n, 'hh, 'pk, 'ne) noise_lib \<Rightarrow>
   ('es, 'cert, 'ids, 'signer, 'ee) eidolon_lib \<Rightarrow> TcpStream \<Rightarrow>
   ('host, 'r, 'n, 'es, 'signer) CypherSession \<times> kernel \<Rightarrow> bool"
where
  "cypher_at sl nl el c = (\<lambda>(s, k). cypher_good sl nl el (s, k) \<and> np_session (np_session (np_session s)) = c)"

lemma cypher_transfer_conn:
  assumes "cypher_good sl nl el (s, k)"
  shows "nread (CypherSession_session (TcpStream_connection lib al) sl nl el) buf (s, k) = Some (r, (s', k')) \<Longrightarrow>
      np_session (np_session (np_session s')) = np_session (np_session (np_session s))"
    and "nwrite (CypherSession_session (TcpStream_connection lib al) sl nl el) buf (s, k) = Some (r', (s', k')) \<Longrightarrow>
      np_session (np_session (np_session s')) = np_session (np_session (np_session s))"
  using assms
  by (auto simp: cypher_good_def layer_good_def read_pass write_pass NoiseSession_session_def
      Socks5Session_session_def io_simps)

interpretation cypher_transport: transport_duplex
  "CypherSession_session (TcpStream_connection lib al) sl nl el" "TcpStream_connection lib al"
  "cypher_at sl nl el c" cypher_inp cypher_out for lib al sl nl el c
proof (intro transport_intros cypher.byte_stream_axioms byte_duplex.intro byte_duplex_axioms.intro)
qed (auto simp: cypher_at_def split: prod.splits simp del: cypher_sel
    dest: cypher.rd_moves [rotated] cypher.rd_err [rotated] cypher.wr_moves [rotated]
      cypher.wr_err [rotated] cypher_transfer_conn)

section \<open>Replaying histories\<close>

text \<open>
  An executable companion of \<open>history\<close>: run a list of commands, with nothing happening in between.
\<close>

datatype command = Notify Io | Send bytes | Empty

fun replay_step ::
  "bool \<Rightarrow> ('c, 'w, 'addr, 'ka) NetConnection \<Rightarrow> ('s, 'w, 'c, 'art) NetSession \<Rightarrow> command \<Rightarrow>
   's NetTransport \<times> 'w \<Rightarrow> ('art call \<times> 's NetTransport \<times> 'w) option"
where
  "replay_step debug cn ss (Notify io) (t, w) =
     (if t_state t = TransportState.Terminated then None
      else case NetTransport_handle_io debug id cn ss io (t, w) :: ((io_error, _) outcome \<times> _) option of
        Some (Ok ev, y) \<Rightarrow> Some (Notified io ev, y)
      | _ \<Rightarrow> None)"
| "replay_step debug cn ss (Send buf) (t, w) =
     (if NetTransport_is_ready_to_write t
      then map_option (\<lambda>(r, y). (Sent buf r, y)) (NetTransport_write_or_buf ss buf (t, w)) else None)"
| "replay_step debug cn ss Empty (t, w) =
     (if NetTransport_is_ready_to_write t
      then map_option (\<lambda>(r, y). (Emptied r, y)) (NetTransport_empty_write_buf ss (t, w)) else None)"

fun replay ::
  "bool \<Rightarrow> ('c, 'w, 'addr, 'ka) NetConnection \<Rightarrow> ('s, 'w, 'c, 'art) NetSession \<Rightarrow> command list \<Rightarrow>
   's NetTransport \<times> 'w \<Rightarrow> ('art call list \<times> 's NetTransport \<times> 'w) option"
where
  "replay debug cn ss [] x = Some ([], x)"
| "replay debug cn ss (c # cs) x = (case replay_step debug cn ss c x of
      None \<Rightarrow> None
    | Some (d, y) \<Rightarrow> map_option (\<lambda>(ds, z). (d # ds, z)) (replay debug cn ss cs y))"

lemma replay_step_history:
  assumes "history debug cn ss env x cs y" and "replay_step debug cn ss c y = Some (d, z)"
  shows "history debug cn ss env x (cs @ [d]) z"
proof (cases y; cases c)
  fix t w io
  assume y: "y = (t, w)" and c: "c = Notify io"
  show ?thesis
    using assms y c history.notified [of debug cn ss env x cs t w id io]
    by (cases "NetTransport_handle_io debug id cn ss io :: (_, io_error, _) prog" "(t, w)" rule: prog_cases)
      (auto split: if_splits)
qed (use assms in \<open>auto split: if_splits intro: history.intros\<close>)

lemma replay_history:
  assumes "history debug cn ss env x cs y" and "replay debug cn ss c y = Some (ds, z)"
  shows "history debug cn ss env x (cs @ ds) z"
  using assms
proof (induction c arbitrary: cs y ds)
  case (Cons c cmds)
  then obtain d y' ds' where "replay_step debug cn ss c y = Some (d, y')"
    and "replay debug cn ss cmds y' = Some (ds', z)" and "ds = d # ds'"
    by (auto split: option.splits)
  with Cons.IH [OF replay_step_history [OF Cons.prems(1)]] show ?case by simp
qed simp

lemma replayE:
  assumes "case replay debug cn ss cmds x of None \<Rightarrow> False | Some (cs, t, w) \<Rightarrow> P cs t w"
  obtains cs t w where "history debug cn ss env x cs (t, w)" and "P cs t w"
proof (cases "replay debug cn ss cmds x")
  case (Some r)
  obtain cs t w where r: "r = (cs, t, w)" by (cases r)
  have "history debug cn ss env x cs (t, w)"
    using replay_history [OF history.fresh Some [unfolded r]] by simp
  with that assms Some r show ?thesis by simp
qed (use assms in simp)

section \<open>Instances for concrete runs\<close>

text \<open>A session whose three handshakes are complete, and a transport over it.\<close>

definition demo_up :: "(SocketAddr option, unit, demo_state, demo_state \<times> bytes option, unit) CypherSession" where
  "demo_up = \<lparr>np_state = \<lparr>er_state = (Agreed [3, 4], Some [1, 2]), er_signer = ()\<rparr>,
     np_session = \<lparr>np_state = Agreed [1, 2],
       np_session = \<lparr>np_state = Socks5_Initial (Some demo_addr) False, np_session = TcpStream 3\<rparr>\<rparr>\<rparr>"

definition demo_transport :: "TransportState \<Rightarrow> 's \<Rightarrow> 's NetTransport" where
  "demo_transport st s = \<lparr>t_state = st, t_session = s, t_link_direction = Outbound,
     t_write_intent = False, t_read_buffer = [0, 0, 0, 0], t_write_buffer = []\<rparr>"

abbreviation demo_cypher_session where
  "demo_cypher_session \<equiv> CypherSession_session demo_cn demo_socks5 demo_noise demo_eidolon"

section \<open>Properties\<close>

lemma tcp_timeouts:
  "set_read_timeout (TcpStream_connection lib al) c dur =
     k_call (stream_fd c) (sock_set_timeout (\<lambda>sk. sk\<lparr>sk_read_timeout := dur\<rparr>) dur)"
  "set_write_timeout (TcpStream_connection lib al) c dur =
     k_call (stream_fd c) (sock_set_timeout (\<lambda>sk. sk\<lparr>sk_write_timeout := dur\<rparr>) dur)"
  by (simp_all add: TcpStream_connection_def)

lemma keeps_set_timeout:
  "keeps peers (k_call fd (sock_set_timeout (\<lambda>sk. sk\<lparr>sk_read_timeout := dur\<rparr>) dur))"
  "keeps peers (k_call fd (sock_set_timeout (\<lambda>sk. sk\<lparr>sk_write_timeout := dur\<rparr>) dur))"
  by (auto simp: keeps_def k_call_Some sock_set_timeout_def sock_set_Some peers_def k_update_def k_sock_def fun_eq_iff
      option.map_comp intro!: option.map_cong0 split: if_splits option.splits)

text \<open>
  C18: a transport neither loses, duplicates nor reorders bytes.  Take any history of an active
  transport over a complete \<^verbatim>\<open>CypherSession\<close>: notifications in any order, writes that were
  accepted, cut short, postponed or refused, buffer flushes, and in between anything that leaves
  the bytes of this connection alone.  What the connection has accepted followed by what is still buffered is what
  it had before followed by everything sent, and the \<^verbatim>\<open>Data\<close> events together are exactly the
  bytes taken from the connection's input.
\<close>

theorem transport_conserves_bytes:
  assumes "history debug cn (CypherSession_session cn sl nl el) env (t, k) cs (t', k')"
    and cn: "cn = TcpStream_connection lib al"
    and "cypher_good sl nl el (t_session t, k)" and "Active \<le> t_state t"
    and c: "c = np_session (np_session (np_session (t_session t)))"
    and env: "\<And>k k'. env k k' \<Longrightarrow> tcp_inp c k' = tcp_inp c k \<and> tcp_out c k' = tcp_out c k"
  shows "cypher_out (t_session t', k') @ t_write_buffer t' =
      cypher_out (t_session t, k) @ t_write_buffer t @ sent_bytes cs \<and>
    cypher_inp (t_session t, k) = data_bytes cs @ cypher_inp (t_session t', k')"
proof -
  have "account (cypher_at sl nl el c) cypher_inp cypher_out (sent_bytes cs) (data_bytes cs) (t, k) (t', k') \<and>
      Active \<le> t_state (fst (t', k'))"
    by (rule cypher_transport.history_account [OF assms(1) [unfolded cn]])
      (use assms(3,4) c env in \<open>auto simp: cypher_at_def cypher_good_def layer_good_def cypher_inp_def
        cypher_out_def through_def sess_inp_def sess_out_def\<close>)
  then show ?thesis by (simp add: account_def)
qed

theorem transport_conserves_bytes_witness:
  "\<exists>cs t' k'. history True demo_cn demo_cypher_session (=)
      (demo_transport Active demo_up, demo_net [8, 9] [Grant 2]) cs (t', k') \<and>
    sent_bytes cs = [1, 2, 3] \<and> t_write_buffer t' = [] \<and>
    cypher_out (t_session t', k') = [1, 2, 3] \<and> data_bytes cs = [8, 9]"
proof -
  let ?start = "(demo_transport Active demo_up, demo_net [8, 9] [Grant 2])"
  have "case replay True demo_cn demo_cypher_session [Send [1, 2, 3], Notify Io_Write, Notify Io_Read] ?start of
      None \<Rightarrow> False
    | Some (cs, t', k') \<Rightarrow> sent_bytes cs = [1, 2, 3] \<and> t_write_buffer t' = [] \<and> data_bytes cs = [8, 9]"
    by code_simp
  then obtain cs t' k' where run: "history True demo_cn demo_cypher_session (=) ?start cs (t', k')"
    and cs: "sent_bytes cs = [1, 2, 3] \<and> t_write_buffer t' = [] \<and> data_bytes cs = [8, 9]"
    by (rule replayE)
  have "cypher_good demo_socks5 demo_noise demo_eidolon (t_session (demo_transport Active demo_up), demo_net [8, 9] [Grant 2])"
    by code_simp
  moreover have "cypher_out (t_session (demo_transport Active demo_up), demo_net [8, 9] [Grant 2]) = []"
    by code_simp
  ultimately show ?thesis
    using transport_conserves_bytes [OF run refl _ _ refl] run cs by (auto simp: demo_transport_def)
qed

text \<open>
  C19: buffered bytes are never forgotten.  In every history of a transport in which no send
  reported an error, an active transport with bytes in its write buffer asks the poller for
  writability, so the reactor will come back to flush it.
\<close>

theorem transport_never_stalls:
  assumes "history debug cn (CypherSession_session cn sl nl el) env (t, k) cs (t', k')"
    and cn: "cn = TcpStream_connection lib al" and "t_write_buffer t = []"
    and "\<And>buf e. Sent buf (Err e) \<notin> set cs"
    and "t_state t' = Active" and "t_write_buffer t' \<noteq> []"
  shows "NetTransport_interests t' = read_write"
proof -
  have "wakes (fst (t', k'))"
    by (rule cypher_transport.history_wakes [OF assms(1) [unfolded cn] _ assms(4)])
      (simp add: wakes_def assms(3))
  with assms show ?thesis by (simp add: wakes_def NetTransport_interests_def)
qed

theorem transport_never_stalls_witness:
  "\<exists>cs t' k'. history True demo_cn demo_cypher_session (=)
      (demo_transport Active demo_up, demo_net [8, 9] [Grant 2]) cs (t', k') \<and>
    t_write_buffer t' = [3] \<and> NetTransport_interests t' = read_write"
proof -
  let ?start = "(demo_transport Active demo_up, demo_net [8, 9] [Grant 2])"
  have "case replay True demo_cn demo_cypher_session [Send [1, 2, 3]] ?start of
      None \<Rightarrow> False
    | Some (cs, t', k') \<Rightarrow> cs = [Sent [1, 2, 3] (Ok ())] \<and> t_state t' = Active \<and> t_write_buffer t' = [3]"
    by code_simp
  then obtain cs t' k' where run: "history True demo_cn demo_cypher_session (=) ?start cs (t', k')"
    and cs: "cs = [Sent [1, 2, 3] (Ok ())] \<and> t_state t' = Active \<and> t_write_buffer t' = [3]"
    by (rule replayE)
  from transport_never_stalls [OF run refl] run cs show ?thesis
    by (auto simp: demo_transport_def)
qed

text \<open>
  C20: the events of a transport's life.  In every history that starts before the session is up,
  the state only advances, \<^verbatim>\<open>Established\<close> is reported at most once, exactly once by the time the
  transport is active and never before, and \<^verbatim>\<open>Terminated\<close> is reported exactly once when the
  transport is terminated and never otherwise.
\<close>

theorem transport_life_cycle:
  assumes "history debug cn (CypherSession_session cn sl nl el) env (t, k) cs (t', k')"
    and cn: "cn = TcpStream_connection lib al" and "t_state t \<le> Handshake"
  shows "t_state t \<le> t_state t' \<and>
    count_terminated cs = (if t_state t' = TransportState.Terminated then 1 else 0) \<and>
    count_established cs \<le> 1 \<and> (t_state t' < Active \<longrightarrow> count_established cs = 0) \<and>
    (t_state t' = Active \<longrightarrow> count_established cs = 1)"
  using cypher_transport.history_life_cycle [OF assms(1) [unfolded cn]] assms(3)
  by (simp add: life_so_far_def)

theorem transport_life_cycle_witness:
  "\<exists>cs t' k'. history True demo_cn demo_cypher_session (=)
      (demo_transport Handshake (demo_cypher False), demo_net [1, 2, 3, 4] []) cs (t', k') \<and>
    t_state t' = Active \<and> count_established cs = 1 \<and> count_terminated cs = 0"
proof -
  let ?start = "(demo_transport Handshake (demo_cypher False), demo_net [1, 2, 3, 4] [])"
  have "case replay True demo_cn demo_cypher_session
      [Notify Io_Write, Notify Io_Read, Notify Io_Write, Notify Io_Read] ?start of
      None \<Rightarrow> False | Some (cs, t', k') \<Rightarrow> t_state t' = Active"
    by code_simp
  then obtain cs t' k' where run: "history True demo_cn demo_cypher_session (=) ?start cs (t', k')"
    and "t_state t' = Active"
    by (rule replayE)
  with transport_life_cycle [OF run refl] show ?thesis
    by (auto simp: demo_transport_def)
qed

text \<open>
  C21: what an event means.  \<^verbatim>\<open>Established\<close> carries the connection's descriptor and the artifact
  of the session and is reported exactly when the transport becomes active; \<^verbatim>\<open>Terminated\<close> leaves
  a terminated transport; \<^verbatim>\<open>Data\<close> is never empty nor longer than the read buffer, whose length
  never changes; no event leaves the state as it was, up to the end of \<^verbatim>\<open>Init\<close>.
\<close>

theorem handle_io_event:
  assumes run: "NetTransport_handle_io debug lapse cn ss io (t, k) = Some (Ok ev :: (io_error, _) outcome, (t', k'))"
    and ss: "ss = CypherSession_session cn sl nl el" and cn: "cn = TcpStream_connection lib al"
    and live: "t_state t \<noteq> TransportState.Terminated"
  shows "length (t_read_buffer t') = length (t_read_buffer t) \<and>
    (case ev of
      Some (Established fd a) \<Rightarrow> t_state t < Active \<and> t_state t' = Active \<and>
        fd = stream_fd (np_session (np_session (np_session (t_session t')))) \<and>
        artifact ss (t_session t', k') = Some a
    | Some (SessionEvent.Terminated e) \<Rightarrow> t_state t' = TransportState.Terminated
    | Some (Data bs) \<Rightarrow> 0 < length bs \<and> length bs \<le> length (t_read_buffer t) \<and>
        t_state t' \<in> {Handshake, Active}
    | None \<Rightarrow> t_state t' = (if t_state t = Init then Handshake else t_state t))"
proof -
  note run' = run [unfolded ss cn]
  have life: "life_step cn ss (t_state t) ev (t', k')"
    "length (t_read_buffer t') = length (t_read_buffer t)"
    using cypher_transport.handle_io_life_cycle [OF run' live handle_io_asserts [OF run']] ss cn by auto
  show ?thesis
  proof (cases ev)
    case (Some e)
    have "0 < length bs \<and> length bs \<le> length (t_read_buffer t)" if "e = Data bs" for bs
      using run' unfolding Some that by (rule cypher_transport.handle_io_data)
    then show ?thesis
      using life Some
      by (cases e; cases "t_state t'")
        (auto simp: life_step_def state_order NetTransport_as_raw_fd_def ss cn TcpStream_connection_def)
  next
    case None
    then show ?thesis
      using life cypher_transport.handle_io_quiet [OF run' [unfolded None] live]
      by simp
  qed
qed

theorem handle_io_event_witness:
  "\<exists>t' k' bs. NetTransport_handle_io True id demo_cn demo_cypher_session Io_Read
      (demo_transport Active demo_up, demo_net [5, 6, 7, 8, 9] []) =
      Some (Ok (Some (Data bs)) :: (io_error, _) outcome, (t', k')) \<and> 0 < length bs \<and> length bs \<le> 4"
proof -
  let ?start = "(demo_transport Active demo_up, demo_net [5, 6, 7, 8, 9] [])"
  have "yields (NetTransport_handle_io True id demo_cn demo_cypher_session Io_Read ?start
      :: ((io_error, _) outcome \<times> _) option) (\<lambda>ev _. case ev of Some (Data bs) \<Rightarrow> True | _ \<Rightarrow> False)"
    by code_simp
  then obtain ev y where run: "NetTransport_handle_io True id demo_cn demo_cypher_session Io_Read ?start =
      Some (Ok ev :: (io_error, _) outcome, y)"
    and ev: "case ev of Some (Data bs) \<Rightarrow> True | _ \<Rightarrow> False"
    by (rule yieldsE)
  obtain bs where bs: "ev = Some (Data bs)"
    using ev by (auto split: option.splits SessionEvent.splits)
  obtain t' k' where y: "y = (t', k')" by (cases y)
  from handle_io_event [OF run [unfolded y] refl refl] bs run y show ?thesis
    by (simp add: demo_transport_def)
qed

text \<open>
  C22: when \<^verbatim>\<open>handle_io\<close> panics.  Over a \<^verbatim>\<open>CypherSession\<close>, whatever the machines return and the peer and the
  system do, there are three ways: with debug assertions, a notification of a terminated transport, and a
  notification of a transport still in its handshake state whose session is established already; and
  in every build \<^verbatim>\<open>expect\<close>, when the session was established as \<^verbatim>\<open>handle_io\<close> asked whether it is and no
  more as it asked for the artifact.  No range or index fails.  A call that returns leaves the
  assertion about the handshake true, and the two writing methods do not panic.
\<close>

theorem handle_io_panics:
  assumes ss: "ss = CypherSession_session cn sl nl el" and cn: "cn = TcpStream_connection lib al"
    and run: "NetTransport_handle_io debug lapse cn ss io (t, k) =
      Some (r :: (io_error, _) outcome, (t', k'))"
  shows "(case r of
      Ok ev \<Rightarrow> t_state t' = Handshake \<longrightarrow> \<not> is_established ss (t_session t', k')
    | Err e \<Rightarrow> False
    | Panic m \<Rightarrow>
        debug \<and> t_state t = TransportState.Terminated \<and> m = ''I/O on terminated transport'' \<and>
          t' = t \<and> k' = k \<or>
        debug \<and> t_state t = Handshake \<and> is_established ss (t_session t, k) \<and>
          m = ''assertion failed: !self.session.is_established()'' \<and> t' = t \<and> k' = k \<or>
        m = ''session is established'' \<and> t_state t \<le> Handshake \<and> t_state t' = Active \<and>
          \<not> is_established ss (t_session t', k') \<and>
          (\<exists>k1. is_established ss (t_session t', k1) \<and> k' = lapse k1)) \<and>
    (\<forall>m y. NetTransport_write_or_buf ss buf (t, k) \<noteq> Some (Panic m, y) \<and>
      NetTransport_empty_write_buf ss (t, k) \<noteq> Some (Panic m, y))"
proof -
  have writes: "\<forall>m y. NetTransport_write_or_buf ss buf (t, k) \<noteq> Some (Panic m, y) \<and>
      NetTransport_empty_write_buf ss (t, k) \<noteq> Some (Panic m, y)"
    unfolding ss cn by (auto dest: cypher_transport.write_outcome)
  show ?thesis
  proof (cases "asserts ss debug (t, k)")
    case True
    from cypher_transport.handle_io_panic [OF run [unfolded ss cn] True [unfolded ss cn]]
      cypher_transport.handle_io_asserts_after [OF run [unfolded ss cn] True [unfolded ss cn]] writes
    show ?thesis by (auto simp: ss cn)
  next
    case False
    with run writes show ?thesis
      by (auto simp: asserts_def NetTransport_handle_io_def split: if_splits)
  qed
qed

text \<open>
  Witness of C22: the last act of the handshake arrives and the peer resets the connection between
  the two questions; \<^verbatim>\<open>handle_io\<close> panics, in the transport's first active moment.
\<close>

theorem handle_io_panics_witness:
  "\<exists>t' k'. NetTransport_handle_io True (k_update 3 (\<lambda>sk. sk\<lparr>sk_peer := None\<rparr>)) demo_cn demo_cypher_session Io_Read
      (demo_transport Handshake (demo_up\<lparr>np_state := \<lparr>er_state = (Expecting, Some [1, 2]), er_signer = ()\<rparr>\<rparr>),
       demo_net [3, 4] []) = Some (Panic ''session is established'' :: (io_error, _) outcome, (t', k')) \<and>
    t_state t' = Active \<and> \<not> is_established demo_cypher_session (t_session t', k') \<and>
    (\<exists>k1. is_established demo_cypher_session (t_session t', k1))"
proof -
  let ?lapse = "k_update 3 (\<lambda>sk. sk\<lparr>sk_peer := None\<rparr>)"
  let ?t = "demo_transport Handshake (demo_up\<lparr>np_state := \<lparr>er_state = (Expecting, Some [1, 2]), er_signer = ()\<rparr>\<rparr>)"
  let ?run = "NetTransport_handle_io True ?lapse demo_cn demo_cypher_session Io_Read (?t, demo_net [3, 4] [])
    :: ((io_error, _) outcome \<times> _) option"
  have "case ?run of Some (Panic m, _) \<Rightarrow> m = ''session is established'' | _ \<Rightarrow> False"
    by code_simp
  then obtain t' k' where run: "?run = Some (Panic ''session is established'', (t', k'))"
    by (auto split: option.splits prod.splits outcome.splits)
  have "t_state ?t = Handshake" by (simp add: demo_transport_def)
  with handle_io_panics [OF refl refl run, of "[]"] run show ?thesis
    by (simp del: cypher_sel) blast
qed

text \<open>
  C23: \<^verbatim>\<open>NetTransport::accept\<close> around a session that is already established.  Every connected
  \<^verbatim>\<open>TcpStream\<close> is established, so a transport accepted over a bare stream starts in the handshake
  state, and in a build with debug assertions its first notification panics.
\<close>

theorem accept_over_tcp_panics:
  assumes "NetTransport_accept (TcpStream_connection lib al) (tcp_session lib al) c k = Some (Ok t, k')"
    and "TcpStream_artifact (c, k) \<noteq> None"
  shows "NetTransport_handle_io True lapse cn (tcp_session lib al) io (t, k') =
    Some (Panic ''assertion failed: !self.session.is_established()'', (t, k'))"
proof -
  have "peers k' = peers k \<and> t_session t = c \<and> t_state t = Handshake"
    using assms(1)
    by (auto simp: NetTransport_accept_def NetTransport_with_state_def bind_drop_def io_simps Let_def
        tcp_timeouts dest!: keepsD [OF keeps_set_timeout(1)] keepsD [OF keeps_set_timeout(2)])
  with assms(2) show ?thesis
    by (simp add: NetTransport_handle_io_def TcpStream_artifact_peers)
qed

theorem accept_over_tcp_panics_witness:
  "\<exists>t k'. NetTransport_accept demo_cn demo_tcp (TcpStream 3) (demo_net [] []) = Some (Ok t, k') \<and>
    NetTransport_handle_io True id demo_cn demo_tcp Io_Read (t, k') =
      Some (Panic ''assertion failed: !self.session.is_established()'' :: (io_error, _) outcome, (t, k'))"
proof -
  obtain t k' where run: "NetTransport_accept demo_cn demo_tcp (TcpStream 3) (demo_net [] []) = Some (Ok t, k')"
    by (simp add: NetTransport_accept_def NetTransport_with_state_def bind_drop_def tcp_timeouts
        sock_set_timeout_def sock_set_def READ_TIMEOUT_def WRITE_TIMEOUT_def demo_run)
  have "TcpStream_artifact (TcpStream 3, demo_net [] []) \<noteq> None"
    by (simp add: demo_run)
  from accept_over_tcp_panics [OF run this] run show ?thesis by blast
qed

text \<open>
  C24: errors of a write during the handshake are discarded.  When the transport is notified of
  writability before its session is established and the session's write fails, no event is
  reported, the state stays and the transport waits for input, whatever the error was.
\<close>

theorem handshake_write_error_discarded:
  assumes "t_state t = Handshake" and "\<not> is_established ss (t_session t, k)"
    and "nwrite ss [] (t_session t, k) = Some (Err e, (s', k'))" and "\<not> is_established ss (s', k')"
  shows "NetTransport_handle_io debug lapse cn ss Io_Write (t, k) =
    Some (Ok None, (t\<lparr>t_session := s', t_write_intent := False\<rparr>, k'))"
  using assms
  by (simp add: NetTransport_handle_io_def NetTransport_handle_writable_def on_transport_def Let_def
      handle_response_def)

theorem handshake_write_error_discarded_witness:
  "\<exists>t' k'. NetTransport_handle_io True id demo_cn demo_cypher_session Io_Write
      (demo_transport Handshake (demo_cypher False), demo_net [] [Refuse EPIPE]) =
      Some (Ok None :: (io_error, _) outcome, (t', k'))"
proof -
  let ?s = "t_session (demo_transport Handshake (demo_cypher False))" and ?k = "demo_net [] [Refuse EPIPE]"
  have "raises (nwrite demo_cypher_session [] (?s, ?k)) (\<lambda>e x. \<not> is_established demo_cypher_session x)"
    by code_simp
  then obtain e x where wr: "nwrite demo_cypher_session [] (?s, ?k) = Some (Err e, x)"
    "\<not> is_established demo_cypher_session x"
    by (rule raisesE)
  obtain s' k' where x: "x = (s', k')" by (cases x)
  have "\<not> is_established demo_cypher_session (?s, ?k)" by code_simp
  from handshake_write_error_discarded [OF _ this wr(1) [unfolded x] wr(2) [unfolded x]]
  show ?thesis by (intro exI) (simp add: demo_transport_def)
qed

text \<open>
  C25: \<^verbatim>\<open>into_session\<close> gives the session back only when nothing is left to send.  On success the
  connection has accepted the whole write buffer; on failure the returned transport and the
  connection together still hold every byte, in order.
\<close>

theorem into_session_flushes:
  assumes good: "cypher_good sl nl el (t_session t, k)"
    and ss: "ss = CypherSession_session (TcpStream_connection lib al) sl nl el"
    and run: "NetTransport_into_session ss (t, k) = Some (r, k')"
  shows "case r of
      Ok s \<Rightarrow> cypher_out (s, k') = cypher_out (t_session t, k) @ t_write_buffer t
    | Err (t', e) \<Rightarrow> cypher_out (t_session t', k') @ t_write_buffer t' =
        cypher_out (t_session t, k) @ t_write_buffer t
    | Panic m \<Rightarrow> False"
proof -
  obtain r0 t0 where run0: "NetTransport_empty_write_buf ss (t, k) = Some (r0, (t0, k'))"
    and r: "r = (case r0 of Ok _ \<Rightarrow> Ok (t_session t0) | Err e \<Rightarrow> Err (t0, e) | Panic m \<Rightarrow> Panic m)"
    using run by (auto simp: NetTransport_into_session_def split: option.splits outcome.splits)
  let ?c = "np_session (np_session (np_session (t_session t)))"
  have "account (cypher_at sl nl el ?c) cypher_inp cypher_out [] [] (t, k) (t0, k')"
    using run0 unfolding ss
    by (rule cypher_transport.write_account(2) [rotated]) (simp add: cypher_at_def good)
  moreover have "t_write_buffer t0 = []" if "r0 = Ok b" for b
    using run0 unfolding ss that
    by (cases rule: cypher_transport.empty_write_buf_cases) (auto split: if_splits)
  moreover have "\<nexists>m. r0 = Panic m"
    using run0 unfolding ss by (rule cypher_transport.write_outcome(2))
  ultimately show ?thesis
    by (cases r0) (auto simp: r account_def)
qed

theorem into_session_flushes_witness:
  "\<exists>s k'. NetTransport_into_session demo_cypher_session
      ((demo_transport Active demo_up)\<lparr>t_write_buffer := [1, 2]\<rparr>, demo_net [] []) = Some (Ok s, k') \<and>
    cypher_out (s, k') = [1, 2]"
proof -
  let ?t = "(demo_transport Active demo_up)\<lparr>t_write_buffer := [1, 2]\<rparr>" and ?k = "demo_net [] []"
  have "yields (NetTransport_into_session demo_cypher_session (?t, ?k)) (\<lambda>_ _. True)"
    by code_simp
  then obtain s k' where run: "NetTransport_into_session demo_cypher_session (?t, ?k) = Some (Ok s, k')"
    by (rule yieldsE)
  have "cypher_good demo_socks5 demo_noise demo_eidolon (t_session ?t, ?k)" by code_simp
  moreover have "cypher_out (t_session ?t, ?k) = []" by code_simp
  ultimately show ?thesis using into_session_flushes [OF _ refl run] run by simp
qed

text \<open>
  C26: what a send promises.  \<^verbatim>\<open>write_or_buf\<close> never reports that it would block, was interrupted
  or ran out of room, as the reactor demands of it: in these cases it buffers.  Whatever it
  reports, every byte is accepted by the connection or kept in the write buffer behind the earlier
  ones; and after a success the transport asks for writability exactly if something is left.
\<close>

theorem write_or_buf_buffers:
  assumes good: "cypher_good sl nl el (t_session t, k)"
    and ss: "ss = CypherSession_session (TcpStream_connection lib al) sl nl el"
    and run: "NetTransport_write_or_buf ss buf (t, k) = Some (r, (t', k'))" and "buf \<noteq> []"
  shows "cypher_out (t_session t', k') @ t_write_buffer t' =
      cypher_out (t_session t, k) @ t_write_buffer t @ buf \<and>
    (case r of
      Ok _ \<Rightarrow> t_write_intent t' \<longleftrightarrow> t_write_buffer t' \<noteq> []
    | Err e \<Rightarrow> kind e \<notin> {WouldBlock, OutOfMemory, WriteZero, Interrupted}
    | Panic m \<Rightarrow> False)"
proof -
  let ?c = "np_session (np_session (np_session (t_session t)))"
  have "account (cypher_at sl nl el ?c) cypher_inp cypher_out buf [] (t, k) (t', k')"
    using run unfolding ss
    by (rule cypher_transport.write_account(1) [rotated]) (simp add: cypher_at_def good)
  moreover have "r = Ok () \<or> (\<exists>e. r = Err e \<and> \<not> retry e)"
    using run unfolding ss by (rule cypher_transport.write_outcome(1))
  moreover have "t_write_intent t' \<longleftrightarrow> t_write_buffer t' \<noteq> []" if "r = Ok ()"
    using run \<open>buf \<noteq> []\<close> unfolding ss that
    by (auto elim!: cypher_transport.write_or_buf_cases dest: cypher_transport.flush_buffer_wakes)
  ultimately show ?thesis by (auto simp: account_def)
qed

theorem write_or_buf_buffers_witness:
  "\<exists>t' k'. NetTransport_write_or_buf demo_cypher_session [1, 2, 3]
      (demo_transport Active demo_up, demo_net [] [Refuse EAGAIN]) = Some (Ok (), (t', k')) \<and>
    cypher_out (t_session t', k') @ t_write_buffer t' = [1, 2, 3] \<and>
    (t_write_intent t' \<longleftrightarrow> t_write_buffer t' \<noteq> [])"
proof -
  let ?t = "demo_transport Active demo_up" and ?k = "demo_net [] [Refuse EAGAIN]"
  have "yields (NetTransport_write_or_buf demo_cypher_session [1, 2, 3] (?t, ?k)) (\<lambda>_ _. True)"
    by code_simp
  then obtain y where "NetTransport_write_or_buf demo_cypher_session [1, 2, 3] (?t, ?k) = Some (Ok (), y)"
    by (rule yieldsE) simp
  then obtain t' k' where run: "NetTransport_write_or_buf demo_cypher_session [1, 2, 3] (?t, ?k) =
      Some (Ok (), (t', k'))" by (cases y) simp
  have "cypher_good demo_socks5 demo_noise demo_eidolon (t_session ?t, ?k)" by code_simp
  moreover have "cypher_out (t_session ?t, ?k) = []" by code_simp
  ultimately show ?thesis
    using write_or_buf_buffers [OF _ refl run] run by (simp add: demo_transport_def)
qed

text \<open>
  C27: a handshake act that arrives in two pieces is lost.  During the handshake a layer reads a
  whole act with \<^verbatim>\<open>read_exact\<close> from a non-blocking connection.  When the connection has only the
  first part of the act and then would block, that part is taken from the connection and dropped:
  no event is reported, layer and transport are as before, and the next read will take the rest
  of the act for its beginning.
\<close>

theorem split_act_is_lost:
  assumes ss: "ss = NetProtocol_session cn sm (tcp_session lib al) ii"
    and t: "t_state t = Handshake" "c = np_session (t_session t)" "m = np_state (t_session t)"
    and hs: "\<not> is_complete sm m" "is_init sm m" "TcpStream_artifact (c, k) \<noteq> None"
    and first: "TcpStream_read c (replicate (next_read_len sm m) 0) k = Some (Ok (n, buf), k1)"
    and some: "0 < n" "n < next_read_len sm m"
    and blocked: "TcpStream_read c (drop n buf) k1 = Some (Err e, k')" "kind e = WouldBlock"
  shows "(\<exists>t'. NetTransport_handle_io debug lapse cn ss Io_Read (t, k) = Some (Ok None, (t', k')) \<and>
      t_session t' = t_session t \<and> t_state t' = Handshake) \<and>
    tcp_inp c k = take n buf @ tcp_inp c k'"
proof -
  let ?p = "t_session t"
  have len: "length buf = next_read_len sm m" using tcp.rd_len [OF first] by simp
  have tcp_rd: "nread (tcp_session lib al) b (c, w) = map_option (\<lambda>(r, w'). (r, (c, w'))) (TcpStream_read c b w)" for b w
    by (simp add: with_handle_def)
  have "read_exact (nread (tcp_session lib al)) (replicate (next_read_len sm m) 0) (c, k) = Some (Err e, (c, k'))"
    using first some blocked len
    by (simp add: read_exact_def read_exact_from.simps tcp_rd del: tcp_session_sel)
  then have "NetProtocol_read sm (tcp_session lib al) ii b (?p, k) = Some (Err e, (?p, k'))" for b
    using hs t(2,3) by (auto simp: NetProtocol_read_def NetProtocol_init_def on_session_def simp del: tcp_session_sel)
  moreover have "\<not> is_established ss (?p, w)" for w
    using hs(1) t(3) by (simp add: ss established_layer)
  ultimately have "NetTransport_handle_io debug lapse cn ss Io_Read (t, k) =
      Some (Ok None, (t\<lparr>t_session := ?p, t_write_intent := True\<rparr>, k'))"
    using t(1) blocked(2)
    by (simp add: NetTransport_handle_io_def NetTransport_handle_readable_def on_transport_def
        handle_response_def Let_def ss)
  moreover have "tcp_inp c k = take n buf @ tcp_inp c k'"
    using tcp.rd_moves [OF TrueI first] tcp.rd_err [OF TrueI blocked(1)] by simp
  ultimately show ?thesis using t(1) by auto
qed

theorem split_act_is_lost_witness:
  "\<exists>t' k'. NetTransport_handle_io True id demo_cn
      (NetProtocol_session demo_cn demo_machine demo_tcp (\<lambda>_. ())) Io_Read
      (demo_transport Handshake \<lparr>np_state = Expecting, np_session = TcpStream 3\<rparr>,
       demo_net [5, 6] [Grant 1, Refuse EAGAIN]) = Some (Ok None :: (io_error, _) outcome, (t', k')) \<and>
    np_state (t_session t') = Expecting \<and>
    tcp_inp (TcpStream 3) (demo_net [5, 6] [Grant 1, Refuse EAGAIN]) = [5] @ tcp_inp (TcpStream 3) k'"
proof -
  let ?t = "demo_transport Handshake \<lparr>np_state = Expecting, np_session = TcpStream 3\<rparr>"
    and ?k = "demo_net [5, 6] [Grant 1, Refuse EAGAIN]"
  have "yields (TcpStream_read (TcpStream 3) [0, 0] ?k) (\<lambda>(n, buf) k1. n = 1 \<and> buf = [5, 0] \<and>
      raises (TcpStream_read (TcpStream 3) [0] k1) (\<lambda>e _. kind e = WouldBlock))"
    by code_simp
  then obtain k1 e k' where rd: "TcpStream_read (TcpStream 3) [0, 0] ?k = Some (Ok (1, [5, 0]), k1)"
    "TcpStream_read (TcpStream 3) [0] k1 = Some (Err e, k')" "kind e = WouldBlock"
    by (auto elim!: yieldsE raisesE)
  have up: "TcpStream_artifact (TcpStream 3, ?k) \<noteq> None" by code_simp
  have "(\<exists>t'. NetTransport_handle_io True id demo_cn (NetProtocol_session demo_cn demo_machine demo_tcp (\<lambda>_. ())) Io_Read
      (?t, ?k) = Some (Ok None :: (io_error, _) outcome, (t', k')) \<and> t_session t' = t_session ?t \<and> t_state t' = Handshake) \<and>
      tcp_inp (TcpStream 3) ?k = take 1 [5, 0] @ tcp_inp (TcpStream 3) k'"
    by (rule split_act_is_lost [OF refl, where n = 1 and buf = "[5, 0]" and m = Expecting])
      (use rd up in \<open>simp_all add: demo_transport_def numeral_2_eq_2\<close>)
  then show ?thesis by (auto simp: demo_transport_def)
qed

end
