(* ===== verification/Split.thy ===== *)
theory Split
  imports Cypher
begin

text \<open>
  \<^verbatim>\<open>src/split.rs\<close> and the implementation of \<^verbatim>\<open>SplitIo\<close> for protocol layers in
  \<^verbatim>\<open>src/session.rs\<close>: a session is taken apart into a reading and a writing half, each with the
  number drawn for the split, and put together again.  Numbers come from the \<^verbatim>\<open>rand\<close> crate, a
  parameter that draws from the world.  Joining owns both halves, so when it panics, unwinding
  drops them and their descriptors are closed.
\<close>

section \<open>Halves\<close>

record 's SplitIoError =
  original :: 's
  split_error :: io_error

text \<open>The trait, with the destructors of its two associated types.\<close>

record ('s, 'w, 'r, 'v) SplitIo =
  split_io :: "'s \<Rightarrow> ('w, 's SplitIoError, 'r \<times> 'v) prog"
  from_split_io :: "'r \<Rightarrow> 'v \<Rightarrow> ('w, io_error, 's) prog"
  drop_read :: "'r \<Rightarrow> 'w \<Rightarrow> 'w"
  drop_write :: "'v \<Rightarrow> 'w \<Rightarrow> 'w"

record 'c TcpReader =
  tr_unique_id :: u64
  tr_connection :: 'c

record 'c TcpWriter =
  tw_unique_id :: u64
  tw_connection :: 'c

record 'r NetReader =
  nr_unique_id :: u64
  nr_reader :: 'r

record ('m, 'v) NetWriter =
  nw_unique_id :: u64
  nw_state :: 'm
  nw_writer :: 'v

definition TcpReader_read ::
  "('c, 'w, 'addr, 'ka) NetConnection \<Rightarrow> 'c TcpReader \<Rightarrow> bytes \<Rightarrow> ('w, nat \<times> bytes) io"
where
  "TcpReader_read cn r buf = conn_read cn (tr_connection r) buf"

definition TcpWriter_write ::
  "('c, 'w, 'addr, 'ka) NetConnection \<Rightarrow> 'c TcpWriter \<Rightarrow> bytes \<Rightarrow> ('w, nat) io"
where
  "TcpWriter_write cn v buf = conn_write cn (tw_connection v) buf"

definition TcpWriter_flush :: "('c, 'w, 'addr, 'ka) NetConnection \<Rightarrow> 'c TcpWriter \<Rightarrow> ('w, unit) io" where
  "TcpWriter_flush cn v = conn_flush cn (tw_connection v)"

definition NetReader_read ::
  "('r \<Rightarrow> bytes \<Rightarrow> ('w, nat \<times> bytes) io) \<Rightarrow> 'r NetReader \<Rightarrow> bytes \<Rightarrow> ('w, nat \<times> bytes) io"
where
  "NetReader_read rd r buf = rd (nr_reader r) buf"

definition NetWriter_write ::
  "('v \<Rightarrow> bytes \<Rightarrow> ('w, nat) io) \<Rightarrow> ('m, 'v) NetWriter \<Rightarrow> bytes \<Rightarrow> ('w, nat) io"
where
  "NetWriter_write wr v buf = wr (nw_writer v) buf"

definition NetWriter_flush :: "('v \<Rightarrow> ('w, unit) io) \<Rightarrow> ('m, 'v) NetWriter \<Rightarrow> ('w, unit) io" where
  "NetWriter_flush fl v = fl (nw_writer v)"

text \<open>\<^verbatim>\<open>AsConnection\<close> of the four halves.\<close>

definition NetReader_as_connection :: "('r \<Rightarrow> 'c) \<Rightarrow> 'r NetReader \<Rightarrow> 'c" where
  "NetReader_as_connection conn r = conn (nr_reader r)"

definition NetWriter_as_connection :: "('v \<Rightarrow> 'c) \<Rightarrow> ('m, 'v) NetWriter \<Rightarrow> 'c" where
  "NetWriter_as_connection conn v = conn (nw_writer v)"

section \<open>Splitting and joining\<close>

text \<open>
  The code for \<^verbatim>\<open>TcpStream\<close> and for \<^verbatim>\<open>socket2::Socket\<close> is the same, over \<^verbatim>\<open>try_clone\<close> of the
  connection.  Joining returns the connection of the writer; the reader is dropped, which closes
  its clone.  When it panics both halves are dropped, the last argument first.
\<close>

definition TcpReader_drop :: "('c, 'w, 'addr, 'ka) NetConnection \<Rightarrow> 'c TcpReader \<Rightarrow> 'w \<Rightarrow> 'w" where
  "TcpReader_drop cn r = drop_conn cn (tr_connection r)"

definition TcpWriter_drop :: "('c, 'w, 'addr, 'ka) NetConnection \<Rightarrow> 'c TcpWriter \<Rightarrow> 'w \<Rightarrow> 'w" where
  "TcpWriter_drop cn v = drop_conn cn (tw_connection v)"

definition connection_split_io ::
  "('w \<Rightarrow> u64 \<times> 'w) \<Rightarrow> ('c, 'w, 'addr, 'ka) NetConnection \<Rightarrow> 'c \<Rightarrow>
   ('w, 'c SplitIoError, 'c TcpReader \<times> 'c TcpWriter) prog"
where
  "connection_split_io random cn self = match_io (try_clone cn self)
     (\<lambda>clone w. let (unique_id, w) = random w in
        ret (\<lparr>tr_unique_id = unique_id, tr_connection = clone\<rparr>,
          \<lparr>tw_unique_id = unique_id, tw_connection = self\<rparr>) w)
     (\<lambda>error. fail \<lparr>original = self, split_error = error\<rparr>)"

definition connection_from_split_io ::
  "('c, 'w, 'addr, 'ka) NetConnection \<Rightarrow> 'c TcpReader \<Rightarrow> 'c TcpWriter \<Rightarrow> ('w, io_error, 'c) prog"
where
  "connection_from_split_io cn rd wr w =
     (if tr_unique_id rd \<noteq> tw_unique_id wr
      then panic ''joining TcpStreams which were not produced by the same split_io()''
        (TcpReader_drop cn rd (TcpWriter_drop cn wr w))
      else ret (tw_connection wr) (TcpReader_drop cn rd w))"

definition TcpStream_SplitIo ::
  "(kernel \<Rightarrow> u64 \<times> kernel) \<Rightarrow> (TcpStream, kernel, 'addr, 'ka) NetConnection \<Rightarrow>
   (TcpStream, kernel, TcpStream TcpReader, TcpStream TcpWriter) SplitIo"
where
  "TcpStream_SplitIo random cn =
     \<lparr>split_io = connection_split_io random cn, from_split_io = connection_from_split_io cn,
      drop_read = TcpReader_drop cn, drop_write = TcpWriter_drop cn\<rparr>"

definition Socket_SplitIo ::
  "('w \<Rightarrow> u64 \<times> 'w) \<Rightarrow> ('k, 'w, 'addr, 'ka) NetConnection \<Rightarrow> ('k, 'w, 'k TcpReader, 'k TcpWriter) SplitIo"
where
  "Socket_SplitIo random cn =
     \<lparr>split_io = connection_split_io random cn, from_split_io = connection_from_split_io cn,
      drop_read = TcpReader_drop cn, drop_write = TcpWriter_drop cn\<rparr>"

definition NetProtocol_split_io ::
  "('w \<Rightarrow> u64 \<times> 'w) \<Rightarrow> ('s, 'w, 'r, 'v) SplitIo \<Rightarrow> ('m, 's) NetProtocol \<Rightarrow>
   ('w, ('m, 's) NetProtocol SplitIoError, 'r NetReader \<times> ('m, 'v) NetWriter) prog"
where
  "NetProtocol_split_io random sp self w =
     (let (unique_id, w) = random w in
      match_io (split_io sp (np_session self))
        (\<lambda>(reader, writer). ret (\<lparr>nr_unique_id = unique_id, nr_reader = reader\<rparr>,
           \<lparr>nw_unique_id = unique_id, nw_state = np_state self, nw_writer = writer\<rparr>))
        (\<lambda>err. fail \<lparr>original = self\<lparr>np_session := original err\<rparr>, split_error = split_error err\<rparr>) w)"

definition NetProtocol_from_split_io ::
  "('s, 'w, 'r, 'v) SplitIo \<Rightarrow> 'r NetReader \<Rightarrow> ('m, 'v) NetWriter \<Rightarrow> ('w, io_error, ('m, 's) NetProtocol) prog"
where
  "NetProtocol_from_split_io sp rd wr w =
     (if nr_unique_id rd \<noteq> nw_unique_id wr
      then panic ''joining into NetProtocol parts not produced by the same split_io()''
        (drop_read sp (nr_reader rd) (drop_write sp (nw_writer wr) w))
      else bind_io (from_split_io sp (nr_reader rd) (nw_writer wr)) (\<lambda>session.
        ret \<lparr>np_state = nw_state wr, np_session = session\<rparr>) w)"

definition NetProtocol_SplitIo ::
  "('w \<Rightarrow> u64 \<times> 'w) \<Rightarrow> ('s, 'w, 'r, 'v) SplitIo \<Rightarrow>
   (('m, 's) NetProtocol, 'w, 'r NetReader, ('m, 'v) NetWriter) SplitIo"
where
  "NetProtocol_SplitIo random sp =
     \<lparr>split_io = NetProtocol_split_io random sp, from_split_io = NetProtocol_from_split_io sp,
      drop_read = (\<lambda>rd. drop_read sp (nr_reader rd)), drop_write = (\<lambda>wr. drop_write sp (nw_writer wr))\<rparr>"

text \<open>The halves of a \<^verbatim>\<open>CypherSession\<close> (\<^verbatim>\<open>CypherReader\<close> and \<^verbatim>\<open>CypherWriter\<close>).\<close>

type_synonym CypherReader = "TcpStream TcpReader NetReader NetReader NetReader"
type_synonym ('host, 'r, 'n, 'es, 'signer) CypherWriter =
  "(('es, 'signer) EidolonRuntime, ('n, (('host, 'r) Socks5, TcpStream TcpWriter) NetWriter) NetWriter) NetWriter"

definition CypherSession_SplitIo ::
  "(kernel \<Rightarrow> u64 \<times> kernel) \<Rightarrow> (TcpStream, kernel, 'addr, 'ka) NetConnection \<Rightarrow>
   (('host, 'r, 'n, 'es, 'signer) CypherSession, kernel, CypherReader,
    ('host, 'r, 'n, 'es, 'signer) CypherWriter) SplitIo"
where
  "CypherSession_SplitIo random cn = NetProtocol_SplitIo random (NetProtocol_SplitIo random
     (NetProtocol_SplitIo random (TcpStream_SplitIo random cn)))"

section \<open>The contract of SplitIo\<close>

text \<open>
  What a user of \<^verbatim>\<open>SplitIo\<close> relies on: the writing half of a split joins with the reading half of the
  same split to the session that was split, and the reading half is dropped; with any other reading
  half joining panics, and both are dropped; a failed split gives the session back.  Reading halves
  with the numbers of one split are \<open>same\<close>.
\<close>

locale splittable =
  fixes sp :: "('s, 'w, 'r, 'v) SplitIo" and same :: "'r \<Rightarrow> 'r \<Rightarrow> bool"
  assumes same_refl: "same rd rd"
    and join: "split_io sp s w = Some (Ok (rd, wr), w') \<Longrightarrow> same rd' rd \<Longrightarrow>
      from_split_io sp rd' wr x = Some (Ok s, drop_read sp rd' x)"
    and alien: "split_io sp s w = Some (Ok (rd, wr), w') \<Longrightarrow> \<not> same rd' rd \<Longrightarrow>
      \<exists>m. from_split_io sp rd' wr x = Some (Panic m, drop_read sp rd' (drop_write sp wr x))"
    and failed: "split_io sp s w = Some (Err e, w') \<Longrightarrow> original e = s"
begin

lemma layer_split:
  assumes "NetProtocol_split_io random sp p w = Some (Ok (rd, wr), w')"
  obtains w1 where "split_io sp (np_session p) w1 = Some (Ok (nr_reader rd, nw_writer wr), w')"
    "nw_unique_id wr = nr_unique_id rd" "nw_state wr = np_state p"
  using assms by (auto simp: NetProtocol_split_io_def io_simps split: prod.splits)

lemma layer_join:
  assumes "NetProtocol_split_io random sp p w = Some (Ok (rd, wr), w')"
    and "nr_unique_id rd' = nr_unique_id rd" "same (nr_reader rd') (nr_reader rd)"
  shows "NetProtocol_from_split_io sp rd' wr x = Some (Ok p, drop_read sp (nr_reader rd') x)"
  using assms(1)
  by (rule layer_split) (simp add: NetProtocol_from_split_io_def assms(2) join [OF _ assms(3)])

lemma layer_alien:
  assumes "NetProtocol_split_io random sp p w = Some (Ok (rd, wr), w')"
    and "nr_unique_id rd' = nr_unique_id rd \<longrightarrow> \<not> same (nr_reader rd') (nr_reader rd)"
  shows "\<exists>m. NetProtocol_from_split_io sp rd' wr x =
    Some (Panic m, drop_read sp (nr_reader rd') (drop_write sp (nw_writer wr) x))"
  using assms(1)
proof (rule layer_split)
  fix w1
  assume "split_io sp (np_session p) w1 = Some (Ok (nr_reader rd, nw_writer wr), w')"
    and "nw_unique_id wr = nr_unique_id rd"
  with assms(2) alien [of "np_session p" w1 "nr_reader rd" "nw_writer wr" w' "nr_reader rd'" x] show ?thesis
    by (auto simp: NetProtocol_from_split_io_def)
qed

lemma layer_failed:
  assumes "NetProtocol_split_io random sp p w = Some (Err e, w')"
  shows "original e = p"
  using assms
  by (auto simp: NetProtocol_split_io_def io_simps split: prod.splits dest!: failed)

lemma layer_splittable: "splittable (NetProtocol_SplitIo random sp)
    (\<lambda>rd rd'. nr_unique_id rd = nr_unique_id rd' \<and> same (nr_reader rd) (nr_reader rd'))"
  by unfold_locales
    (auto simp: NetProtocol_SplitIo_def layer_failed same_refl intro: layer_join layer_alien)

end

interpretation tcp_split: splittable "TcpStream_SplitIo random cn" "\<lambda>rd rd'. tr_unique_id rd = tr_unique_id rd'"
  for random cn
  by unfold_locales
    (auto simp: TcpStream_SplitIo_def connection_split_io_def connection_from_split_io_def io_simps
      split_beta)

interpretation socket_split: splittable "Socket_SplitIo random cn" "\<lambda>rd rd'. tr_unique_id rd = tr_unique_id rd'"
  for random cn
  by unfold_locales
    (auto simp: Socket_SplitIo_def connection_split_io_def connection_from_split_io_def io_simps
      split_beta)

text \<open>The four numbers of a reading half of a \<^verbatim>\<open>CypherSession\<close>, and its descriptor.\<close>

definition reader_ids :: "CypherReader \<Rightarrow> u64 list" where
  "reader_ids rd = [nr_unique_id rd, nr_unique_id (nr_reader rd), nr_unique_id (nr_reader (nr_reader rd)),
     tr_unique_id (nr_reader (nr_reader (nr_reader rd)))]"

definition reader_fd :: "CypherReader \<Rightarrow> raw_fd" where
  "reader_fd rd = stream_fd (tr_connection (nr_reader (nr_reader (nr_reader rd))))"

interpretation cypher_split: splittable "CypherSession_SplitIo random cn"
  "\<lambda>rd rd'. reader_ids rd = reader_ids rd'" for random cn
  unfolding CypherSession_SplitIo_def reader_ids_def list.inject simp_thms
  by (rule splittable.layer_splittable)+ (rule tcp_split.splittable_axioms)

lemma cypher_drop:
  "k_fds (drop_read (CypherSession_SplitIo random (TcpStream_connection lib al)) rd k) =
     (k_fds k)(reader_fd rd := None)"
  "k_fds (drop_write (CypherSession_SplitIo random (TcpStream_connection lib al)) wr k) =
     (k_fds k)(stream_fd (tw_connection (nw_writer (nw_writer (nw_writer wr)))) := None)"
  by (simp_all add: CypherSession_SplitIo_def NetProtocol_SplitIo_def TcpStream_SplitIo_def
      TcpReader_drop_def TcpWriter_drop_def TcpStream_connection_def k_close_def reader_fd_def)

section \<open>What a split does to the descriptors\<close>

text \<open>Drawing a number opens and closes nothing.\<close>

definition draws_only :: "(kernel \<Rightarrow> u64 \<times> kernel) \<Rightarrow> bool" where
  "draws_only random \<longleftrightarrow> (\<forall>k. k_fds (snd (random k)) = k_fds k \<and> k_next (snd (random k)) = k_next k \<and>
     k_socks (snd (random k)) = k_socks k)"

lemma draws_onlyD:
  assumes "draws_only random" and "random k = (u, k')"
  shows "k_fds k' = k_fds k" "k_next k' = k_next k" "k_socks k' = k_socks k"
  using assms unfolding draws_only_def by (metis snd_conv)+

lemma try_clone_tcp:
  assumes "try_clone (TcpStream_connection lib al) c k = Some (r, k')"
  shows "k_socks k' = k_socks k \<and>
    (case r of
       Ok clone \<Rightarrow> clone = TcpStream (k_next k) \<and>
         (\<exists>i. k_fds k (stream_fd c) = Some i \<and> k_fds k' = (k_fds k)(k_next k \<mapsto> i))
     | Err e \<Rightarrow> k_fds k' = k_fds k
     | Panic m \<Rightarrow> False)"
  using assms
  by (cases r)
    (auto simp: TcpStream_connection_def k_dup_def io_simps Let_def split: option.splits list.splits)

text \<open>A session is split; \<open>k3\<close> is the kernel after the numbers of the layers are drawn.\<close>

lemma cypher_split_cases [consumes 3, case_names Split Failed]:
  assumes split: "split_io (CypherSession_SplitIo random (TcpStream_connection lib al)) s k = Some (r, k')"
    and rand: "draws_only random" and c: "c = np_session (np_session (np_session s))"
  obtains rd wr i where "r = Ok (rd, wr)" "k_fds k (stream_fd c) = Some i"
      "tr_connection (nr_reader (nr_reader (nr_reader rd))) = TcpStream (k_next k)"
      "tw_connection (nw_writer (nw_writer (nw_writer wr))) = c"
      "k_fds k' = (k_fds k)(k_next k \<mapsto> i)" "k_socks k' = k_socks k"
    | e k3 where "r = Err e" "k_fds k' = k_fds k" "k_socks k' = k_socks k"
      "try_clone (TcpStream_connection lib al) c k3 = Some (Err (split_error e), k')"
      "k_fds k3 = k_fds k" "k_socks k3 = k_socks k"
proof -
  note eqs = draws_onlyD [OF rand]
  note unfold = CypherSession_SplitIo_def NetProtocol_SplitIo_def NetProtocol_split_io_def
    TcpStream_SplitIo_def connection_split_io_def match_io_def
  obtain u1 k1 u2 k2 u3 k3 where rs: "random k = (u1, k1)" "random k1 = (u2, k2)" "random k2 = (u3, k3)"
    by (metis surj_pair)
  have fds: "k_fds k3 = k_fds k" "k_next k3 = k_next k" "k_socks k3 = k_socks k"
    using eqs [OF rs(1)] eqs [OF rs(2)] eqs [OF rs(3)] by simp_all
  show ?thesis
  proof (cases "try_clone (TcpStream_connection lib al) c" k3 rule: prog_cases)
    case (Ok clone k4)
    obtain u4 k5 where r4: "random k4 = (u4, k5)" by fastforce
    from Ok split that(1) c rs r4 fds eqs [OF r4] try_clone_tcp [OF Ok] show ?thesis
      by (auto simp: unfold)
  next
    case (Err e k4)
    with split that(2) c rs fds try_clone_tcp [OF Err] show ?thesis
      by (auto simp: unfold)
  next
    case (Panic m k4)
    with try_clone_tcp [OF Panic] show ?thesis by simp
  qed (use split c rs in \<open>auto simp: unfold\<close>)
qed

section \<open>Properties\<close>

text \<open>A generator for concrete runs; it counts the sockets ever opened.\<close>

definition demo_random :: "kernel \<Rightarrow> u64 \<times> kernel" where
  "demo_random k = (of_nat (k_next k), k)"

lemma demo_draws_only: "draws_only demo_random"
  by (simp add: draws_only_def demo_random_def)

text \<open>
  C28: splitting and joining is the identity.  The halves of a split \<^verbatim>\<open>CypherSession\<close> join to the
  session that was split, with the states of its handshakes, and the descriptor table is the one
  before the split: the clone made for the reader is closed.
\<close>

theorem split_join_roundtrip:
  assumes split: "split_io sp s k = Some (Ok (rd, wr), k')"
    and sp: "sp = CypherSession_SplitIo random (TcpStream_connection lib al)"
    and rand: "draws_only random" and fresh: "k_fds k (k_next k) = None"
  shows "\<exists>k''. from_split_io sp rd wr k' = Some (Ok s, k'') \<and> k_fds k'' = k_fds k"
  using split [unfolded sp] rand refl
proof (cases rule: cypher_split_cases)
  case (Split rd' wr' i)
  with fresh have "k_fds (drop_read sp rd k') = k_fds k"
    by (simp add: sp cypher_drop reader_fd_def fun_upd_idem)
  with cypher_split.join [OF split [unfolded sp] refl, of k'] show ?thesis by (simp add: sp)
qed simp

theorem split_join_roundtrip_witness:
  "\<exists>rd wr k' k''. split_io (CypherSession_SplitIo demo_random demo_cn) (demo_cypher False) (demo_net [] []) =
      Some (Ok (rd, wr), k') \<and>
    from_split_io (CypherSession_SplitIo demo_random demo_cn) rd wr k' = Some (Ok (demo_cypher False), k'') \<and>
    k_fds k'' = [3 \<mapsto> 3]"
proof -
  have "yields (split_io (CypherSession_SplitIo demo_random demo_cn) (demo_cypher False) (demo_net [] [])) (\<lambda>_ _. True)"
    by code_simp
  then obtain h k' where "split_io (CypherSession_SplitIo demo_random demo_cn) (demo_cypher False) (demo_net [] []) =
      Some (Ok h, k')"
    by (rule yieldsE)
  then obtain rd wr where run: "split_io (CypherSession_SplitIo demo_random demo_cn) (demo_cypher False) (demo_net [] []) =
      Some (Ok (rd, wr), k')"
    by (cases h) simp
  have "k_fds (demo_net [] []) (k_next (demo_net [] [])) = None" by (simp add: demo_kernel_def)
  from split_join_roundtrip [OF run refl demo_draws_only this] run show ?thesis
    by (auto simp: demo_kernel_def)
qed



text \<open>
  C30: the halves talk to the connection itself.  Whatever the state of the handshakes, reading
  from the reading half reads the clone, writing to the writing half writes the connection, and
  both are the same socket as the unsplit session's: no layer looks at the bytes.
\<close>

theorem split_halves_bypass_layers:
  assumes split: "split_io (CypherSession_SplitIo random cn) s k = Some (Ok (rd, wr), k')"
    and cn: "cn = TcpStream_connection lib al" and rand: "draws_only random"
    and c: "c = np_session (np_session (np_session s))" and fd: "stream_fd c < k_next k"
  shows "\<exists>clone. clone \<noteq> c \<and> k_sock k' (stream_fd clone) = k_sock k (stream_fd c) \<and>
    k_sock k' (stream_fd c) = k_sock k (stream_fd c) \<and>
    NetReader_read (NetReader_read (NetReader_read (TcpReader_read cn))) rd buf k' = TcpStream_read clone buf k' \<and>
    NetWriter_write (NetWriter_write (NetWriter_write (TcpWriter_write cn))) wr buf k' = TcpStream_write c buf k'"
  using split [unfolded cn] rand c
proof (cases rule: cypher_split_cases)
  case (Split rd' wr' i)
  have "TcpStream (k_next k) \<noteq> c" using fd by auto
  with Split fd show ?thesis
    by (intro exI [of _ "TcpStream (k_next k)"])
      (auto simp: cn NetReader_read_def NetWriter_write_def TcpReader_read_def TcpWriter_write_def
        TcpStream_connection_def k_sock_def)
qed simp

theorem split_halves_bypass_layers_witness:
  "\<exists>rd wr k' clone. split_io (CypherSession_SplitIo demo_random demo_cn) (demo_cypher False) (demo_net [1, 2] []) =
      Some (Ok (rd, wr), k') \<and>
    NetReader_read (NetReader_read (NetReader_read (TcpReader_read demo_cn))) rd [0] k' = TcpStream_read clone [0] k'"
proof -
  have "yields (split_io (CypherSession_SplitIo demo_random demo_cn) (demo_cypher False) (demo_net [1, 2] [])) (\<lambda>_ _. True)"
    by code_simp
  then obtain h k' where "split_io (CypherSession_SplitIo demo_random demo_cn) (demo_cypher False) (demo_net [1, 2] []) =
      Some (Ok h, k')"
    by (rule yieldsE)
  then obtain rd wr where run: "split_io (CypherSession_SplitIo demo_random demo_cn) (demo_cypher False) (demo_net [1, 2] []) =
      Some (Ok (rd, wr), k')"
    by (cases h) simp
  have "stream_fd (np_session (np_session (np_session (demo_cypher False)))) < k_next (demo_net [1, 2] [])"
    by code_simp
  from split_halves_bypass_layers [OF run refl demo_draws_only refl this, of "[0]"] run show ?thesis
    by blast
qed

text \<open>
  C31: a writing half joins with the reading half of its own split only.  Take the writing half of a
  split of \<open>s\<close> and any reading half, at any later time.  Joining returns \<open>s\<close>, and closes the reading
  half's descriptor only, if the reading half has the numbers of that split in all three layers and
  in the connection.  Otherwise, whichever of the four checks fails, it panics, and unwinding closes
  the descriptors of both halves, so the connection of \<open>s\<close> is lost.
\<close>

theorem join_demands_same_split:
  assumes split: "split_io sp s k0 = Some (Ok (rd0, wr), k1)"
    and sp: "sp = CypherSession_SplitIo random (TcpStream_connection lib al)" and rand: "draws_only random"
  shows "\<exists>r k'. from_split_io sp rd wr k = Some (r, k') \<and>
    (if reader_ids rd = reader_ids rd0
     then r = Ok s \<and> k_fds k' = (k_fds k)(reader_fd rd := None)
     else (\<exists>m. r = Panic m) \<and> k_fds k' = (k_fds k)
       (stream_fd (np_session (np_session (np_session s))) := None, reader_fd rd := None))"
  using split [unfolded sp] rand refl
proof (cases rule: cypher_split_cases)
  case (Split rd' wr' i)
  show ?thesis
    using cypher_split.join [OF split [unfolded sp], of rd k]
      cypher_split.alien [OF split [unfolded sp], of rd k] Split(1,4)
    by (cases "reader_ids rd = reader_ids rd0") (auto simp: sp cypher_drop)
qed simp

text \<open>Witness of C31: the reading half of a second split is no match, and both descriptors are closed.\<close>

theorem join_demands_same_split_witness:
  "\<exists>rd0 wr k1 rd wr2 k2 m k'.
    split_io (CypherSession_SplitIo demo_random demo_cn) (demo_cypher False) (demo_net [] []) =
      Some (Ok (rd0, wr), k1) \<and>
    split_io (CypherSession_SplitIo demo_random demo_cn) (demo_cypher False) k1 = Some (Ok (rd, wr2), k2) \<and>
    from_split_io (CypherSession_SplitIo demo_random demo_cn) rd wr k2 = Some (Panic m, k') \<and>
    k_fds k' 3 = None \<and> k_fds k' (reader_fd rd) = None"
proof -
  let ?sp = "CypherSession_SplitIo demo_random demo_cn"
  let ?s = "demo_cypher False :: (SocketAddr option, unit, demo_state, demo_state \<times> bytes option, unit) CypherSession"
  have "yields (split_io ?sp ?s (demo_net [] [])) (\<lambda>(rd0, _) k1.
      yields (split_io ?sp ?s k1) (\<lambda>(rd, _) _. reader_ids rd \<noteq> reader_ids rd0))"
    by code_simp
  then obtain rd0 wr k1 rd wr2 k2 where one: "split_io ?sp ?s (demo_net [] []) = Some (Ok (rd0, wr), k1)"
    and two: "split_io ?sp ?s k1 = Some (Ok (rd, wr2), k2)" and alien: "reader_ids rd \<noteq> reader_ids rd0"
    by (auto elim!: yieldsE)
  have fd: "stream_fd (np_session (np_session (np_session ?s))) = 3" by code_simp
  from join_demands_same_split [OF one refl demo_draws_only, of rd k2] alien fd
  obtain m k' where "from_split_io ?sp rd wr k2 = Some (Panic m, k')" "k_fds k' 3 = None"
    "k_fds k' (reader_fd rd) = None"
    by auto
  with one two show ?thesis by blast
qed

end
