(* ===== verification/Listener.thy ===== *)
theory Listener
  imports Transport
begin

text \<open>
  \<^verbatim>\<open>src/listener.rs\<close> and \<^verbatim>\<open>NetAccept\<close> of \<^verbatim>\<open>src/resource.rs\<close>: the trait \<^verbatim>\<open>NetListener\<close>, its
  implementations for \<^verbatim>\<open>TcpListener\<close> and \<^verbatim>\<open>socket2::Socket\<close>, and the listener as a resource of
  the reactor.
\<close>

section \<open>NetListener\<close>

record ('l, 'c, 'w, 'addr) NetListener =
  l_bind :: "'addr \<Rightarrow> ('w, 'l) io"
  l_bind_reusable :: "'addr \<Rightarrow> ('w, 'l) io"
  l_accept :: "'l \<Rightarrow> ('w, 'c) io"
  l_local_addr :: "'l \<Rightarrow> ('w, SocketAddr) io"
  l_ttl :: "'l \<Rightarrow> ('w, u32) io"
  l_set_ttl :: "'l \<Rightarrow> u32 \<Rightarrow> ('w, unit) io"
  l_set_nonblocking :: "'l \<Rightarrow> bool \<Rightarrow> ('w, unit) io"
  l_try_clone :: "'l \<Rightarrow> ('w, 'l) io"
  l_take_error :: "'l \<Rightarrow> ('w, io_error option) io"
  l_as_raw_fd :: "'l \<Rightarrow> raw_fd"
  l_drop :: "'l \<Rightarrow> 'w \<Rightarrow> 'w"

text \<open>\<^verbatim>\<open>Result::expect\<close>\<close>

definition expect :: "string \<Rightarrow> ('x, 'e, 'a) prog \<Rightarrow> ('x, 'f, 'a) prog" where
  "expect msg m = match_io m ret (\<lambda>_. panic msg)"

section \<open>Sockets as listeners\<close>

definition Socket_bind ::
  "('k, 'w, 'ka, 'z) socket2_lib_scheme \<Rightarrow> ('addr, 'w, 'y) addr_lib_scheme \<Rightarrow> 'addr \<Rightarrow> ('w, 'k) io"
where
  "Socket_bind lib al addr =
     bind_io (first_addr al addr InvalidInput) (\<lambda>addr.
     bind_io (s2_new lib addr) (\<lambda>socket.
     bind_drop (s2_drop lib socket) (s2_bind lib socket addr) (\<lambda>_. ret socket)))"

definition Socket_bind_reusable ::
  "('k, 'w, 'ka, 'z) socket2_lib_scheme \<Rightarrow> ('addr, 'w, 'y) addr_lib_scheme \<Rightarrow> 'addr \<Rightarrow> ('w, 'k) io"
where
  "Socket_bind_reusable lib al addr =
     bind_io (first_addr al addr InvalidInput) (\<lambda>addr.
     bind_io (s2_new lib addr) (\<lambda>socket.
     bind_drop (s2_drop lib socket) (s2_set_reuse_address lib socket True) (\<lambda>_.
     bind_drop (s2_drop lib socket) (s2_set_reuse_port lib socket True) (\<lambda>_.
     bind_drop (s2_drop lib socket) (s2_bind lib socket addr) (\<lambda>_. ret socket)))))"

definition Socket_listener_local_addr ::
  "('k, 'w, 'ka, 'z) socket2_lib_scheme \<Rightarrow> 'k \<Rightarrow> ('w, SocketAddr) io"
where
  "Socket_listener_local_addr lib s =
     bind_io (expect ''TCP listener doesn't have local address'' (s2_local_addr lib s)) (\<lambda>a.
       case a of
         Some sa \<Rightarrow> ret sa
       | None \<Rightarrow> panic ''TCP listener doesn't has local socket'')"

definition Socket_listener ::
  "('k, 'w, 'ka, 'z) socket2_lib_scheme \<Rightarrow> ('addr, 'w, 'y) addr_lib_scheme \<Rightarrow> ('k, 'k, 'w, 'addr) NetListener"
where
  "Socket_listener lib al = \<lparr>
     l_bind = Socket_bind lib al,
     l_bind_reusable = Socket_bind_reusable lib al,
     l_accept = (\<lambda>s. bind_io (s2_accept lib s) (\<lambda>(c, _). ret c)),
     l_local_addr = Socket_listener_local_addr lib,
     l_ttl = s2_ttl lib,
     l_set_ttl = s2_set_ttl lib,
     l_set_nonblocking = s2_set_nonblocking lib,
     l_try_clone = s2_try_clone lib,
     l_take_error = s2_take_error lib,
     l_as_raw_fd = s2_as_raw_fd lib,
     l_drop = s2_drop lib \<rparr>"

section \<open>TcpListener\<close>

datatype TcpListener = TcpListener (listener_fd: raw_fd)

text \<open>\<^verbatim>\<open>TcpListener::bind\<close> of \<^verbatim>\<open>std::net\<close> tries the resolved addresses in order.\<close>

fun bind_each :: "SocketAddr list \<Rightarrow> io_error \<Rightarrow> (kernel, TcpListener) io" where
  "bind_each [] last_err = fail last_err"
| "bind_each (a # as) last_err = match_io (k_listen a) (\<lambda>fd. ret (TcpListener fd)) (bind_each as)"

definition TcpListener_bind ::
  "('addr, kernel, 'y) addr_lib_scheme \<Rightarrow> 'addr \<Rightarrow> (kernel, TcpListener) io"
where
  "TcpListener_bind al addr = bind_io (to_socket_addrs al addr) (\<lambda>addrs.
     bind_each addrs (CustomError InvalidInput ''could not resolve to any addresses''))"

definition BACKLOG :: int where "BACKLOG = 128"

definition TcpListener_bind_reusable ::
  "('k, kernel, 'ka, 'z) socket2_lib_scheme \<Rightarrow> ('addr, kernel, 'y) addr_lib_scheme \<Rightarrow> 'addr \<Rightarrow>
   (kernel, TcpListener) io"
where
  "TcpListener_bind_reusable lib al addr =
     bind_io (Socket_bind_reusable lib al addr) (\<lambda>socket.
     bind_drop (s2_drop lib socket) (s2_listen lib socket BACKLOG) (\<lambda>_.
       ret (TcpListener (s2_as_raw_fd lib socket))))"

definition TcpListener_listener ::
  "('k, kernel, 'ka, 'z) socket2_lib_scheme \<Rightarrow> ('addr, kernel, 'y) addr_lib_scheme \<Rightarrow>
   (TcpListener, TcpStream, kernel, 'addr) NetListener"
where
  "TcpListener_listener lib al = \<lparr>
     l_bind = TcpListener_bind al,
     l_bind_reusable = TcpListener_bind_reusable lib al,
     l_accept = (\<lambda>l. bind_io (k_accept (listener_fd l)) (\<lambda>fd. ret (TcpStream fd))),
     l_local_addr = (\<lambda>l. expect ''TCP listener doesn't have local address''
        (k_call (listener_fd l) (sock_require sk_local))),
     l_ttl = (\<lambda>l. k_call (listener_fd l) (sock_get sk_ttl)),
     l_set_ttl = (\<lambda>l n. k_call (listener_fd l) (sock_set (\<lambda>sk. sk\<lparr>sk_ttl := n\<rparr>))),
     l_set_nonblocking = (\<lambda>l b. k_call (listener_fd l) (sock_set (\<lambda>sk. sk\<lparr>sk_nonblocking := b\<rparr>))),
     l_try_clone = (\<lambda>l. bind_io (k_dup (listener_fd l)) (\<lambda>fd. ret (TcpListener fd))),
     l_take_error = (\<lambda>l. k_call (listener_fd l) sock_take_error),
     l_as_raw_fd = listener_fd,
     l_drop = (\<lambda>l. k_close (listener_fd l)) \<rparr>"

section \<open>NetAccept\<close>

datatype 'c ListenerEvent = Accepted 'c | Failure io_error

record 'l NetAccept =
  na_listener :: 'l

definition NetAccept_write :: "bytes \<Rightarrow> ('l NetAccept \<times> 'w, nat) io" where
  "NetAccept_write buf = fail (SimpleError InvalidInput)"

definition NetAccept_flush :: "('l NetAccept \<times> 'w, unit) io" where
  "NetAccept_flush = fail (SimpleError InvalidInput)"

definition NetAccept_is_ready_to_write :: "'l NetAccept \<Rightarrow> bool" where
  "NetAccept_is_ready_to_write a = False"

definition NetAccept_empty_write_buf :: "('l NetAccept \<times> 'w, bool) io" where
  "NetAccept_empty_write_buf = ret True"

definition NetAccept_write_or_buf :: "bytes \<Rightarrow> ('l NetAccept \<times> 'w, unit) io" where
  "NetAccept_write_or_buf buf = fail (SimpleError InvalidInput)"

definition NetAccept_as_raw_fd :: "('l, 'c, 'w, 'addr) NetListener \<Rightarrow> 'l NetAccept \<Rightarrow> raw_fd" where
  "NetAccept_as_raw_fd nl a = l_as_raw_fd nl (na_listener a)"

definition NetAccept_bind ::
  "('l, 'c, 'w, 'addr) NetListener \<Rightarrow> 'addr \<Rightarrow> ('w, 'l NetAccept) io"
where
  "NetAccept_bind nl addr =
     bind_io (l_bind nl addr) (\<lambda>listener.
     bind_drop (l_drop nl listener) (l_set_nonblocking nl listener True) (\<lambda>_.
       ret \<lparr>na_listener = listener\<rparr>))"

definition NetAccept_bind_reusable ::
  "('l, 'c, 'w, 'addr) NetListener \<Rightarrow> 'addr \<Rightarrow> ('w, 'l NetAccept) io"
where
  "NetAccept_bind_reusable nl addr =
     bind_io (l_bind_reusable nl addr) (\<lambda>listener.
     bind_drop (l_drop nl listener) (l_set_nonblocking nl listener True) (\<lambda>_.
       ret \<lparr>na_listener = listener\<rparr>))"

definition NetAccept_local_addr ::
  "('l, 'c, 'w, 'addr) NetListener \<Rightarrow> 'l NetAccept \<Rightarrow> ('w, SocketAddr) io"
where
  "NetAccept_local_addr nl a = l_local_addr nl (na_listener a)"

definition NetAccept_handle_accept ::
  "('l, 'c, 'w, 'addr) NetListener \<Rightarrow> ('c, 'w, 'addr2, 'ka) NetConnection \<Rightarrow> 'l NetAccept \<Rightarrow> ('w, 'c) io"
where
  "NetAccept_handle_accept nl cn a =
     bind_io (l_accept nl (na_listener a)) (\<lambda>connection.
     bind_drop (drop_conn cn connection) (set_read_timeout cn connection (Some READ_TIMEOUT)) (\<lambda>_.
     bind_drop (drop_conn cn connection) (set_write_timeout cn connection (Some WRITE_TIMEOUT)) (\<lambda>_.
     bind_drop (drop_conn cn connection) (set_nonblocking cn connection True) (\<lambda>_.
       ret connection))))"

definition NetAccept_interests :: "'l NetAccept \<Rightarrow> IoType" where
  "NetAccept_interests a = read_only"

definition NetAccept_handle_io ::
  "('l, 'c, 'w, 'addr) NetListener \<Rightarrow> ('c, 'w, 'addr2, 'ka) NetConnection \<Rightarrow> Io \<Rightarrow> 'l NetAccept \<Rightarrow>
   ('w, 'e, 'c ListenerEvent option) prog"
where
  "NetAccept_handle_io nl cn io a = (case io of
      Io_Read \<Rightarrow> match_io (NetAccept_handle_accept nl cn a)
        (\<lambda>session. ret (Some (Accepted session)))
        (\<lambda>err. ret (Some (Failure err)))
    | Io_Write \<Rightarrow> ret None)"

section \<open>Facts\<close>

lemma k_accept_Some:
  assumes "k_accept fd k = Some (r, k')"
  shows "case r of
      Ok c \<Rightarrow> c = k_next k \<and> k_fds k' = (k_fds k)(c \<mapsto> c) \<and> k_sock k' c \<noteq> None
    | Err e \<Rightarrow> k_fds k' = k_fds k
    | Panic m \<Rightarrow> False"
  using assms
  by (auto simp: k_accept_def k_open_def k_sock_def split: list.splits sum.splits option.splits if_splits)

text \<open>
  Setting an option of a connection that is open, on the way to returning it: the option is set, or
  the system refuses and the connection is dropped.
\<close>

lemma option_then [consumes 2, case_names Set Refused]:
  assumes run: "bind_drop d (k_call fd (sock_set f)) g k = Some z" and sk: "k_sock k fd = Some sk"
  obtains k1 fs where "g () k1 = Some z" "k_sock k1 fd = Some (f (sk\<lparr>sk_faults := fs\<rparr>))" "k_fds k1 = k_fds k"
    | k1 e where "z = (Err e, d k1)" "k_fds k1 = k_fds k"
proof -
  have same: "sk_faults sk = [] \<Longrightarrow> sk\<lparr>sk_faults := []\<rparr> = sk" by (cases sk) simp
  have fds: "k_fds (k_update fd h k) = k_fds k" for h
    by (simp add: k_update_def split: option.splits)
  obtain r sk' where set: "sock_set f sk = Some (r, sk')"
    using sock_set_returns by fastforce
  with sk have call: "k_call fd (sock_set f) k = Some (r, k_update fd (\<lambda>_. sk') k)"
    by (simp add: k_call_def)
  from set [unfolded sock_set_Some] show ?thesis
  proof (elim disjE exE conjE)
    assume "sk_faults sk = []" "r = Ok ()" "sk' = f sk"
    with same have "sk' = f (sk\<lparr>sk_faults := []\<rparr>)" by metis
    with run call sk fds \<open>r = Ok ()\<close> show ?thesis
      by (intro that(1) [of "k_update fd (\<lambda>_. sk') k" "[]"]) auto
  next
    fix fs
    assume "r = Ok ()" "sk' = f (sk\<lparr>sk_faults := fs\<rparr>)"
    with run call sk fds show ?thesis
      by (intro that(1) [of "k_update fd (\<lambda>_. sk') k" fs]) auto
  next
    fix e fs
    assume "r = Err e"
    with run call fds show ?thesis by (intro that(2) [of e "k_update fd (\<lambda>_. sk') k"]) auto
  qed
qed

lemma bind_drop_returns:
  assumes "m x \<noteq> None" and "\<And>a y. f a y \<noteq> None"
  shows "bind_drop d m f x \<noteq> None"
  by (cases m x rule: prog_cases) (use assms in auto)

lemma setter_returns: "k_call fd (sock_set f) k \<noteq> None"
  using sock_set_returns by (auto simp: k_call_def split: option.splits)

lemma handle_accept_returns:
  assumes "k_accept (listener_fd (na_listener a)) k \<noteq> None"
  shows "NetAccept_handle_accept (TcpListener_listener lib al) (TcpStream_connection lib al) a k \<noteq> None"
proof (cases "k_accept (listener_fd (na_listener a))" k rule: prog_cases)
  case (Ok fd k1)
  have "NetAccept_handle_accept (TcpListener_listener lib al) (TcpStream_connection lib al) a k =
      bind_drop (k_close fd) (k_call fd (sock_set (\<lambda>sk. sk\<lparr>sk_read_timeout := Some 6\<rparr>))) (\<lambda>_.
      bind_drop (k_close fd) (k_call fd (sock_set (\<lambda>sk. sk\<lparr>sk_write_timeout := Some 3\<rparr>))) (\<lambda>_.
      bind_drop (k_close fd) (k_call fd (sock_set (\<lambda>sk. sk\<lparr>sk_nonblocking := True\<rparr>))) (\<lambda>_.
        ret (TcpStream fd)))) k1"
    using Ok by (simp add: NetAccept_handle_accept_def TcpListener_listener_def TcpStream_connection_def
        sock_set_timeout_def READ_TIMEOUT_def WRITE_TIMEOUT_def)
  also have "\<dots> \<noteq> None"
    by (intro bind_drop_returns setter_returns) simp
  finally show ?thesis .
qed (use assms in \<open>auto simp: NetAccept_handle_accept_def TcpListener_listener_def\<close>)

lemma bind_each_Ok:
  assumes "bind_each addrs e k = Some (Ok l, k')"
  shows "\<exists>a \<in> set addrs. k_bind k a = None \<and> l = TcpListener (k_next k) \<and>
    k_fds k' = (k_fds k)(k_next k \<mapsto> k_next k) \<and>
    (\<exists>sk. k_sock k' (listener_fd l) = Some sk \<and> sk_local sk = Some a)"
  using assms
proof (induction addrs arbitrary: e)
  case (Cons a as)
  then show ?case
    by (cases "k_bind k a") (auto simp: k_listen_def k_open_def k_sock_def)
qed simp

section \<open>Properties\<close>

text \<open>
  C32: an accepted connection is ready for the reactor.  Accepting reports exactly one event: the
  new connection, in non-blocking mode with its read timeout of six and its write timeout of three
  seconds and as the only new descriptor, or the error, of accepting or of any of the three options,
  with the descriptor table as before.  (A descriptor is not handed out while it is in use.)
\<close>

theorem accepted_connection_is_ready:
  assumes run: "NetAccept_handle_io (TcpListener_listener lib al) (TcpStream_connection lib al) Io_Read a k = Some (r, k')"
  shows "\<exists>ev. r = Ok (Some ev) \<and> (case ev of
      Accepted c \<Rightarrow> stream_fd c = k_next k \<and> k_fds k' = (k_fds k)(k_next k \<mapsto> k_next k) \<and>
        (\<exists>sk. k_sock k' (stream_fd c) = Some sk \<and> sk_nonblocking sk \<and> sk_read_timeout sk = Some 6 \<and>
          sk_write_timeout sk = Some 3)
    | Failure e \<Rightarrow> k_fds k (k_next k) = None \<longrightarrow> k_fds k' = k_fds k)"
proof -
  let ?m = "NetAccept_handle_accept (TcpListener_listener lib al) (TcpStream_connection lib al) a"
  have accepted: "case z of
      (Ok c, k') \<Rightarrow> stream_fd c = k_next k \<and> k_fds k' = (k_fds k)(k_next k \<mapsto> k_next k) \<and>
        (\<exists>sk. k_sock k' (stream_fd c) = Some sk \<and> sk_nonblocking sk \<and> sk_read_timeout sk = Some 6 \<and>
          sk_write_timeout sk = Some 3)
    | (Err e, k') \<Rightarrow> k_fds k (k_next k) = None \<longrightarrow> k_fds k' = k_fds k
    | (Panic m, k') \<Rightarrow> False" if z: "?m k = Some z" for z
  proof (cases "k_accept (listener_fd (na_listener a))" k rule: prog_cases)
    case (Ok fd k1)
    from k_accept_Some [OF Ok] obtain sk where fd: "fd = k_next k" "k_fds k1 = (k_fds k)(fd \<mapsto> fd)" "k_sock k1 fd = Some sk"
      by auto
    with z Ok show ?thesis
      by (auto simp: NetAccept_handle_accept_def TcpListener_listener_def TcpStream_connection_def
          sock_set_timeout_def READ_TIMEOUT_def WRITE_TIMEOUT_def k_close_def fun_upd_idem
          elim!: option_then)
  qed (use z in \<open>auto simp: NetAccept_handle_accept_def TcpListener_listener_def dest: k_accept_Some\<close>)
  show ?thesis
    using run accepted
    by (cases ?m k rule: prog_cases) (fastforce simp: NetAccept_handle_io_def)+
qed

text \<open>A listener on descriptor 3 with one connection in its backlog.\<close>

definition demo_backlog :: "(io_error + socket) list \<Rightarrow> kernel" where
  "demo_backlog cs = (demo_net [] [])\<lparr>k_backlog := (\<lambda>_. cs)\<rparr>"

theorem accepted_connection_is_ready_witness:
  "\<exists>r k'. NetAccept_handle_io (TcpListener_listener demo_socket2 demo_addr_lib) demo_cn Io_Read
      \<lparr>na_listener = TcpListener 3\<rparr> (demo_backlog [Inr demo_socket]) = Some (r :: (unit, _) outcome, k') \<and>
    (\<exists>ev. r = Ok (Some ev))"
proof -
  obtain r k' where run: "NetAccept_handle_io (TcpListener_listener demo_socket2 demo_addr_lib) demo_cn Io_Read
      \<lparr>na_listener = TcpListener 3\<rparr> (demo_backlog [Inr demo_socket]) = Some (r :: (unit, _) outcome, k')"
  proof -
    have "yields (NetAccept_handle_io (TcpListener_listener demo_socket2 demo_addr_lib) demo_cn Io_Read
        \<lparr>na_listener = TcpListener 3\<rparr> (demo_backlog [Inr demo_socket]) :: ((unit, _) outcome \<times> _) option) (\<lambda>_ _. True)"
      by code_simp
    then show ?thesis using that by (rule yieldsE)
  qed
  with accepted_connection_is_ready [OF run] show ?thesis by blast
qed

text \<open>
  C33: a failed accept leaks no connection.  For every listener and connection type whose
  \<^verbatim>\<open>accept\<close> opens one handle, whose option setters open and close none and whose destructor closes
  its handle, \<^verbatim>\<open>handle_accept\<close> either returns the one new handle or leaves the open handles as they
  were, whichever of its four calls fails.
\<close>

theorem handle_accept_no_leak:
  assumes accept: "\<And>l w r w'. l_accept nl l w = Some (r, w') \<Longrightarrow> acquires opens (opens w) (r, w')"
    and options: "\<And>c d. keeps opens (set_read_timeout cn c d)" "\<And>c d. keeps opens (set_write_timeout cn c d)"
      "\<And>c b. keeps opens (set_nonblocking cn c b)"
    and closes: "\<And>c w. opens (drop_conn cn c w) = opens w - {c}"
    and run: "NetAccept_handle_accept nl cn a w = Some z"
  shows "acquires opens (opens w) z"
proof (cases "l_accept nl (na_listener a)" w rule: prog_cases)
  case (Ok c w1)
  from accept [OF Ok] have c: "c \<notin> opens w" "opens w1 = insert c (opens w)" by (auto simp: acquires_def)
  note step = owns_setter [OF _ closes]
  from run Ok have "bind_drop (drop_conn cn c) (set_read_timeout cn c (Some READ_TIMEOUT)) (\<lambda>_.
     bind_drop (drop_conn cn c) (set_write_timeout cn c (Some WRITE_TIMEOUT)) (\<lambda>_.
     bind_drop (drop_conn cn c) (set_nonblocking cn c True) (\<lambda>_. ret c))) w1 = Some z"
    by (simp add: NetAccept_handle_accept_def)
  then have "owns opens (opens w) c z"
    by (rule step [OF _ options(1) c(2,1)], elim step [OF _ options(2) _ c(1)] step [OF _ options(3) _ c(1)])
      (auto simp: owns_def)
  with c show ?thesis by (auto simp: owns_def acquires_def split: prod.splits outcome.splits)
next
  case (Err e w1)
  with run accept [OF Err] show ?thesis by (simp add: NetAccept_handle_accept_def acquires_def)
qed (use run in \<open>auto simp: NetAccept_handle_accept_def acquires_def\<close>)

definition demo_streams :: "kernel \<Rightarrow> TcpStream set" where
  "demo_streams k = TcpStream ` demo_opens k"

lemma demo_streams_laws:
  "l_accept (TcpListener_listener demo_socket2 demo_addr_lib) l k = Some (r, k') \<Longrightarrow>
     acquires demo_streams (demo_streams k) (r, k')"
  "keeps demo_streams (k_call fd op)"
  "demo_streams (k_close (stream_fd c) k) = demo_streams k - {c}"
  by (auto simp: TcpListener_listener_def io_simps k_accept_def k_open_def acquires_def demo_streams_def
      demo_opens_def keeps_def k_call_Some k_update_def k_close_def image_iff
      split: list.splits sum.splits option.splits if_splits outcome.splits)

text \<open>
  Witness of C33: the connection is accepted, its read timeout is set, and the system refuses the
  write timeout.
\<close>

definition demo_stubborn :: socket where
  "demo_stubborn = demo_socket\<lparr>sk_faults := [None, Some EPIPE]\<rparr>"

theorem handle_accept_no_leak_witness:
  "\<exists>e k'. NetAccept_handle_accept (TcpListener_listener demo_socket2 demo_addr_lib) demo_cn
      \<lparr>na_listener = TcpListener 3\<rparr> (demo_backlog [Inr demo_stubborn]) = Some (Err e, k') \<and>
    demo_streams k' = demo_streams (demo_backlog [Inr demo_stubborn])"
proof -
  have "raises (NetAccept_handle_accept (TcpListener_listener demo_socket2 demo_addr_lib) demo_cn
      \<lparr>na_listener = TcpListener 3\<rparr> (demo_backlog [Inr demo_stubborn])) (\<lambda>_ _. True)"
    by code_simp
  then obtain e k' where run: "NetAccept_handle_accept (TcpListener_listener demo_socket2 demo_addr_lib) demo_cn
      \<lparr>na_listener = TcpListener 3\<rparr> (demo_backlog [Inr demo_stubborn]) = Some (Err e, k')"
    by (rule raisesE)
  have "acquires demo_streams (demo_streams (demo_backlog [Inr demo_stubborn])) (Err e :: (io_error, TcpStream) outcome, k')"
    by (rule handle_accept_no_leak [OF _ _ _ _ _ run])
      (simp_all add: demo_streams_laws, simp_all add: TcpStream_connection_def demo_streams_laws)
  then show ?thesis using run by (auto simp: acquires_def)
qed

text \<open>
  C34: a bound listener does not block the reactor.  After \<^verbatim>\<open>NetAccept::bind\<close> the listener is a new
  socket on one of the resolved addresses in non-blocking mode, so handling a notification returns
  even when no connection is waiting.
\<close>

theorem bound_listener_does_not_block:
  assumes run: "NetAccept_bind (TcpListener_listener lib al) addr k = Some (Ok a, k')"
  shows "(\<exists>sk. k_sock k' (listener_fd (na_listener a)) = Some sk \<and> sk_nonblocking sk \<and>
      (\<exists>addrs k0 sa. to_socket_addrs al addr k = Some (Ok addrs, k0) \<and> sa \<in> set addrs \<and> sk_local sk = Some sa)) \<and>
    NetAccept_handle_io (TcpListener_listener lib al) (TcpStream_connection lib al) io a k' \<noteq> None"
proof -
  from run obtain addrs k0 l k1 where res: "to_socket_addrs al addr k = Some (Ok addrs, k0)"
    and b: "bind_each addrs (CustomError InvalidInput ''could not resolve to any addresses'') k0 = Some (Ok l, k1)"
    and rest: "bind_drop (k_close (listener_fd l)) (k_call (listener_fd l) (sock_set (\<lambda>sk. sk\<lparr>sk_nonblocking := True\<rparr>)))
      (\<lambda>_. ret \<lparr>na_listener = l\<rparr>) k1 = Some (Ok a, k')"
    by (auto simp: NetAccept_bind_def TcpListener_listener_def TcpListener_bind_def io_simps)
  from bind_each_Ok [OF b] obtain sa sk where sk: "sa \<in> set addrs" "k_sock k1 (listener_fd l) = Some sk" "sk_local sk = Some sa"
    by blast
  obtain fs where sk': "a = \<lparr>na_listener = l\<rparr>"
    "k_sock k' (listener_fd l) = Some (sk\<lparr>sk_faults := fs, sk_nonblocking := True\<rparr>)"
    using rest sk(2)
  proof (cases rule: option_then)
    case (Set k2 fs)
    with that [of fs] show ?thesis by simp
  qed simp
  have accepts: "k_accept (listener_fd l) k' \<noteq> None"
    using sk'(2) by (auto simp: k_accept_def k_open_def split: list.splits sum.splits)
  have "NetAccept_handle_io (TcpListener_listener lib al) (TcpStream_connection lib al) io a k' \<noteq> None"
    using handle_accept_returns [of a k' lib al] accepts sk'(1)
    by (cases io; cases "NetAccept_handle_accept (TcpListener_listener lib al) (TcpStream_connection lib al) a" k'
        rule: prog_cases) (auto simp: NetAccept_handle_io_def)
  with sk sk' res show ?thesis by auto
qed

theorem bound_listener_does_not_block_witness:
  "\<exists>a k'. NetAccept_bind (TcpListener_listener demo_socket2 demo_addr_lib) (Some demo_addr) (demo_net [] []) =
      Some (Ok a, k') \<and>
    NetAccept_handle_io (TcpListener_listener demo_socket2 demo_addr_lib) demo_cn Io_Read a k' \<noteq>
      (None :: ((unit, _) outcome \<times> _) option)"
proof -
  have "yields (NetAccept_bind (TcpListener_listener demo_socket2 demo_addr_lib) (Some demo_addr) (demo_net [] [])) (\<lambda>_ _. True)"
    by code_simp
  then obtain a k' where run: "NetAccept_bind (TcpListener_listener demo_socket2 demo_addr_lib) (Some demo_addr) (demo_net [] []) =
      Some (Ok a, k')"
    by (rule yieldsE)
  from bound_listener_does_not_block [OF run] run show ?thesis by blast
qed

text \<open>
  C35: binding a reusable socket leaks nothing.  Whichever of resolution, creation, the two options
  and \<^verbatim>\<open>bind\<close> fails, an error leaves exactly the handles that were open before.
\<close>

theorem bind_reusable_no_leak:
  assumes tracks: "tracks_handles lib al opens"
    and run: "Socket_bind_reusable lib al addr w = Some z"
  shows "acquires opens (opens w) z"
  using run unfolding Socket_bind_reusable_def
proof (rule acquires_after_addr [OF first_addr_keeps [OF tracks_handlesD(4) [OF tracks]]])
  note step = owns_bind_drop [OF tracks]
  fix a w z
  assume "bind_io (s2_new lib a) (\<lambda>socket.
     bind_drop (s2_drop lib socket) (s2_set_reuse_address lib socket True) (\<lambda>_.
     bind_drop (s2_drop lib socket) (s2_set_reuse_port lib socket True) (\<lambda>_.
     bind_drop (s2_drop lib socket) (s2_bind lib socket a) (\<lambda>_. ret socket)))) w = Some z"
  then show "acquires opens (opens w) z"
  proof (rule owns_fresh [OF tracks])
    fix k w' z
    assume run: "bind_drop (s2_drop lib k) (s2_set_reuse_address lib k True) (\<lambda>_.
       bind_drop (s2_drop lib k) (s2_set_reuse_port lib k True) (\<lambda>_.
       bind_drop (s2_drop lib k) (s2_bind lib k a) (\<lambda>_. ret k))) w' = Some z"
      and H: "opens w' = insert k (opens w)" "k \<notin> opens w"
    show "owns opens (opens w) k z"
      by (rule step [OF run tracks_handlesD(8) [OF tracks] H],
          elim step [OF _ tracks_handlesD(9) [OF tracks] _ H(2)] step [OF _ tracks_handlesD(6) [OF tracks] _ H(2)])
        (auto simp: owns_def)
  qed
qed

text \<open>Witness of C35: the socket is created and its options are set, and its address is in use.\<close>

theorem bind_reusable_no_leak_witness:
  "\<exists>e k'. Socket_bind_reusable demo_socket2 demo_addr_lib (Some demo_addr)
      ((demo_net [] [])\<lparr>k_bind := (\<lambda>_. Some (OsError 98 AddrInUse))\<rparr>) = Some (Err e, k') \<and>
    kind e = AddrInUse \<and> demo_opens k' = demo_opens (demo_net [] [])"
proof -
  let ?k = "(demo_net [] [])\<lparr>k_bind := (\<lambda>_. Some (OsError 98 AddrInUse))\<rparr>"
  have "raises (Socket_bind_reusable demo_socket2 demo_addr_lib (Some demo_addr) ?k) (\<lambda>e _. kind e = AddrInUse)"
    by code_simp
  then obtain e k' where run: "Socket_bind_reusable demo_socket2 demo_addr_lib (Some demo_addr) ?k = Some (Err e, k')"
    and e: "kind e = AddrInUse"
    by (rule raisesE)
  from bind_reusable_no_leak [OF demo_tracks_handles run] run e show ?thesis
    by (auto simp: acquires_def demo_opens_def demo_kernel_def)
qed

end
