(* ===== verification/Tunnel.thy ===== *)
theory Tunnel
  imports Listener
begin

text \<open>
  \<^verbatim>\<open>src/tunnel.rs\<close>: a tunnel accepts one local connection and relays bytes between it and a
  session until one side is done.  The poller is a parameter, a record of the functions of the
  reactor crate's \<^verbatim>\<open>Poll\<close> the code calls; it may wait, but it moves no bytes.
\<close>

section \<open>The poller\<close>

text \<open>
  An event of the poller is a readiness (the two fields of \<^verbatim>\<open>IoType\<close> the code looks at) or a
  failure, for the resource with the given id.
\<close>

datatype IoFail = Connectivity int | Os int

record IoReady =
  ev_read :: bool
  ev_write :: bool

record ('p, 'id, 'w) Poll =
  poll_register :: "raw_fd \<Rightarrow> IoType \<Rightarrow> 'p \<Rightarrow> 'id \<times> 'p"
  poll_poll :: "duration option \<Rightarrow> ('p \<times> 'w, nat) io"
  poll_next :: "'p \<Rightarrow> ('id \<times> (IoFail + IoReady)) option \<times> 'p"
  poll_set_interest :: "'id \<Rightarrow> IoType \<Rightarrow> 'p \<Rightarrow> 'p"

section \<open>State\<close>

record 's Tunnel =
  tn_listener :: TcpListener
  tn_session :: 's

text \<open>The local variables of \<^verbatim>\<open>tunnel_once\<close>; \<open>relay_buf\<close> is the array \<^verbatim>\<open>buf\<close>.\<close>

record ('s, 'p) relay =
  relay_session :: 's
  relay_poller :: 'p
  in_buf :: bytes
  out_buf :: bytes
  in_count :: usize
  out_count :: usize
  relay_buf :: bytes

text \<open>
  How the loop is left: with the two counters, or with an error.  Both are early returns, so they
  travel as the error of the steps inside the loop.
\<close>

datatype relay_exit = Finished usize usize | Failed io_error

fun leave :: "relay_exit \<Rightarrow> (io_error, usize \<times> usize) outcome" where
  "leave (Finished received sent) = Ok (received, sent)"
| "leave (Failed err) = Err err"

section \<open>Constructor and queries\<close>

definition Tunnel_with ::
  "('addr, kernel, 'y) addr_lib_scheme \<Rightarrow> 's \<Rightarrow> 'addr \<Rightarrow> (kernel, 's \<times> io_error, 's Tunnel) prog"
where
  "Tunnel_with al session addr = match_io (TcpListener_bind al addr)
     (\<lambda>listener. ret \<lparr>tn_listener = listener, tn_session = session\<rparr>)
     (\<lambda>err. fail (session, err))"

definition Tunnel_local_addr :: "'s Tunnel \<Rightarrow> (kernel, SocketAddr) io" where
  "Tunnel_local_addr tun = k_call (listener_fd (tn_listener tun)) (sock_require sk_local)"

text \<open>\<^verbatim>\<open>into_session\<close> drops the listener.\<close>

definition Tunnel_into_session :: "'s Tunnel \<Rightarrow> kernel \<Rightarrow> 's \<times> kernel" where
  "Tunnel_into_session tun k = (tn_session tun, k_close (listener_fd (tn_listener tun)) k)"

section \<open>Steps of the loop\<close>

definition on_kernel :: "(kernel, 'e, 'a) prog \<Rightarrow> (('s, 'p) relay \<times> kernel, 'e, 'a) prog" where
  "on_kernel = zoom snd (\<lambda>k' (r, k). (r, k'))"

definition on_relay_session ::
  "('s \<times> kernel, 'e, 'a) prog \<Rightarrow> (('s, 'p) relay \<times> kernel, 'e, 'a) prog"
where
  "on_relay_session = zoom (\<lambda>(r, k). (relay_session r, k)) (\<lambda>(s, k') (r, k). (r\<lparr>relay_session := s\<rparr>, k'))"

definition update_relay ::
  "(('s, 'p) relay \<Rightarrow> ('s, 'p) relay) \<Rightarrow> (('s, 'p) relay \<times> kernel, 'e, unit) prog"
where
  "update_relay f = (\<lambda>(r, k). Some (Ok (), (f r, k)))"

definition try_io :: "('x, 'a) io \<Rightarrow> ('x, relay_exit, 'a) prog" where
  "try_io m = match_io m ret (\<lambda>err. fail (Failed err))"

text \<open>The macro \<^verbatim>\<open>handle!\<close>: a count of zero ends the tunnel.\<close>

definition handle_call ::
  "(('s, 'p) relay \<times> kernel, nat) io \<Rightarrow> (nat \<Rightarrow> (('s, 'p) relay \<times> kernel, relay_exit, unit) prog) \<Rightarrow>
   (('s, 'p) relay \<times> kernel, relay_exit, unit) prog"
where
  "handle_call call body = match_io call
     (\<lambda>n (r, k). if n = 0 then fail (Finished (in_count r) (out_count r)) (r, k) else body n (r, k))
     (\<lambda>err. fail (Failed err))"

text \<open>\<^verbatim>\<open>count += n\<close> on a \<^verbatim>\<open>usize\<close>: it wraps, or panics in a build with overflow checks.\<close>

definition usize_add :: "bool \<Rightarrow> usize \<Rightarrow> nat \<Rightarrow> usize option" where
  "usize_add checked a n = (if checked \<and> 2 ^ 64 \<le> unat a + n then None else Some (a + of_nat n))"

definition add_in_count :: "bool \<Rightarrow> nat \<Rightarrow> (('s, 'p) relay \<times> kernel, 'e, unit) prog" where
  "add_in_count checked n = (\<lambda>(r, k). case usize_add checked (in_count r) n of
      Some c \<Rightarrow> ret () (r\<lparr>in_count := c\<rparr>, k)
    | None \<Rightarrow> panic ''attempt to add with overflow'' (r, k))"

definition add_out_count :: "bool \<Rightarrow> nat \<Rightarrow> (('s, 'p) relay \<times> kernel, 'e, unit) prog" where
  "add_out_count checked n = (\<lambda>(r, k). case usize_add checked (out_count r) n of
      Some c \<Rightarrow> ret () (r\<lparr>out_count := c\<rparr>, k)
    | None \<Rightarrow> panic ''attempt to add with overflow'' (r, k))"

definition drain_in_buf :: "nat \<Rightarrow> (('s, 'p) relay \<times> kernel, 'e, unit) prog" where
  "drain_in_buf n = (\<lambda>(r, k).
     if length (in_buf r) < n then panic ''range end index out of range'' (r, k)
     else ret () (r\<lparr>in_buf := drop n (in_buf r)\<rparr>, k))"

definition drain_out_buf :: "nat \<Rightarrow> (('s, 'p) relay \<times> kernel, 'e, unit) prog" where
  "drain_out_buf n = (\<lambda>(r, k).
     if length (out_buf r) < n then panic ''range end index out of range'' (r, k)
     else ret () (r\<lparr>out_buf := drop n (out_buf r)\<rparr>, k))"

text \<open>Reading into the array keeps the bytes there and returns the count.\<close>

definition read_into :: 
  "(bytes \<Rightarrow> (('s, 'p) relay \<times> kernel, nat \<times> bytes) io) \<Rightarrow> (('s, 'p) relay \<times> kernel, nat) io"
where
  "read_into rd = (\<lambda>(r, k). bind_io (rd (relay_buf r)) (\<lambda>(n, buf).
     bind_io (update_relay (\<lambda>r. r\<lparr>relay_buf := buf\<rparr>)) (\<lambda>_. ret n)) (r, k))"

text \<open>The local side is writable: send it what the remote side sent.\<close>

definition relay_int_write ::
  "bool \<Rightarrow> ('p, 'id, kernel) Poll \<Rightarrow> 'id \<Rightarrow> TcpStream \<Rightarrow> (('s, 'p) relay \<times> kernel, relay_exit, unit) prog"
where
  "relay_int_write checked pl int_id stream = (\<lambda>(r, k).
     handle_call (on_kernel (TcpStream_write stream (in_buf r))) (\<lambda>written.
       bind_io (try_io (on_kernel (ret ()))) (\<lambda>_.
       bind_io (drain_in_buf written) (\<lambda>_.
       bind_io (add_in_count checked written) (\<lambda>_.
       update_relay (\<lambda>r. if in_buf r = []
         then r\<lparr>relay_poller := poll_set_interest pl int_id read_only (relay_poller r)\<rparr> else r))))) (r, k))"

definition relay_int_read ::
  "('p, 'id, kernel) Poll \<Rightarrow> 'id \<Rightarrow> TcpStream \<Rightarrow> (('s, 'p) relay \<times> kernel, relay_exit, unit) prog"
where
  "relay_int_read pl ext_id stream =
     handle_call (read_into (\<lambda>buf. on_kernel (TcpStream_read stream buf))) (\<lambda>read (r, k).
       if length (relay_buf r) < read then panic ''range end index out of range'' (r, k)
       else update_relay (\<lambda>r. r\<lparr>out_buf := out_buf r @ take read (relay_buf r),
         relay_poller := poll_set_interest pl ext_id read_write (relay_poller r)\<rparr>) (r, k))"

definition relay_ext_write ::
  "bool \<Rightarrow> ('p, 'id, kernel) Poll \<Rightarrow> ('s, kernel, 'c, 'art) NetSession \<Rightarrow> 'id \<Rightarrow>
   (('s, 'p) relay \<times> kernel, relay_exit, unit) prog"
where
  "relay_ext_write checked pl ss ext_id = (\<lambda>(r, k).
     handle_call (on_relay_session (nwrite ss (out_buf r))) (\<lambda>written.
       bind_io (try_io (on_relay_session (nflush ss))) (\<lambda>_.
       bind_io (drain_out_buf written) (\<lambda>_.
       bind_io (add_out_count checked written) (\<lambda>_.
       update_relay (\<lambda>r. if out_buf r = []
         then r\<lparr>relay_poller := poll_set_interest pl ext_id read_only (relay_poller r)\<rparr> else r))))) (r, k))"

definition relay_ext_read ::
  "('p, 'id, kernel) Poll \<Rightarrow> ('s, kernel, 'c, 'art) NetSession \<Rightarrow> 'id \<Rightarrow>
   (('s, 'p) relay \<times> kernel, relay_exit, unit) prog"
where
  "relay_ext_read pl ss int_id =
     handle_call (read_into (\<lambda>buf. on_relay_session (nread ss buf))) (\<lambda>read (r, k).
       if length (relay_buf r) < read then panic ''range end index out of range'' (r, k)
       else update_relay (\<lambda>r. r\<lparr>in_buf := in_buf r @ take read (relay_buf r),
         relay_poller := poll_set_interest pl int_id read_write (relay_poller r)\<rparr>) (r, k))"

definition relay_event ::
  "bool \<Rightarrow> ('p, 'id, kernel) Poll \<Rightarrow> ('s, kernel, 'c, 'art) NetSession \<Rightarrow> TcpStream \<Rightarrow> 'id \<Rightarrow> 'id \<Rightarrow> 'id \<Rightarrow>
   IoFail + IoReady \<Rightarrow> (('s, 'p) relay \<times> kernel, relay_exit, unit) prog"
where
  "relay_event checked pl ss stream int_id ext_id ident res = (case res of
      Inl (Connectivity code) \<Rightarrow> (\<lambda>(r, k). fail (Finished (in_count r) (out_count r)) (r, k))
    | Inl (Os code) \<Rightarrow> fail (Failed (SimpleError BrokenPipe))
    | Inr ev \<Rightarrow>
        (if ident = int_id then
           bind_io (if ev_write ev then relay_int_write checked pl int_id stream else ret ()) (\<lambda>_.
             if ev_read ev then relay_int_read pl ext_id stream else ret ())
         else if ident = ext_id then
           bind_io (if ev_write ev then relay_ext_write checked pl ss ext_id else ret ()) (\<lambda>_.
             if ev_read ev then relay_ext_read pl ss int_id else ret ())
         else ret ()))"

section \<open>The loops\<close>

text \<open>\<open>relay_drain\<close> is the loop over the events of one poll, \<open>relay_loop\<close> the loop over polls.\<close>

partial_function (option) relay_drain ::
  "bool \<Rightarrow> ('p, 'id, kernel) Poll \<Rightarrow> ('s, kernel, 'c, 'art) NetSession \<Rightarrow> TcpStream \<Rightarrow> 'id \<Rightarrow> 'id \<Rightarrow>
   (('s, 'p) relay \<times> kernel) \<Rightarrow> ((relay_exit, unit) outcome \<times> ('s, 'p) relay \<times> kernel) option"
where
  "relay_drain checked pl ss stream int_id ext_id x = (case poll_next pl (relay_poller (fst x)) of
      (None, p) \<Rightarrow> Some (Ok (), ((fst x)\<lparr>relay_poller := p\<rparr>, snd x))
    | (Some (ident, res), p) \<Rightarrow>
        Option.bind (relay_event checked pl ss stream int_id ext_id ident res ((fst x)\<lparr>relay_poller := p\<rparr>, snd x))
          (\<lambda>(r, y). case r of
             Ok _ \<Rightarrow> relay_drain checked pl ss stream int_id ext_id y
           | Err e \<Rightarrow> Some (Err e, y)
           | Panic msg \<Rightarrow> Some (Panic msg, y)))"

definition on_poller :: "('p \<times> kernel, 'e, 'a) prog \<Rightarrow> (('s, 'p) relay \<times> kernel, 'e, 'a) prog" where
  "on_poller = zoom (\<lambda>(r, k). (relay_poller r, k)) (\<lambda>(p, k') (r, k). (r\<lparr>relay_poller := p\<rparr>, k'))"

partial_function (option) relay_loop ::
  "bool \<Rightarrow> ('p, 'id, kernel) Poll \<Rightarrow> ('s, kernel, 'c, 'art) NetSession \<Rightarrow> TcpStream \<Rightarrow> 'id \<Rightarrow> 'id \<Rightarrow> duration \<Rightarrow>
   (('s, 'p) relay \<times> kernel) \<Rightarrow> ((io_error, usize \<times> usize) outcome \<times> ('s, 'p) relay \<times> kernel) option"
where
  "relay_loop checked pl ss stream int_id ext_id timeout x =
     Option.bind (on_poller (poll_poll pl (Some timeout)) x) (\<lambda>(r, y). case r of
         Err e \<Rightarrow> Some (Err e, y)
       | Panic msg \<Rightarrow> Some (Panic msg, y)
       | Ok count \<Rightarrow>
           (if count = 0 then Some (Err (SimpleError TimedOut), y)
            else Option.bind (relay_drain checked pl ss stream int_id ext_id y) (\<lambda>(r, z). case r of
                Ok _ \<Rightarrow> relay_loop checked pl ss stream int_id ext_id timeout z
              | Err ex \<Rightarrow> Some (leave ex, z)
              | Panic msg \<Rightarrow> Some (Panic msg, z))))"

declare relay_drain.simps [code] relay_loop.simps [code]

section \<open>tunnel_once\<close>

text \<open>
  The calls between accepting the local connection and the loop: both connections get the options
  the loop relies on.
\<close>

definition prepare_tunnel ::
  "(TcpStream, kernel, 'addr, 'ka) NetConnection \<Rightarrow> ('c, kernel, 'addr2, 'ka2) NetConnection \<Rightarrow> TcpStream \<Rightarrow>
   'c \<Rightarrow> duration \<Rightarrow> (kernel, unit) io"
where
  "prepare_tunnel tcp cn stream conn timeout =
     bind_io (set_nonblocking tcp stream True) (\<lambda>_.
     bind_io (set_read_timeout tcp stream (Some timeout)) (\<lambda>_.
     bind_io (set_write_timeout tcp stream (Some timeout)) (\<lambda>_.
     bind_io (set_nonblocking cn conn True) (\<lambda>_.
     bind_io (set_read_timeout cn conn (Some timeout)) (\<lambda>_.
     set_write_timeout cn conn (Some timeout))))))"

text \<open>The relay of an accepted connection; registering the two descriptors comes first.\<close>

definition run_relay ::
  "bool \<Rightarrow> ('p, 'id, kernel) Poll \<Rightarrow> ('s, kernel, 'c, 'art) NetSession \<Rightarrow> ('c, kernel, 'addr2, 'ka2) NetConnection \<Rightarrow>
   TcpStream \<Rightarrow> 's \<Rightarrow> 'p \<Rightarrow> duration \<Rightarrow> kernel \<Rightarrow>
   ((io_error, usize \<times> usize) outcome \<times> ('s, 'p) relay \<times> kernel) option"
where
  "run_relay checked pl ss cn stream session poller timeout k =
     (let int_fd = stream_fd stream;
          ext_fd = as_raw_fd cn (as_connection ss session);
          (int_id, poller) = poll_register pl int_fd read_only poller;
          (ext_id, poller) = poll_register pl ext_fd read_only poller in
      relay_loop checked pl ss stream int_id ext_id timeout
        (\<lparr>relay_session = session, relay_poller = poller, in_buf = [], out_buf = [], in_count = 0,
          out_count = 0, relay_buf = replicate READ_BUFFER_SIZE 0\<rparr>, k))"

text \<open>The accepted connection is a local variable: every way out of the function closes it.\<close>

definition Tunnel_tunnel_once ::
  "bool \<Rightarrow> (TcpStream, kernel, 'addr, 'ka) NetConnection \<Rightarrow> ('p, 'id, kernel) Poll \<Rightarrow>
   ('s, kernel, 'c, 'art) NetSession \<Rightarrow> ('c, kernel, 'addr2, 'ka2) NetConnection \<Rightarrow> 'p \<Rightarrow> duration \<Rightarrow>
   ('s Tunnel \<times> kernel, usize \<times> usize) io"
where
  "Tunnel_tunnel_once checked tcp pl ss cn poller timeout = (\<lambda>(tun, k).
     bind_io (zoom snd (\<lambda>k' (tun, k). (tun, k'))
         (expect ''listener always has local addr'' (Tunnel_local_addr tun))) (\<lambda>_.
     bind_io (zoom snd (\<lambda>k' (tun, k). (tun, k')) (k_accept (listener_fd (tn_listener tun)))) (\<lambda>fd (tun, k).
       let stream = TcpStream fd in
       (case prepare_tunnel tcp cn stream (as_connection ss (tn_session tun)) timeout k of
          None \<Rightarrow> None
        | Some (Err e, k) \<Rightarrow> Some (Err e, (tun, k_close fd k))
        | Some (Panic msg, k) \<Rightarrow> Some (Panic msg, (tun, k_close fd k))
        | Some (Ok _, k) \<Rightarrow>
            map_option (\<lambda>(r, (rl, k)). (r, (tun\<lparr>tn_session := relay_session rl\<rparr>, k_close fd k)))
              (run_relay checked pl ss cn stream (tn_session tun) poller timeout k)))) (tun, k))"

end
