(* ===== verification/Tunnel_Laws.thy ===== *)
theory Tunnel_Laws
  imports Tunnel
begin

text \<open>
  Laws of the tunnel: an abstract specification of a relay, two channels that copy bytes, and the
  proof that the loops of \<open>Tunnel\<close> implement it over every session that keeps the stream
  contract and shares no bytes with the local connection.
\<close>

section \<open>Specification of a channel\<close>

record channel =
  source :: bytes
  buffered :: bytes
  delivered :: bytes

inductive copy_step :: "channel \<Rightarrow> channel \<Rightarrow> bool" where
  take: "source c = xs @ src \<Longrightarrow> copy_step c (c\<lparr>source := src, buffered := buffered c @ xs\<rparr>)"
| give: "buffered c = ys @ buf \<Longrightarrow> copy_step c (c\<lparr>buffered := buf, delivered := delivered c @ ys\<rparr>)"

inductive_cases copy_stepE: "copy_step c d"

text \<open>What the specification promises: nothing is lost, duplicated or reordered.\<close>

lemma copy_conserves:
  "copy_step\<^sup>*\<^sup>* c d \<Longrightarrow> delivered d @ buffered d @ source d = delivered c @ buffered c @ source c"
  by (induction rule: rtranclp_induct) (auto elim!: copy_stepE)

lemma copy_extends: "copy_step\<^sup>*\<^sup>* c d \<Longrightarrow> \<exists>ys. delivered d = delivered c @ ys"
  by (induction rule: rtranclp_induct) (auto elim!: copy_stepE)

section \<open>Runs of the loops\<close>

text \<open>
  A relation between the start, the outcome and the end of a step that holds of every event and
  composes holds of whole runs.
\<close>

lemma relay_drain_run:
  assumes run: "relay_drain checked pl ss stream int_id ext_id x = Some z"
    and nxt: "\<And>rl k ev p. poll_next pl (relay_poller rl) = (ev, p) \<Longrightarrow> Q (rl, k) (Ok ()) (rl\<lparr>relay_poller := p\<rparr>, k)"
    and event: "\<And>ident res x r y. relay_event checked pl ss stream int_id ext_id ident res x = Some (r, y) \<Longrightarrow> Q x r y"
    and trans: "\<And>x y r z. Q x (Ok ()) y \<Longrightarrow> Q y r z \<Longrightarrow> Q x r z"
  shows "Q x (fst z) (snd z)"
proof (rule relay_drain.raw_induct [where xa = "((((((checked, pl), ss), stream), int_id), ext_id), x)" and
    P = "\<lambda>c p s st i e x z. (c, p, s, st, i, e) = (checked, pl, ss, stream, int_id, ext_id) \<longrightarrow>
      Q x (fst z) (snd z)", unfolded prod.case, OF _ run, THEN mp, OF _ refl])
  fix loop c p s st i e x z
  assume IH: "\<And>c p s st i e x z. loop c p s st i e x = Some z \<Longrightarrow>
      (c, p, s, st, i, e) = (checked, pl, ss, stream, int_id, ext_id) \<longrightarrow> Q x (fst z) (snd z)"
    and body: "(case poll_next p (relay_poller (fst x)) of
      (None, q) \<Rightarrow> Some (Ok (), ((fst x)\<lparr>relay_poller := q\<rparr>, snd x))
    | (Some (ident, res), q) \<Rightarrow>
        Option.bind (relay_event c p s st i e ident res ((fst x)\<lparr>relay_poller := q\<rparr>, snd x))
          (\<lambda>(r, y). case r of
             Ok _ \<Rightarrow> loop c p s st i e y
           | Err e \<Rightarrow> Some (Err e, y)
           | Panic msg \<Rightarrow> Some (Panic msg, y))) = Some z"
  show "(c, p, s, st, i, e) = (checked, pl, ss, stream, int_id, ext_id) \<longrightarrow> Q x (fst z) (snd z)"
  proof
    assume same: "(c, p, s, st, i, e) = (checked, pl, ss, stream, int_id, ext_id)"
    obtain rl k where x: "x = (rl, k)" by (cases x)
    obtain ev q where n: "poll_next pl (relay_poller rl) = (ev, q)" by fastforce
    note first = nxt [OF n, of k]
    show "Q x (fst z) (snd z)"
    proof (cases ev)
      case None
      with body n same x first show ?thesis by auto
    next
      case (Some a)
      obtain ident res where a: "a = (ident, res)" by (cases a)
      let ?ev = "relay_event checked pl ss stream int_id ext_id ident res"
      show ?thesis
        using body n same x Some a trans [OF first event, of ident res] trans [OF _ IH [THEN mp]]
        by (cases ?ev "(rl\<lparr>relay_poller := q\<rparr>, k)" rule: prog_cases) auto
    qed
  qed
qed

text \<open>How the outcome of the outer loop comes from the outcome of its last step.\<close>

definition ends_with :: "(relay_exit, unit) outcome \<Rightarrow> (io_error, usize \<times> usize) outcome \<Rightarrow> bool" where
  "ends_with r0 r \<longleftrightarrow> (case r of
      Ok (i, j) \<Rightarrow> r0 = Err (Finished i j)
    | Err e \<Rightarrow> (\<forall>m. r0 \<noteq> Panic m)
    | Panic m \<Rightarrow> r0 = Panic m)"

lemma ends_with_leave: "ends_with (Err ex) (leave ex)"
  by (cases ex) (simp_all add: ends_with_def)

lemma on_poller_Some:
  "on_poller m (rl, k) = Some (r, y) \<longleftrightarrow>
     (\<exists>p k'. m (relay_poller rl, k) = Some (r, (p, k')) \<and> y = (rl\<lparr>relay_poller := p\<rparr>, k'))"
  by (auto simp: on_poller_def io_simps)

lemma relay_loop_run:
  assumes run: "relay_loop checked pl ss stream int_id ext_id timeout x = Some z"
    and poll: "\<And>rl k r p k'. poll_poll pl (Some timeout) (relay_poller rl, k) = Some (r, (p, k')) \<Longrightarrow>
      Q (rl, k) (Ok ()) (rl\<lparr>relay_poller := p\<rparr>, k') \<and> (\<forall>m. r \<noteq> Panic m)"
    and nxt: "\<And>rl k ev p. poll_next pl (relay_poller rl) = (ev, p) \<Longrightarrow> Q (rl, k) (Ok ()) (rl\<lparr>relay_poller := p\<rparr>, k)"
    and event: "\<And>ident res x r y. relay_event checked pl ss stream int_id ext_id ident res x = Some (r, y) \<Longrightarrow> Q x r y"
    and trans: "\<And>x y r z. Q x (Ok ()) y \<Longrightarrow> Q y r z \<Longrightarrow> Q x r z"
  shows "\<exists>r0. Q x r0 (snd z) \<and> ends_with r0 (fst z)"
proof (rule relay_loop.raw_induct [where xa = "(((((((checked, pl), ss), stream), int_id), ext_id), timeout), x)" and
    P = "\<lambda>c p s st i e d x z. (c, p, s, st, i, e, d) = (checked, pl, ss, stream, int_id, ext_id, timeout) \<longrightarrow>
      (\<exists>r0. Q x r0 (snd z) \<and> ends_with r0 (fst z))", unfolded prod.case, OF _ run, THEN mp, OF _ refl])
  fix loop c p s st i e d x z
  assume IH: "\<And>c p s st i e d x z. loop c p s st i e d x = Some z \<Longrightarrow>
      (c, p, s, st, i, e, d) = (checked, pl, ss, stream, int_id, ext_id, timeout) \<longrightarrow>
      (\<exists>r0. Q x r0 (snd z) \<and> ends_with r0 (fst z))"
    and body: "Option.bind (on_poller (poll_poll p (Some d)) x) (\<lambda>(r, y). case r of
         Err e \<Rightarrow> Some (Err e, y)
       | Panic msg \<Rightarrow> Some (Panic msg, y)
       | Ok count \<Rightarrow>
           (if count = 0 then Some (Err (SimpleError TimedOut), y)
            else Option.bind (relay_drain c p s st i e y) (\<lambda>(r, z). case r of
                Ok _ \<Rightarrow> loop c p s st i e d z
              | Err ex \<Rightarrow> Some (leave ex, z)
              | Panic msg \<Rightarrow> Some (Panic msg, z)))) = Some z"
  show "(c, p, s, st, i, e, d) = (checked, pl, ss, stream, int_id, ext_id, timeout) \<longrightarrow>
      (\<exists>r0. Q x r0 (snd z) \<and> ends_with r0 (fst z))"
  proof
    assume same: "(c, p, s, st, i, e, d) = (checked, pl, ss, stream, int_id, ext_id, timeout)"
    obtain rl k where x: "x = (rl, k)" by (cases x)
    obtain r y where po: "on_poller (poll_poll pl (Some timeout)) (rl, k) = Some (r, y)"
      using body same x by (cases "on_poller (poll_poll pl (Some timeout)) (rl, k)") auto
    then obtain q k' where pq: "poll_poll pl (Some timeout) (relay_poller rl, k) = Some (r, (q, k'))"
      and y: "y = (rl\<lparr>relay_poller := q\<rparr>, k')" by (auto simp: on_poller_Some)
    from poll [OF pq] y x have Qy: "Q x (Ok ()) y" and calm: "\<And>m. r \<noteq> Panic m" by auto
    show "\<exists>r0. Q x r0 (snd z) \<and> ends_with r0 (fst z)"
    proof (cases "\<exists>n. r = Ok n \<and> n \<noteq> 0")
      case False
      with body same x po calm have "snd z = y" "\<exists>e. fst z = Err e"
        by (auto split: outcome.splits if_splits)
      with Qy show ?thesis by (auto simp: ends_with_def intro!: exI [of _ "Ok ()"])
    next
      case True
      then obtain n where n: "r = Ok n" "n \<noteq> 0" by blast
      let ?m = "relay_drain checked pl ss stream int_id ext_id"
      have drain: "Q x r1 y1" if "?m y = Some (r1, y1)" for r1 y1
        using trans [OF Qy relay_drain_run [where Q = Q, OF that nxt event trans]] by simp
      show ?thesis
      proof (cases ?m y rule: prog_cases)
        case (Ok u y1)
        from body same x po n Ok have "loop c p s st i e d y1 = Some z" by simp
        with IH same obtain r0 where "Q y1 r0 (snd z)" "ends_with r0 (fst z)" by blast
        with trans [OF drain [OF Ok [unfolded unit_eq [of u]]]] show ?thesis by blast
      next
        case (Err ex y1)
        with body same x po n have "z = (leave ex, y1)" by simp
        with drain [OF Err] show ?thesis by (auto intro: ends_with_leave)
      next
        case (Panic m y1)
        with body same x po n have "z = (Panic m, y1)" by simp
        with drain [OF Panic] show ?thesis by (auto simp: ends_with_def)
      qed (use body same x po n in simp)
    qed
  qed
qed

lemma relay_event_run:
  assumes run: "relay_event checked pl ss stream int_id ext_id ident res x = Some (r, y)"
    and int_write: "\<And>rl k r y. relay_int_write checked pl int_id stream (rl, k) = Some (r, y) \<Longrightarrow> Q (rl, k) r y"
    and int_read: "\<And>rl k r y. relay_int_read pl ext_id stream (rl, k) = Some (r, y) \<Longrightarrow> Q (rl, k) r y"
    and ext_write: "\<And>rl k r y. relay_ext_write checked pl ss ext_id (rl, k) = Some (r, y) \<Longrightarrow> Q (rl, k) r y"
    and ext_read: "\<And>rl k r y. relay_ext_read pl ss int_id (rl, k) = Some (r, y) \<Longrightarrow> Q (rl, k) r y"
    and idle: "\<And>rl k. Q (rl, k) (Ok ()) (rl, k)"
    and stop: "\<And>rl k. Q (rl, k) (Err (Finished (in_count rl) (out_count rl))) (rl, k)"
    and broken: "\<And>rl k e. Q (rl, k) (Err (Failed e)) (rl, k)"
    and trans: "\<And>x y r z. Q x (Ok ()) y \<Longrightarrow> Q y r z \<Longrightarrow> Q x r z"
  shows "Q x r y"
proof -
  obtain rl k where x: "x = (rl, k)" by (cases x)
  have seq: "Q x r y" if "bind_io m (\<lambda>_. f) x = Some (r, y)" and m: "\<And>x r y. m x = Some (r, y) \<Longrightarrow> Q x r y"
    and f: "\<And>x r y. f x = Some (r, y) \<Longrightarrow> Q x r y" for m f
    using that(1) m [of x] f trans by (cases m x rule: prog_cases) auto
  have opt: "Q x r y" if "(if b then m else ret ()) x = Some (r, y)"
    and "\<And>rl k r y. m (rl, k) = Some (r, y) \<Longrightarrow> Q (rl, k) r y" for b m x r y
    using that idle by (cases x) (auto split: if_splits)
  show ?thesis
  proof (cases res)
    case (Inl e)
    with run x show ?thesis
      by (cases e) (auto simp: relay_event_def intro: stop broken)
  next
    case (Inr ev)
    consider "ident = int_id" | "ident \<noteq> int_id" "ident = ext_id" | "ident \<noteq> int_id" "ident \<noteq> ext_id" by blast
    then show ?thesis
    proof cases
      case 1
      with run Inr show ?thesis
        by (intro seq [OF _ opt [OF _ int_write] opt [OF _ int_read]]) (simp_all add: relay_event_def)
    next
      case 2
      with run Inr show ?thesis
        by (intro seq [OF _ opt [OF _ ext_write] opt [OF _ ext_read]]) (simp_all add: relay_event_def)
    qed (use run Inr x idle [of rl k] in \<open>auto simp: relay_event_def\<close>)
  qed
qed

text \<open>The three rules in one: what every handler keeps, the whole run keeps.\<close>

lemma relay_run:
  assumes run: "relay_loop checked pl ss stream int_id ext_id timeout x = Some z"
    and int_write: "\<And>rl k r y. relay_int_write checked pl int_id stream (rl, k) = Some (r, y) \<Longrightarrow> Q (rl, k) r y"
    and int_read: "\<And>rl k r y. relay_int_read pl ext_id stream (rl, k) = Some (r, y) \<Longrightarrow> Q (rl, k) r y"
    and ext_write: "\<And>rl k r y. relay_ext_write checked pl ss ext_id (rl, k) = Some (r, y) \<Longrightarrow> Q (rl, k) r y"
    and ext_read: "\<And>rl k r y. relay_ext_read pl ss int_id (rl, k) = Some (r, y) \<Longrightarrow> Q (rl, k) r y"
    and idle: "\<And>rl k. Q (rl, k) (Ok ()) (rl, k)"
    and stop: "\<And>rl k. Q (rl, k) (Err (Finished (in_count rl) (out_count rl))) (rl, k)"
    and broken: "\<And>rl k e. Q (rl, k) (Err (Failed e)) (rl, k)"
    and nxt: "\<And>rl k ev p. poll_next pl (relay_poller rl) = (ev, p) \<Longrightarrow> Q (rl, k) (Ok ()) (rl\<lparr>relay_poller := p\<rparr>, k)"
    and poll: "\<And>rl k r p k'. poll_poll pl (Some timeout) (relay_poller rl, k) = Some (r, (p, k')) \<Longrightarrow>
      Q (rl, k) (Ok ()) (rl\<lparr>relay_poller := p\<rparr>, k') \<and> (\<forall>m. r \<noteq> Panic m)"
    and trans: "\<And>x y r z. Q x (Ok ()) y \<Longrightarrow> Q y r z \<Longrightarrow> Q x r z"
  shows "\<exists>r0. Q x r0 (snd z) \<and> ends_with r0 (fst z)"
proof (rule relay_loop_run [where Q = Q, OF run poll nxt _ trans])
  fix ident res x r y
  assume "relay_event checked pl ss stream int_id ext_id ident res x = Some (r, y)"
  then show "Q x r y"
    by (rule relay_event_run [where Q = Q, OF _ int_write int_read ext_write ext_read idle stop broken trans])
qed

section \<open>What each handler does\<close>

lemma on_kernel_apply [simp]:
  "m k = None \<Longrightarrow> on_kernel m (rl, k) = None"
  "m k = Some (r, k') \<Longrightarrow> on_kernel m (rl, k) = Some (r, (rl, k'))"
  by (simp_all add: on_kernel_def)

lemma on_relay_session_apply [simp]:
  "m (relay_session rl, k) = None \<Longrightarrow> on_relay_session m (rl, k) = None"
  "m (relay_session rl, k) = Some (r, (s, k')) \<Longrightarrow> on_relay_session m (rl, k) = Some (r, (rl\<lparr>relay_session := s\<rparr>, k'))"
  by (simp_all add: on_relay_session_def)

lemma update_relay_apply [simp]: "update_relay f (rl, k) = Some (Ok (), (f rl, k))"
  by (simp add: update_relay_def)

lemma try_io_ok [simp]: "m x = Some (Ok a, y) \<Longrightarrow> try_io m x = Some (Ok a, y)"
  by (simp add: try_io_def)

lemma handle_call_apply [simp]:
  "call x = None \<Longrightarrow> handle_call call body x = None"
  "call x = Some (Ok n, y) \<Longrightarrow> handle_call call body x =
     (if n = 0 then Some (Err (Finished (in_count (fst y)) (out_count (fst y))), y) else body n y)"
  "call x = Some (Err e, y) \<Longrightarrow> handle_call call body x = Some (Err (Failed e), y)"
  "call x = Some (Panic m, y) \<Longrightarrow> handle_call call body x = Some (Panic m, y)"
  by (simp_all add: handle_call_def split_beta)

lemma read_into_apply [simp]:
  "rd (relay_buf rl) (rl, k) = None \<Longrightarrow> read_into rd (rl, k) = None"
  "rd (relay_buf rl) (rl, k) = Some (Ok (n, buf), (rl', k')) \<Longrightarrow> read_into rd (rl, k) = Some (Ok n, (rl'\<lparr>relay_buf := buf\<rparr>, k'))"
  "rd (relay_buf rl) (rl, k) = Some (Err e, y) \<Longrightarrow> read_into rd (rl, k) = Some (Err e, y)"
  "rd (relay_buf rl) (rl, k) = Some (Panic m, y) \<Longrightarrow> read_into rd (rl, k) = Some (Panic m, y)"
  by (simp_all add: read_into_def)

lemma drain_buf_apply [simp]:
  "n \<le> length (in_buf rl) \<Longrightarrow> drain_in_buf n (rl, k) = Some (Ok (), (rl\<lparr>in_buf := drop n (in_buf rl)\<rparr>, k))"
  "n \<le> length (out_buf rl) \<Longrightarrow> drain_out_buf n (rl, k) = Some (Ok (), (rl\<lparr>out_buf := drop n (out_buf rl)\<rparr>, k))"
  by (simp_all add: drain_in_buf_def drain_out_buf_def)

lemma add_count_apply [simp]:
  "usize_add checked (in_count rl) n = None \<Longrightarrow>
     add_in_count checked n (rl, k) = Some (Panic ''attempt to add with overflow'', (rl, k))"
  "usize_add checked (in_count rl) n = Some c \<Longrightarrow> add_in_count checked n (rl, k) = Some (Ok (), (rl\<lparr>in_count := c\<rparr>, k))"
  "usize_add checked (out_count rl) n = None \<Longrightarrow>
     add_out_count checked n (rl, k) = Some (Panic ''attempt to add with overflow'', (rl, k))"
  "usize_add checked (out_count rl) n = Some c \<Longrightarrow> add_out_count checked n (rl, k) = Some (Ok (), (rl\<lparr>out_count := c\<rparr>, k))"
  by (simp_all add: add_in_count_def add_out_count_def)

text \<open>The interest after a write: in writability only while something is left.\<close>

definition settle :: "('p, 'id, 'w) Poll \<Rightarrow> 'id \<Rightarrow> bytes \<Rightarrow> 'p \<Rightarrow> 'p" where
  "settle pl ident left p = (if left = [] then poll_set_interest pl ident read_only p else p)"

text \<open>Writing: a zero count and an error stop the relay; otherwise the buffer shrinks and the counter grows.\<close>

lemma relay_int_write_cases:
  "relay_int_write checked pl int_id stream (rl, k) = map_option (\<lambda>(res, k'). case res of
      Err e \<Rightarrow> (Err (Failed e), (rl, k'))
    | Panic m \<Rightarrow> (Panic m, (rl, k'))
    | Ok n \<Rightarrow>
        if n = 0 then (Err (Finished (in_count rl) (out_count rl)), (rl, k'))
        else case usize_add checked (in_count rl) n of
          None \<Rightarrow> (Panic ''attempt to add with overflow'', (rl\<lparr>in_buf := drop n (in_buf rl)\<rparr>, k'))
        | Some c \<Rightarrow> (Ok (), (rl\<lparr>in_buf := drop n (in_buf rl), in_count := c,
            relay_poller := settle pl int_id (drop n (in_buf rl)) (relay_poller rl)\<rparr>, k')))
     (TcpStream_write stream (in_buf rl) k)"
proof (cases "TcpStream_write stream (in_buf rl)" k rule: prog_cases)
  case (Ok n k')
  with tcp.wr_len [OF Ok] show ?thesis
    by (cases "usize_add checked (in_count rl) n") (simp_all add: relay_int_write_def settle_def)
qed (simp_all add: relay_int_write_def)

text \<open>Reading: the bytes go to the end of the buffer and the other side waits for writability.\<close>

lemma relay_int_read_cases:
  "relay_int_read pl ext_id stream (rl, k) = map_option (\<lambda>(res, k'). case res of
      Err e \<Rightarrow> (Err (Failed e), (rl, k'))
    | Panic m \<Rightarrow> (Panic m, (rl, k'))
    | Ok (n, buf) \<Rightarrow>
        if n = 0 then (Err (Finished (in_count rl) (out_count rl)), (rl\<lparr>relay_buf := buf\<rparr>, k'))
        else (Ok (), (rl\<lparr>relay_buf := buf, out_buf := out_buf rl @ take n buf,
            relay_poller := poll_set_interest pl ext_id read_write (relay_poller rl)\<rparr>, k')))
     (TcpStream_read stream (relay_buf rl) k)"
proof (cases "TcpStream_read stream (relay_buf rl)" k rule: prog_cases)
  case (Ok a k')
  obtain n buf where "a = (n, buf)" by (cases a)
  with Ok tcp.rd_len [of stream "relay_buf rl" k n buf k'] show ?thesis
    by (simp add: relay_int_read_def)
qed (simp_all add: relay_int_read_def)

section \<open>The relay implements the channels\<close>

text \<open>
  Received bytes go from the session to the local connection, sent bytes the other way; the
  buffers of the loop are the buffers of the channels.
\<close>

definition chan_in ::
  "('s \<times> kernel \<Rightarrow> bytes) \<Rightarrow> TcpStream \<Rightarrow> ('s, 'p) relay \<times> kernel \<Rightarrow> channel"
where
  "chan_in inp stream = (\<lambda>(rl, k). \<lparr>source = inp (relay_session rl, k), buffered = in_buf rl,
     delivered = tcp_out stream k\<rparr>)"

definition chan_out ::
  "('s \<times> kernel \<Rightarrow> bytes) \<Rightarrow> TcpStream \<Rightarrow> ('s, 'p) relay \<times> kernel \<Rightarrow> channel"
where
  "chan_out out stream = (\<lambda>(rl, k). \<lparr>source = tcp_inp stream k, buffered = out_buf rl,
     delivered = out (relay_session rl, k)\<rparr>)"

text \<open>A counter follows a number of bytes: modulo its width, and exactly if additions are checked.\<close>

definition counts :: "bool \<Rightarrow> usize \<Rightarrow> usize \<Rightarrow> bytes \<Rightarrow> bytes \<Rightarrow> bool" where
  "counts checked c c' xs xs' \<longleftrightarrow> length xs \<le> length xs' \<and> c' = c + of_nat (length xs' - length xs) \<and>
     (checked \<longrightarrow> unat c' = unat c + (length xs' - length xs))"

lemma counts_refl [simp]: "counts checked c c xs xs"
  by (simp add: counts_def)

lemma counts_trans: "counts checked c c' xs xs' \<Longrightarrow> counts checked c' c'' xs' xs'' \<Longrightarrow> counts checked c c'' xs xs''"
  by (auto simp: counts_def simp flip: of_nat_add)

lemma usize_add_counts: "usize_add checked c (length ys) = Some c' \<Longrightarrow> counts checked c c' xs (xs @ ys)"
  by (auto simp: usize_add_def counts_def unat_word_ariths take_bit_nat_eq_self unat_of_nat
      split: if_splits)

definition relayed ::
  "bool \<Rightarrow> ('s \<times> kernel \<Rightarrow> bool) \<Rightarrow> ('s \<times> kernel \<Rightarrow> bytes) \<Rightarrow> ('s \<times> kernel \<Rightarrow> bytes) \<Rightarrow> TcpStream \<Rightarrow>
   ('s, 'p) relay \<times> kernel \<Rightarrow> (relay_exit, unit) outcome \<Rightarrow> ('s, 'p) relay \<times> kernel \<Rightarrow> bool"
where
  "relayed checked good inp out stream x r y \<longleftrightarrow> good (relay_session (fst y), snd y) \<and>
     copy_step\<^sup>*\<^sup>* (chan_in inp stream x) (chan_in inp stream y) \<and>
     copy_step\<^sup>*\<^sup>* (chan_out out stream x) (chan_out out stream y) \<and>
     (case r of
        Panic m \<Rightarrow> checked \<and> m = ''attempt to add with overflow''
      | _ \<Rightarrow> counts checked (in_count (fst x)) (in_count (fst y)) (tcp_out stream (snd x)) (tcp_out stream (snd y)) \<and>
          counts checked (out_count (fst x)) (out_count (fst y)) (out (relay_session (fst x), snd x))
            (out (relay_session (fst y), snd y))) \<and>
     (\<forall>i j. r = Err (Finished i j) \<longrightarrow> i = in_count (fst y) \<and> j = out_count (fst y))"

lemma relayed_trans:
  assumes "relayed checked good inp out stream x (Ok ()) y" and "relayed checked good inp out stream y r z"
  shows "relayed checked good inp out stream x r z"
  using assms by (auto simp: relayed_def intro: rtranclp_trans counts_trans split: outcome.splits)

lemma relayed_same:
  assumes "good (relay_session rl', k')" and "inp (relay_session rl', k') = inp (relay_session rl, k)"
    and "out (relay_session rl', k') = out (relay_session rl, k)"
    and "tcp_inp stream k' = tcp_inp stream k" and "tcp_out stream k' = tcp_out stream k"
    and "in_buf rl' = in_buf rl" "out_buf rl' = out_buf rl" "in_count rl' = in_count rl" "out_count rl' = out_count rl"
    and "\<And>m. r \<noteq> Panic m" and "\<And>i j. r = Err (Finished i j) \<Longrightarrow> i = in_count rl \<and> j = out_count rl"
  shows "relayed checked good inp out stream (rl, k) r (rl', k')"
  using assms by (auto simp: relayed_def chan_in_def chan_out_def split: outcome.splits)

text \<open>
  The relay needs a session that keeps the stream contract, flushes nothing of its own, and whose
  bytes are not those of the local connection.
\<close>

locale relay_world = byte_duplex "nread ss" "nwrite ss" good inp out
  for ss :: "('s, kernel, 'c, 'art) NetSession"
    and good :: "'s \<times> kernel \<Rightarrow> bool" and inp :: "'s \<times> kernel \<Rightarrow> bytes" and out :: "'s \<times> kernel \<Rightarrow> bytes" +
  fixes stream :: TcpStream
  assumes flush_ok: "nflush ss x = Some (Ok (), x)"
    and session_rd_frame: "good (s, k) \<Longrightarrow> nread ss buf (s, k) = Some (r, (s', k')) \<Longrightarrow>
      tcp_inp stream k' = tcp_inp stream k \<and> tcp_out stream k' = tcp_out stream k"
    and session_wr_frame: "good (s, k) \<Longrightarrow> nwrite ss buf (s, k) = Some (r', (s', k')) \<Longrightarrow>
      tcp_inp stream k' = tcp_inp stream k \<and> tcp_out stream k' = tcp_out stream k"
    and stream_rd_frame: "good (s, k) \<Longrightarrow> TcpStream_read stream buf k = Some (r, k') \<Longrightarrow>
      good (s, k') \<and> inp (s, k') = inp (s, k) \<and> out (s, k') = out (s, k)"
    and stream_wr_frame: "good (s, k) \<Longrightarrow> TcpStream_write stream buf k = Some (r', k') \<Longrightarrow>
      good (s, k') \<and> inp (s, k') = inp (s, k) \<and> out (s, k') = out (s, k)"

begin

lemma relay_ext_write_cases:
  "relay_ext_write checked pl ss ext_id (rl, k) = map_option (\<lambda>(res, (s, k')). case res of
      Err e \<Rightarrow> (Err (Failed e), (rl\<lparr>relay_session := s\<rparr>, k'))
    | Panic m \<Rightarrow> (Panic m, (rl\<lparr>relay_session := s\<rparr>, k'))
    | Ok n \<Rightarrow>
        if n = 0 then (Err (Finished (in_count rl) (out_count rl)), (rl\<lparr>relay_session := s\<rparr>, k'))
        else case usize_add checked (out_count rl) n of
          None \<Rightarrow> (Panic ''attempt to add with overflow'',
            (rl\<lparr>relay_session := s, out_buf := drop n (out_buf rl)\<rparr>, k'))
        | Some c \<Rightarrow> (Ok (), (rl\<lparr>relay_session := s, out_buf := drop n (out_buf rl), out_count := c,
            relay_poller := settle pl ext_id (drop n (out_buf rl)) (relay_poller rl)\<rparr>, k')))
     (nwrite ss (out_buf rl) (relay_session rl, k))"
proof (cases "nwrite ss (out_buf rl)" "(relay_session rl, k)" rule: prog_cases)
  case (Ok n y)
  obtain s k' where "y = (s, k')" by (cases y)
  with Ok wr_len [OF Ok] show ?thesis
    by (cases "usize_add checked (out_count rl) n") (simp_all add: relay_ext_write_def settle_def flush_ok)
qed (auto simp: relay_ext_write_def split: prod.splits)

lemma relay_ext_read_cases:
  "relay_ext_read pl ss int_id (rl, k) = map_option (\<lambda>(res, (s, k')). case res of
      Err e \<Rightarrow> (Err (Failed e), (rl\<lparr>relay_session := s\<rparr>, k'))
    | Panic m \<Rightarrow> (Panic m, (rl\<lparr>relay_session := s\<rparr>, k'))
    | Ok (n, buf) \<Rightarrow>
        if n = 0 then (Err (Finished (in_count rl) (out_count rl)),
          (rl\<lparr>relay_session := s, relay_buf := buf\<rparr>, k'))
        else (Ok (), (rl\<lparr>relay_session := s, relay_buf := buf, in_buf := in_buf rl @ take n buf,
            relay_poller := poll_set_interest pl int_id read_write (relay_poller rl)\<rparr>, k')))
     (nread ss (relay_buf rl) (relay_session rl, k))"
proof (cases "nread ss (relay_buf rl)" "(relay_session rl, k)" rule: prog_cases)
  case (Ok a y)
  obtain n buf s k' where "a = (n, buf)" "y = (s, k')" by (cases a, cases y)
  with Ok rd_len [of "relay_buf rl" "(relay_session rl, k)" n buf y] show ?thesis
    by (simp add: relay_ext_read_def)
qed (auto simp: relay_ext_read_def split: prod.splits)

abbreviation moves where
  "moves checked \<equiv> relayed checked good inp out stream"

lemma relay_int_write_moves:
  assumes good: "good (relay_session rl, k)"
    and run: "relay_int_write checked pl int_id stream (rl, k) = Some (r, y)"
  shows "moves checked (rl, k) r y"
proof -
  from run obtain res k' where wr: "TcpStream_write stream (in_buf rl) k = Some (res, k')"
    by (auto simp: relay_int_write_cases)
  note frame = stream_wr_frame [OF good wr]
  show ?thesis
  proof (cases res)
    case (Ok n)
    with wr have wr: "TcpStream_write stream (in_buf rl) k = Some (Ok n, k')" by simp
    note moved = tcp.wr_moves [OF TrueI wr] tcp.wr_len [OF wr]
    have step: "copy_step (chan_in inp stream (rl, k)) (chan_in inp stream (rl\<lparr>in_buf := drop n (in_buf rl)\<rparr>, k'))"
      using frame moved copy_step.give [of "chan_in inp stream (rl, k)" "take n (in_buf rl)" "drop n (in_buf rl)"]
      by (simp add: chan_in_def)
    show ?thesis
      using run wr frame moved step usize_add_counts [of checked "in_count rl" "take n (in_buf rl)"]
      by (auto simp: relay_int_write_cases relayed_def chan_in_def chan_out_def usize_add_def
          split: if_splits option.splits)
  qed (use run wr frame in \<open>auto simp: relay_int_write_cases tcp.wr_no_panic intro!: relayed_same
      dest: tcp.wr_err [OF TrueI]\<close>)
qed

lemma relay_int_read_moves:
  assumes good: "good (relay_session rl, k)"
    and run: "relay_int_read pl ext_id stream (rl, k) = Some (r, y)"
  shows "moves checked (rl, k) r y"
proof -
  from run obtain res k' where rd: "TcpStream_read stream (relay_buf rl) k = Some (res, k')"
    by (auto simp: relay_int_read_cases)
  note frame = stream_rd_frame [OF good rd]
  show ?thesis
  proof (cases res)
    case (Ok a)
    obtain n buf where a: "a = (n, buf)" by (cases a)
    with Ok rd have rd: "TcpStream_read stream (relay_buf rl) k = Some (Ok (n, buf), k')" by simp
    note moved = tcp.rd_moves [OF TrueI rd]
    have step: "copy_step (chan_out out stream (rl, k))
        (chan_out out stream (rl\<lparr>out_buf := out_buf rl @ take n buf\<rparr>, k'))"
      using frame moved copy_step.take [of "chan_out out stream (rl, k)" "take n buf" "tcp_inp stream k'"]
      by (simp add: chan_out_def)
    show ?thesis
      using run rd frame moved step
      by (auto simp: relay_int_read_cases relayed_def chan_in_def chan_out_def split: if_splits)
  qed (use run rd frame in \<open>auto simp: relay_int_read_cases tcp.rd_no_panic intro!: relayed_same
      dest: tcp.rd_err [OF TrueI]\<close>)
qed

lemma relay_ext_write_moves:
  assumes good: "good (relay_session rl, k)"
    and run: "relay_ext_write checked pl ss ext_id (rl, k) = Some (r, y)"
  shows "moves checked (rl, k) r y"
proof -
  from run obtain res s k' where wr: "nwrite ss (out_buf rl) (relay_session rl, k) = Some (res, (s, k'))"
    by (auto simp: relay_ext_write_cases)
  note frame = session_wr_frame [OF good wr]
  show ?thesis
  proof (cases res)
    case (Ok n)
    with wr have wr: "nwrite ss (out_buf rl) (relay_session rl, k) = Some (Ok n, (s, k'))" by simp
    note moved = wr_moves [OF good wr] wr_len [OF wr]
    have step: "copy_step (chan_out out stream (rl, k))
        (chan_out out stream (rl\<lparr>relay_session := s, out_buf := drop n (out_buf rl)\<rparr>, k'))"
      using frame moved copy_step.give [of "chan_out out stream (rl, k)" "take n (out_buf rl)" "drop n (out_buf rl)"]
      by (simp add: chan_out_def)
    show ?thesis
      using run wr frame moved step usize_add_counts [of checked "out_count rl" "take n (out_buf rl)"]
      by (auto simp: relay_ext_write_cases relayed_def chan_in_def chan_out_def usize_add_def
          split: if_splits option.splits)
  qed (use run wr frame in \<open>auto simp: relay_ext_write_cases wr_no_panic intro!: relayed_same
      dest: wr_err [OF good]\<close>)
qed

lemma relay_ext_read_moves:
  assumes good: "good (relay_session rl, k)"
    and run: "relay_ext_read pl ss int_id (rl, k) = Some (r, y)"
  shows "moves checked (rl, k) r y"
proof -
  from run obtain res s k' where rd: "nread ss (relay_buf rl) (relay_session rl, k) = Some (res, (s, k'))"
    by (auto simp: relay_ext_read_cases)
  note frame = session_rd_frame [OF good rd]
  show ?thesis
  proof (cases res)
    case (Ok a)
    obtain n buf where a: "a = (n, buf)" by (cases a)
    with Ok rd have rd: "nread ss (relay_buf rl) (relay_session rl, k) = Some (Ok (n, buf), (s, k'))" by simp
    note moved = rd_moves [OF good rd]
    have step: "copy_step (chan_in inp stream (rl, k))
        (chan_in inp stream (rl\<lparr>relay_session := s, in_buf := in_buf rl @ take n buf\<rparr>, k'))"
      using frame moved copy_step.take [of "chan_in inp stream (rl, k)" "take n buf" "inp (s, k')"]
      by (simp add: chan_in_def)
    show ?thesis
      using run rd frame moved step
      by (auto simp: relay_ext_read_cases relayed_def chan_in_def chan_out_def split: if_splits)
  qed (use run rd frame in \<open>auto simp: relay_ext_read_cases rd_no_panic intro!: relayed_same
      dest: rd_err [OF good]\<close>)
qed

lemma relay_loop_moves:
  assumes good: "good (relay_session rl, k)"
    and run: "relay_loop checked pl ss stream int_id ext_id timeout (rl, k) = Some (r, y)"
    and poll: "\<And>s p k res p' k'. good (s, k) \<Longrightarrow> poll_poll pl (Some timeout) (p, k) = Some (res, (p', k')) \<Longrightarrow>
      good (s, k') \<and> inp (s, k') = inp (s, k) \<and> out (s, k') = out (s, k) \<and>
      tcp_inp stream k' = tcp_inp stream k \<and> tcp_out stream k' = tcp_out stream k"
    and calm: "\<And>p k m p' k'. poll_poll pl (Some timeout) (p, k) \<noteq> Some (Panic m, (p', k'))"
  shows "\<exists>r0. moves checked (rl, k) r0 y \<and> ends_with r0 r"
proof -
  have still: "moves checked (rl, k) (Ok ()) (rl\<lparr>relay_poller := p\<rparr>, k')"
    if "good (relay_session rl, k)" and "poll_poll pl (Some timeout) (relay_poller rl, k) = Some (res, (p, k'))"
    for rl k res p k'
    using poll [OF that] by (intro relayed_same) auto
  have keep: "good (relay_session (fst y), snd y)" if "moves checked x r y" for x r y
    using that by (simp add: relayed_def)
  let ?Q = "\<lambda>x r y. good (relay_session (fst x), snd x) \<longrightarrow> moves checked x r y"
  have "\<exists>r0. ?Q (rl, k) r0 (snd (r, y)) \<and> ends_with r0 (fst (r, y))"
  proof (rule relay_run [OF run])
  qed (auto intro: relay_int_write_moves relay_int_read_moves relay_ext_write_moves relay_ext_read_moves
      relayed_trans relayed_same still simp: calm dest: keep)
  with good show ?thesis by auto
qed

end

section \<open>What the poller is asked for\<close>

text \<open>
  The documented behaviour of the poller's registrations, for a function that reads them off:
  registering gives a new id the interest, \<^verbatim>\<open>set_interest\<close> exchanges the interest of a registered
  id, and fetching events changes none.
\<close>

definition tracks_interest :: "('p, 'id, 'w) Poll \<Rightarrow> ('p \<Rightarrow> 'id \<rightharpoonup> IoType) \<Rightarrow> bool" where
  "tracks_interest pl interest \<longleftrightarrow>
     (\<forall>p i t. i \<in> dom (interest p) \<longrightarrow> interest (poll_set_interest pl i t p) = (interest p)(i \<mapsto> t)) \<and>
     (\<forall>p fd t i p'. poll_register pl fd t p = (i, p') \<longrightarrow> i \<notin> dom (interest p) \<and> interest p' = (interest p)(i \<mapsto> t)) \<and>
     (\<forall>d p w r p' w'. poll_poll pl d (p, w) = Some (r, (p', w')) \<longrightarrow> interest p' = interest p) \<and>
     (\<forall>p ev p'. poll_next pl p = (ev, p') \<longrightarrow> interest p' = interest p)"

lemma tracks_interestD:
  assumes "tracks_interest pl interest"
  shows "interest p i = Some t' \<Longrightarrow> interest (poll_set_interest pl i t p) = (interest p)(i \<mapsto> t)"
    and "poll_register pl fd t p = (i, p') \<Longrightarrow> interest p i = None \<and> interest p' = (interest p)(i \<mapsto> t)"
    and "poll_poll pl d (p, w) = Some (r, (p', w')) \<Longrightarrow> interest p' = interest p"
    and "poll_next pl p = (ev, p') \<Longrightarrow> interest p' = interest p"
  using assms unfolding tracks_interest_def by blast+

text \<open>Each side waits for writability exactly while there are bytes for it.\<close>

definition asks :: "('p \<Rightarrow> 'id \<rightharpoonup> IoType) \<Rightarrow> 'id \<Rightarrow> 'id \<Rightarrow> ('s, 'p) relay \<Rightarrow> bool" where
  "asks interest int_id ext_id rl \<longleftrightarrow>
     interest (relay_poller rl) int_id = Some (if in_buf rl = [] then read_only else read_write) \<and>
     interest (relay_poller rl) ext_id = Some (if out_buf rl = [] then read_only else read_write)"

lemma asks_set:
  assumes "tracks_interest pl interest" and "asks interest int_id ext_id rl"
  shows "interest (poll_set_interest pl int_id t (relay_poller rl)) = (interest (relay_poller rl))(int_id \<mapsto> t)"
    and "interest (poll_set_interest pl ext_id t (relay_poller rl)) = (interest (relay_poller rl))(ext_id \<mapsto> t)"
  using assms tracks_interestD(1) [OF assms(1)] by (auto simp: asks_def)

lemma asks_frame [simp]:
  "asks interest int_id ext_id (rl\<lparr>relay_session := s\<rparr>) = asks interest int_id ext_id rl"
  "asks interest int_id ext_id (rl\<lparr>relay_buf := buf\<rparr>) = asks interest int_id ext_id rl"
  by (simp_all add: asks_def)

lemma asks_steps:
  assumes "tracks_interest pl interest" and "asks interest int_id ext_id rl" and "int_id \<noteq> ext_id"
  shows "asks interest int_id ext_id (rl\<lparr>in_buf := drop n (in_buf rl), in_count := c,
      relay_poller := settle pl int_id (drop n (in_buf rl)) (relay_poller rl)\<rparr>)"
    and "asks interest int_id ext_id (rl\<lparr>relay_session := s, out_buf := drop n (out_buf rl), out_count := c,
      relay_poller := settle pl ext_id (drop n (out_buf rl)) (relay_poller rl)\<rparr>)"
    and "xs \<noteq> [] \<Longrightarrow> asks interest int_id ext_id (rl\<lparr>relay_buf := buf, out_buf := out_buf rl @ xs,
      relay_poller := poll_set_interest pl ext_id read_write (relay_poller rl)\<rparr>)"
    and "xs \<noteq> [] \<Longrightarrow> asks interest int_id ext_id (rl\<lparr>relay_session := s, relay_buf := buf, in_buf := in_buf rl @ xs,
      relay_poller := poll_set_interest pl int_id read_write (relay_poller rl)\<rparr>)"
  using assms(2,3) asks_set [OF assms(1,2)]
  by (auto simp add: asks_def settle_def)

text \<open>The states in which the loop polls.\<close>

inductive relay_polls ::
  "bool \<Rightarrow> ('p, 'id, kernel) Poll \<Rightarrow> ('s, kernel, 'c, 'art) NetSession \<Rightarrow> TcpStream \<Rightarrow> 'id \<Rightarrow> 'id \<Rightarrow> duration \<Rightarrow>
   ('s, 'p) relay \<times> kernel \<Rightarrow> ('s, 'p) relay \<times> kernel \<Rightarrow> bool"
  for checked pl ss stream int_id ext_id timeout x
where
  enter: "relay_polls checked pl ss stream int_id ext_id timeout x x"
| again: "relay_polls checked pl ss stream int_id ext_id timeout x y \<Longrightarrow>
    on_poller (poll_poll pl (Some timeout)) y = Some (Ok n, z) \<Longrightarrow> n \<noteq> 0 \<Longrightarrow>
    relay_drain checked pl ss stream int_id ext_id z = Some (Ok (), y') \<Longrightarrow>
    relay_polls checked pl ss stream int_id ext_id timeout x y'"

lemma relay_polls_loop:
  assumes "relay_polls checked pl ss stream int_id ext_id timeout x y"
  shows "relay_loop checked pl ss stream int_id ext_id timeout x = relay_loop checked pl ss stream int_id ext_id timeout y"
  using assms
proof (induction rule: relay_polls.induct)
  case (again y n z y')
  then show ?case by (subst (asm) (2) relay_loop.simps) simp
qed simp

context relay_world
begin

lemma relay_drain_asks:
  assumes tracks: "tracks_interest pl interest" and ids: "int_id \<noteq> ext_id"
    and run: "relay_drain checked pl ss stream int_id ext_id x = Some (Ok (), y)" and start: "asks interest int_id ext_id (fst x)"
  shows "asks interest int_id ext_id (fst y)"
proof -
  let ?Q = "\<lambda>(x :: ('s, _) relay \<times> kernel) (r :: (relay_exit, unit) outcome) (y :: ('s, _) relay \<times> kernel).
    asks interest int_id ext_id (fst x) \<longrightarrow> (\<forall>m. r \<noteq> Panic m) \<longrightarrow> asks interest int_id ext_id (fst y)"
  note steps = asks_steps [OF tracks _ ids]
  have int_write: "?Q (rl, k) r y" if "relay_int_write checked pl int_id stream (rl, k) = Some (r, y)" for rl k r y
    using that
    by (cases "TcpStream_write stream (in_buf rl)" k rule: prog_cases)
      (auto simp: relay_int_write_cases steps split: if_splits option.splits)
  have ext_write: "?Q (rl, k) r y" if "relay_ext_write checked pl ss ext_id (rl, k) = Some (r, y)" for rl k r y
    using that
    by (cases "nwrite ss (out_buf rl)" "(relay_session rl, k)" rule: prog_cases)
      (auto simp: relay_ext_write_cases steps split: if_splits option.splits)
  have int_read: "?Q (rl, k) r y" if "relay_int_read pl ext_id stream (rl, k) = Some (r, y)" for rl k r y
    using that
    by (cases "TcpStream_read stream (relay_buf rl)" k rule: prog_cases)
      (auto simp: relay_int_read_cases split: if_splits dest!: tcp.rd_len intro!: steps(3))
  have ext_read: "?Q (rl, k) r y" if "relay_ext_read pl ss int_id (rl, k) = Some (r, y)" for rl k r y
    using that
    by (cases "nread ss (relay_buf rl)" "(relay_session rl, k)" rule: prog_cases)
      (auto simp: relay_ext_read_cases split: if_splits dest!: rd_len intro!: steps(4))
  have event: "?Q x r y" if "relay_event checked pl ss stream int_id ext_id ident res x = Some (r, y)"
    for ident res x r y
    using that by (rule relay_event_run [where Q = ?Q, OF _ int_write int_read ext_write ext_read]) blast+
  have nxt: "?Q (rl, k) (Ok ()) (rl\<lparr>relay_poller := p\<rparr>, k)" if "poll_next pl (relay_poller rl) = (ev, p)" for rl k ev p
    using tracks_interestD(4) [OF tracks that] by (simp add: asks_def)
  have trans: "?Q x r z" if "?Q x (Ok ()) y" and "?Q y r z" for x y r z
    using that by blast
  from relay_drain_run [where Q = ?Q, OF run nxt event trans] start show ?thesis by simp
qed

lemma relay_polls_asks:
  assumes polls: "relay_polls checked pl ss stream int_id ext_id timeout x y"
    and tracks: "tracks_interest pl interest" and ids: "int_id \<noteq> ext_id" and start: "asks interest int_id ext_id (fst x)"
  shows "asks interest int_id ext_id (fst y)"
  using polls
proof (induction rule: relay_polls.induct)
  case (again y n z y')
  from again.hyps(2) again.IH have "asks interest int_id ext_id (fst z)"
    using tracks_interestD(3) [OF tracks] by (cases y) (auto simp: on_poller_Some asks_def)
  from relay_drain_asks [OF tracks ids again.hyps(4) this] show ?case .
qed (rule start)

end

end
