(* ===== verification/Relay.thy ===== *)
theory Relay
  imports Tunnel_Laws Reactor
begin

text \<open>
  The laws of \<open>Tunnel_Laws\<close> on the sessions of the library: a tunnel between a local connection
  and a complete \<^verbatim>\<open>CypherSession\<close>, and the properties of \<^verbatim>\<open>tunnel_once\<close>.
\<close>

section \<open>Connections that share no socket\<close>

definition apart :: "TcpStream \<Rightarrow> TcpStream \<Rightarrow> kernel \<Rightarrow> bool" where
  "apart s t k \<longleftrightarrow> k_fds k (stream_fd s) \<noteq> k_fds k (stream_fd t)"

lemma k_call_frame:
  assumes "k_call fd op k = Some (r, k')"
  shows "k_fds k' = k_fds k" and "k_fds k fd' \<noteq> k_fds k fd \<Longrightarrow> k_sock k' fd' = k_sock k fd'"
  using assms by (auto simp: k_call_Some k_update_def k_sock_def map_option_case split: option.splits)

lemma stream_apart:
  assumes "TcpStream_read s buf k = Some (r, k') \<or> TcpStream_write s buf k = Some (r', k')"
  shows "k_fds k' = k_fds k"
    and "apart t s k \<Longrightarrow> tcp_inp t k' = tcp_inp t k" and "apart t s k \<Longrightarrow> tcp_out t k' = tcp_out t k"
  using assms
  by (auto simp: TcpStream_read_def TcpStream_write_def apart_def tcp_inp_def tcp_out_def
      dest: k_call_frame)

text \<open>A complete session reads and writes its connection.\<close>

lemma cypher_transfer_tcp:
  assumes "cypher_at sl nl el c (s, k)"
  shows "nread (CypherSession_session (TcpStream_connection lib al) sl nl el) buf (s, k) = Some (r, (s', k')) \<Longrightarrow>
      TcpStream_read c buf k = Some (r, k')"
    and "nwrite (CypherSession_session (TcpStream_connection lib al) sl nl el) buf (s, k) = Some (r', (s', k')) \<Longrightarrow>
      TcpStream_write c buf k = Some (r', k')"
  using assms
  by (auto simp: cypher_at_def cypher_good_def layer_good_def read_pass write_pass NoiseSession_session_def
      Socks5Session_session_def io_simps)

lemma cypher_medium:
  assumes "cypher_at sl nl el c (s, k)"
  shows "cypher_inp (s, k') = tcp_inp c k'" and "cypher_out (s, k') = tcp_out c k'"
    and "cypher_at sl nl el c (s, k')"
  using assms
  by (auto simp: cypher_at_def cypher_good_def layer_good_def cypher_inp_def cypher_out_def through_def
      sess_inp_def sess_out_def)

text \<open>
  A complete session over the connection \<open>c\<close>, which shares no socket with the local connection; the
  descriptor table stays as it is.
\<close>

definition tunnel_good ::
  "('host, 'r, 'se) socks5_lib \<Rightarrow> ('n, 'hh, 'pk, 'ne) noise_lib \<Rightarrow>
   ('es, 'cert, 'ids, 'signer, 'ee) eidolon_lib \<Rightarrow> (raw_fd \<rightharpoonup> nat) \<Rightarrow> TcpStream \<Rightarrow> TcpStream \<Rightarrow>
   ('host, 'r, 'n, 'es, 'signer) CypherSession \<times> kernel \<Rightarrow> bool"
where
  "tunnel_good sl nl el fds c stream = (\<lambda>(s, k).
     cypher_at sl nl el c (s, k) \<and> apart stream c k \<and> k_fds k = fds)"

lemma tunnel_session_transfer:
  assumes "tunnel_good sl nl el fds c stream (s, k)"
    and "nread (CypherSession_session (TcpStream_connection lib al) sl nl el) buf (s, k) = Some (r, (s', k')) \<or>
      nwrite (CypherSession_session (TcpStream_connection lib al) sl nl el) buf (s, k) = Some (r', (s', k'))"
  shows "k_fds k' = k_fds k \<and> tcp_inp stream k' = tcp_inp stream k \<and> tcp_out stream k' = tcp_out stream k"
proof -
  from assms have at: "cypher_at sl nl el c (s, k)" and "apart stream c k" by (auto simp: tunnel_good_def)
  moreover from assms(2) have "TcpStream_read c buf k = Some (r, k') \<or> TcpStream_write c buf k = Some (r', k')"
    using cypher_transfer_tcp [OF at] by blast
  ultimately show ?thesis using stream_apart by blast
qed

lemma tunnel_stream_transfer:
  assumes "tunnel_good sl nl el fds c stream (s, k)"
    and "TcpStream_read stream buf k = Some (r, k') \<or> TcpStream_write stream buf k = Some (r', k')"
  shows "tunnel_good sl nl el fds c stream (s, k') \<and> cypher_inp (s, k') = cypher_inp (s, k) \<and>
    cypher_out (s, k') = cypher_out (s, k)"
proof -
  from assms have at: "cypher_at sl nl el c (s, k)" and ap: "apart c stream k" "k_fds k = fds"
    by (auto simp: tunnel_good_def apart_def)
  with stream_apart [OF assms(2)] show ?thesis
    by (auto simp: tunnel_good_def apart_def cypher_medium [OF at])
qed

lemma tunnel_good_at: "tunnel_good sl nl el fds c stream x \<Longrightarrow> cypher_at sl nl el c x"
  by (cases x) (simp add: tunnel_good_def)

lemma tunnel_good_session:
  assumes "tunnel_good sl nl el fds c stream x" and "cypher_at sl nl el c y"
    and "nread (CypherSession_session (TcpStream_connection lib al) sl nl el) buf x = Some (r, y) \<or>
      nwrite (CypherSession_session (TcpStream_connection lib al) sl nl el) buf x = Some (r', y)"
  shows "tunnel_good sl nl el fds c stream y"
  using assms tunnel_session_transfer [of sl nl el fds c stream "fst x" "snd x" lib al buf r "fst y" "snd y" r']
  by (cases x; cases y) (simp add: tunnel_good_def apart_def del: cypher_sel)

interpretation cypher_relay: relay_world "CypherSession_session (TcpStream_connection lib al) sl nl el"
  "tunnel_good sl nl el fds c stream" cypher_inp cypher_out stream for lib al sl nl el fds c stream
proof (intro relay_world.intro byte_duplex.intro byte_duplex_axioms.intro relay_world_axioms.intro
    cypher.byte_stream_axioms)
  let ?ss = "CypherSession_session (TcpStream_connection lib al) sl nl el"
  fix x buf n buf' y
  assume good: "tunnel_good sl nl el fds c stream x"
  note at = tunnel_good_at [OF good]
  show "cypher_inp x = take n buf' @ cypher_inp y \<and> cypher_out y = cypher_out x \<and> tunnel_good sl nl el fds c stream y"
    if "nread ?ss buf x = Some (Ok (n, buf'), y)"
    using that cypher_transport.rd_moves [OF at that] tunnel_good_session [OF good] by blast
  show "cypher_inp y = cypher_inp x \<and> cypher_out y = cypher_out x \<and> tunnel_good sl nl el fds c stream y"
    if "nread ?ss buf x = Some (Err e, y)" for e
    using that cypher_transport.rd_err [OF at that] tunnel_good_session [OF good] by blast
  show "cypher_out y = cypher_out x @ take n buf \<and> cypher_inp y = cypher_inp x \<and> tunnel_good sl nl el fds c stream y"
    if "nwrite ?ss buf x = Some (Ok n, y)"
    using that cypher_transport.wr_moves [OF at that] tunnel_good_session [OF good] by blast
  show "cypher_out y = cypher_out x \<and> cypher_inp y = cypher_inp x \<and> tunnel_good sl nl el fds c stream y"
    if "nwrite ?ss buf x = Some (Err e, y)" for e
    using that cypher_transport.wr_err [OF at that] tunnel_good_session [OF good] by blast
qed (auto dest: tunnel_session_transfer tunnel_stream_transfer simp del: cypher_sel)

section \<open>Calls that move no bytes\<close>

text \<open>The descriptor table and the bytes of every socket.\<close>

definition traffic :: "kernel \<Rightarrow> (raw_fd \<rightharpoonup> nat) \<times> (nat \<Rightarrow> bytes \<times> bytes)" where
  "traffic k = (k_fds k, \<lambda>i. (sk_rx (k_socks k i), sk_tx (k_socks k i)))"

lemma traffic_eqD:
  assumes "traffic k' = traffic k"
  shows "k_fds k' = k_fds k" and "tcp_inp s k' = tcp_inp s k" and "tcp_out s k' = tcp_out s k"
  using assms by (auto simp: traffic_def tcp_inp_def tcp_out_def k_sock_def fun_eq_iff split: option.splits)

lemma setter_traffic:
  assumes "\<And>sk. sk_rx (f sk) = sk_rx sk \<and> sk_tx (f sk) = sk_tx sk"
  shows "keeps traffic (k_call fd (sock_set f))" and "keeps traffic (k_call fd (sock_set_timeout f d))"
  using assms
  by (auto simp: keeps_def k_call_Some sock_set_Some sock_set_timeout_def traffic_def k_update_def
      k_sock_def fun_eq_iff split: option.splits if_splits)

lemma prepare_tunnel_traffic:
  "keeps traffic (prepare_tunnel (TcpStream_connection lib al) (TcpStream_connection lib' al') stream c timeout)"
  unfolding prepare_tunnel_def
  by (intro keeps_bind) (auto simp: TcpStream_connection_def intro!: setter_traffic)

text \<open>The documented behaviour of a poller the relay needs: polling moves no bytes and does not panic.\<close>

definition poll_quiet :: "('p, 'id, kernel) Poll \<Rightarrow> bool" where
  "poll_quiet pl \<longleftrightarrow> (\<forall>d p k r p' k'. poll_poll pl d (p, k) = Some (r, (p', k')) \<longrightarrow>
     traffic k' = traffic k \<and> (\<forall>m. r \<noteq> Panic m))"

lemma poll_quietD:
  assumes "poll_quiet pl" and "poll_poll pl d (p, k) = Some (r, (p', k'))"
  shows "k_fds k' = k_fds k" and "tcp_inp s k' = tcp_inp s k" and "tcp_out s k' = tcp_out s k"
    and "r \<noteq> Panic m"
proof -
  from assms have "traffic k' = traffic k" and calm: "r \<noteq> Panic m" by (auto simp: poll_quiet_def)
  then show "k_fds k' = k_fds k" "tcp_inp s k' = tcp_inp s k" "tcp_out s k' = tcp_out s k"
    by (auto dest: traffic_eqD)
  show "r \<noteq> Panic m" by (fact calm)
qed

section \<open>A concrete tunnel\<close>

text \<open>A poller that reports the given events, one list per poll; ids are positions of registrations.\<close>

record demo_poller =
  dp_interest :: "IoType list"
  dp_batches :: "(nat \<times> (IoFail + IoReady)) list list"
  dp_events :: "(nat \<times> (IoFail + IoReady)) list"

definition demo_poll :: "(demo_poller, nat, kernel) Poll" where
  "demo_poll = \<lparr>
     poll_register = (\<lambda>fd t p. (length (dp_interest p), p\<lparr>dp_interest := dp_interest p @ [t]\<rparr>)),
     poll_poll = (\<lambda>d (p, k). case dp_batches p of
         [] \<Rightarrow> Some (Ok 0, (p, k))
       | es # rest \<Rightarrow> Some (Ok (length es), (p\<lparr>dp_batches := rest, dp_events := es\<rparr>, k))),
     poll_next = (\<lambda>p. case dp_events p of [] \<Rightarrow> (None, p) | e # es \<Rightarrow> (Some e, p\<lparr>dp_events := es\<rparr>)),
     poll_set_interest = (\<lambda>i t p. p\<lparr>dp_interest := (dp_interest p)[i := t]\<rparr>)\<rparr>"

definition demo_interest :: "demo_poller \<Rightarrow> nat \<rightharpoonup> IoType" where
  "demo_interest p i = (if i < length (dp_interest p) then Some (dp_interest p ! i) else None)"

lemma demo_poll_quiet: "poll_quiet demo_poll"
  by (auto simp: poll_quiet_def demo_poll_def split: list.splits)

lemma demo_poll_tracks: "tracks_interest demo_poll demo_interest"
  unfolding tracks_interest_def
  by (auto simp: demo_poll_def demo_interest_def fun_eq_iff nth_append nth_list_update dom_def
      split: list.splits if_splits)

text \<open>
  A listener on descriptor 5 with a client waiting that has sent two bytes, and a session on
  descriptor 3 whose peer sends three.  The events: the client's bytes arrive, the session becomes
  writable, the client is gone.
\<close>

definition demo_tunnel_kernel :: kernel where
  "demo_tunnel_kernel = (demo_net [1, 2, 3] [])\<lparr>k_fds := [3 \<mapsto> 3, 5 \<mapsto> 5], k_next := 6,
     k_backlog := (\<lambda>_. [Inr (demo_socket\<lparr>sk_rx := [8, 9]\<rparr>)])\<rparr>"

abbreviation demo_readable :: IoReady where "demo_readable \<equiv> \<lparr>ev_read = True, ev_write = False\<rparr>"
abbreviation demo_writable :: IoReady where "demo_writable \<equiv> \<lparr>ev_read = False, ev_write = True\<rparr>"

definition demo_events :: demo_poller where
  "demo_events = \<lparr>dp_interest = [],
     dp_batches = [[(0, Inr demo_readable)], [(1, Inr demo_writable)], [(0, Inl (Connectivity 1))]], dp_events = []\<rparr>"

definition demo_tunnel where
  "demo_tunnel = \<lparr>tn_listener = TcpListener 5, tn_session = demo_up\<rparr>"

lemma relay_drain_step:
  "poll_next pl (relay_poller rl) = (None, p) \<Longrightarrow>
    relay_drain checked pl ss stream int_id ext_id (rl, k) = Some (Ok (), (rl\<lparr>relay_poller := p\<rparr>, k))"
  "poll_next pl (relay_poller rl) = (Some (i, res), p) \<Longrightarrow>
    relay_event checked pl ss stream int_id ext_id i res (rl\<lparr>relay_poller := p\<rparr>, k) = Some (Ok (), y) \<Longrightarrow>
    relay_drain checked pl ss stream int_id ext_id (rl, k) = relay_drain checked pl ss stream int_id ext_id y"
  "poll_next pl (relay_poller rl) = (Some (i, res), p) \<Longrightarrow>
    relay_event checked pl ss stream int_id ext_id i res (rl\<lparr>relay_poller := p\<rparr>, k) = Some (Err ex, y) \<Longrightarrow>
    relay_drain checked pl ss stream int_id ext_id (rl, k) = Some (Err ex, y)"
  by (simp_all add: relay_drain.simps [of _ _ _ _ _ _ "(rl, k)"])

lemma relay_loop_step:
  assumes "on_poller (poll_poll pl (Some timeout)) x = Some (Ok (Suc n), y)"
  shows "relay_drain checked pl ss stream int_id ext_id y = Some (Ok (), z) \<Longrightarrow>
      relay_loop checked pl ss stream int_id ext_id timeout x = relay_loop checked pl ss stream int_id ext_id timeout z"
    and "relay_drain checked pl ss stream int_id ext_id y = Some (Err ex, z) \<Longrightarrow>
      relay_loop checked pl ss stream int_id ext_id timeout x = Some (leave ex, z)"
  using assms by (simp_all add: relay_loop.simps [of _ _ _ _ _ _ _ x])

definition demo_prepared :: kernel where
  "demo_prepared = demo_tunnel_kernel\<lparr>k_fds := [3 \<mapsto> 3, 5 \<mapsto> 5, 6 \<mapsto> 6], k_next := 7,
     k_backlog := (k_backlog demo_tunnel_kernel)(5 := []),
     k_socks := (k_socks demo_tunnel_kernel)
       (3 := (k_socks demo_tunnel_kernel 3)\<lparr>sk_nonblocking := True, sk_read_timeout := Some 10, sk_write_timeout := Some 10\<rparr>,
        6 := demo_socket\<lparr>sk_rx := [8, 9], sk_nonblocking := True, sk_read_timeout := Some 10, sk_write_timeout := Some 10\<rparr>)\<rparr>"

lemma demo_poll_sel [simp]:
  "poll_register demo_poll fd t p = (length (dp_interest p), p\<lparr>dp_interest := dp_interest p @ [t]\<rparr>)"
  "poll_poll demo_poll d (p, k) = (case dp_batches p of
     [] \<Rightarrow> Some (Ok 0, (p, k)) | es # rest \<Rightarrow> Some (Ok (length es), (p\<lparr>dp_batches := rest, dp_events := es\<rparr>, k)))"
  "poll_next demo_poll p = (case dp_events p of [] \<Rightarrow> (None, p) | e # es \<Rightarrow> (Some e, p\<lparr>dp_events := es\<rparr>))"
  "poll_set_interest demo_poll i t p = p\<lparr>dp_interest := (dp_interest p)[i := t]\<rparr>"
  by (simp_all add: demo_poll_def)

definition demo_read_kernel :: kernel where
  "demo_read_kernel = k_update 6 (\<lambda>sk. sk\<lparr>sk_rx := []\<rparr>) demo_prepared"

lemma demo_client_read:
  assumes "length B = 65535"
  shows "TcpStream_read (TcpStream 6) B demo_prepared = Some (Ok (2, [8, 9] @ drop 2 B), demo_read_kernel)"
proof -
  from assms have "B \<noteq> []" by auto
  with assms show ?thesis
    by (simp add: demo_run demo_prepared_def demo_tunnel_kernel_def demo_read_kernel_def numeral_2_eq_2)
qed

lemma demo_session_write:
  "\<exists>k. nwrite demo_cypher_session [8, 9] (demo_up, demo_read_kernel) = Some (Ok 2, (demo_up, k))"
proof -
  have "yields (nwrite demo_cypher_session [8, 9] (demo_up, demo_read_kernel)) (\<lambda>n (s, k). n = 2 \<and> s = demo_up)"
    by code_simp
  then show ?thesis by (rule yieldsE) auto
qed

lemma demo_relay_run:
  assumes "length B = 65535"
  shows "\<exists>y. relay_loop False demo_poll demo_cypher_session (TcpStream 6) 0 1 10
    (\<lparr>relay_session = demo_up, relay_poller = demo_events\<lparr>dp_interest := [read_only, read_only]\<rparr>, in_buf = [], out_buf = [],
      in_count = 0, out_count = 0, relay_buf = B\<rparr>, demo_prepared) = Some (Ok (0, 2), y)"
proof -
  from demo_session_write obtain k where
    wr: "nwrite demo_cypher_session [8, 9] (demo_up, demo_read_kernel) = Some (Ok 2, (demo_up, k))" by blast
  show ?thesis
    by (simp add: relay_loop_step relay_drain_step on_poller_def demo_events_def relay_event_def
        relay_int_read_cases cypher_relay.relay_ext_write_cases demo_client_read [OF assms] wr settle_def
        usize_add_def del: cypher_sel)
qed

lemma demo_prepare:
  "k_accept 5 demo_tunnel_kernel = Some (Ok 6, k1) \<Longrightarrow>
    prepare_tunnel demo_cn demo_cn (TcpStream 6) (TcpStream 3) 10 k1 = Some (Ok (), demo_prepared)"
  by (auto simp: demo_tunnel_kernel_def demo_prepared_def prepare_tunnel_def k_accept_def k_open_def TcpStream_connection_def
    demo_run sock_set_def sock_set_timeout_def fun_eq_iff)

lemma demo_run_relay:
  "\<exists>y. run_relay False demo_poll demo_cypher_session demo_cn (TcpStream 6) demo_up demo_events 10 demo_prepared =
    Some (Ok (0, 2), y)"
  using demo_relay_run [of "replicate READ_BUFFER_SIZE 0"]
  by (simp add: run_relay_def demo_events_def READ_BUFFER_SIZE_def Let_def del: cypher_sel)

lemma demo_tunnel_run:
  "\<exists>tun' k'. Tunnel_tunnel_once False demo_cn demo_poll demo_cypher_session demo_cn demo_events 10
    (demo_tunnel, demo_tunnel_kernel) = Some (Ok (0, 2), (tun', k'))"
proof -
  have acc: "k_accept 5 demo_tunnel_kernel = Some (Ok 6, k)"
     if "k = snd (the (k_accept 5 demo_tunnel_kernel))" for k
    using that by (simp add: k_accept_def k_open_def demo_tunnel_kernel_def)
  have addr: "Tunnel_local_addr demo_tunnel demo_tunnel_kernel = Some (Ok demo_addr, demo_tunnel_kernel)"
    by (simp add: Tunnel_local_addr_def demo_tunnel_def demo_tunnel_kernel_def demo_run fun_upd_idem)
  from demo_run_relay obtain rl k3 where
    "run_relay False demo_poll demo_cypher_session demo_cn (TcpStream 6) demo_up demo_events 10 demo_prepared =
      Some (Ok (0, 2), (rl, k3))" by auto
  moreover have "np_session (np_session (np_session demo_up)) = TcpStream 3" by (simp add: demo_up_def)
  ultimately show ?thesis
    using acc [OF refl] demo_prepare [OF acc [OF refl]] addr
    by (simp add: Tunnel_tunnel_once_def expect_def demo_tunnel_def Let_def)
qed

section \<open>A run of the relay\<close>

lemma cypher_relay_run:
  assumes good: "tunnel_good sl nl el fds c stream (s, k)" and quiet: "poll_quiet pl"
    and run: "run_relay checked pl (CypherSession_session (TcpStream_connection lib al) sl nl el) cn stream s p timeout k =
      Some (r, y)"
  obtains r0 p0 where "relayed checked (tunnel_good sl nl el fds c stream) cypher_inp cypher_out stream
      (\<lparr>relay_session = s, relay_poller = p0, in_buf = [], out_buf = [], in_count = 0, out_count = 0,
        relay_buf = replicate READ_BUFFER_SIZE 0\<rparr>, k) r0 y" and "ends_with r0 r"
proof -
  have poll: "tunnel_good sl nl el fds c stream (s, k') \<and> cypher_inp (s, k') = cypher_inp (s, k) \<and>
      cypher_out (s, k') = cypher_out (s, k) \<and> tcp_inp stream k' = tcp_inp stream k \<and>
      tcp_out stream k' = tcp_out stream k"
    if good: "tunnel_good sl nl el fds c stream (s, k)"
      and "poll_poll pl (Some timeout) (p, k) = Some (res, (p', k'))" for s p k res p' k'
    using good poll_quietD [OF quiet that(2)] cypher_medium [OF tunnel_good_at [OF good]]
    by (auto simp: tunnel_good_def apart_def)
  have calm: "poll_poll pl (Some timeout) (p, k) \<noteq> Some (Panic m, (p', k'))" for p k m p' k'
    using poll_quietD(4) [OF quiet] by blast
  let ?rl = "\<lambda>p0. \<lparr>relay_session = s, relay_poller = p0, in_buf = [], out_buf = [], in_count = 0,
    out_count = 0, relay_buf = replicate READ_BUFFER_SIZE 0\<rparr>"
  from run obtain int_id ext_id p0 where
    loop: "relay_loop checked pl (CypherSession_session (TcpStream_connection lib al) sl nl el) stream int_id ext_id
      timeout (?rl p0, k) = Some (r, y)"
    by (auto simp: run_relay_def Let_def split_beta simp del: cypher_sel)
  have "\<exists>r0. relayed checked (tunnel_good sl nl el fds c stream) cypher_inp cypher_out stream (?rl p0, k) r0 y \<and>
      ends_with r0 r"
  proof (rule cypher_relay.relay_loop_moves [OF _ loop])
  qed (use good in simp, erule (1) poll, rule calm)
  with that show ?thesis by blast
qed

text \<open>
  C36: the relay refines two channels that copy bytes.  However the events arrive, over a complete
  session whose connection shares no socket with the local one: every step of the loop is a step of
  the specification, in which a channel takes bytes from the front of its source to the end of its
  buffer and gives bytes from the front of the buffer to its sink.  This holds for every outcome,
  errors and overflow included.
\<close>

theorem relay_refines_channels:
  assumes run: "run_relay checked pl (CypherSession_session (TcpStream_connection lib al) sl nl el) cn stream s p timeout k =
      Some (r, (rl, k'))"
    and good: "cypher_good sl nl el (s, k)" and apart: "apart stream (np_session (np_session (np_session s))) k"
    and quiet: "poll_quiet pl"
  shows "copy_step\<^sup>*\<^sup>*
      \<lparr>source = cypher_inp (s, k), buffered = [], delivered = tcp_out stream k\<rparr>
      \<lparr>source = cypher_inp (relay_session rl, k'), buffered = in_buf rl, delivered = tcp_out stream k'\<rparr> \<and>
    copy_step\<^sup>*\<^sup>*
      \<lparr>source = tcp_inp stream k, buffered = [], delivered = cypher_out (s, k)\<rparr>
      \<lparr>source = tcp_inp stream k', buffered = out_buf rl, delivered = cypher_out (relay_session rl, k')\<rparr>"
proof -
  from good apart have "tunnel_good sl nl el (k_fds k) (np_session (np_session (np_session s))) stream (s, k)"
    by (simp add: tunnel_good_def cypher_at_def)
  from this quiet run show ?thesis
    by (rule cypher_relay_run) (simp add: relayed_def chan_in_def chan_out_def)
qed

theorem relay_refines_channels_witness:
  "\<exists>rl k'. run_relay False demo_poll demo_cypher_session demo_cn (TcpStream 6) demo_up demo_events 10 demo_prepared =
      Some (Ok (0, 2), (rl, k')) \<and>
    copy_step\<^sup>*\<^sup>*
      \<lparr>source = tcp_inp (TcpStream 6) demo_prepared, buffered = [], delivered = cypher_out (demo_up, demo_prepared)\<rparr>
      \<lparr>source = tcp_inp (TcpStream 6) k', buffered = out_buf rl, delivered = cypher_out (relay_session rl, k')\<rparr>"
proof -
  from demo_run_relay obtain rl k' where
    run: "run_relay False demo_poll demo_cypher_session demo_cn (TcpStream 6) demo_up demo_events 10 demo_prepared =
      Some (Ok (0, 2), (rl, k'))" by auto
  have "cypher_good demo_socks5 demo_noise demo_eidolon (demo_up, demo_prepared)" by code_simp
  moreover have "apart (TcpStream 6) (np_session (np_session (np_session demo_up))) demo_prepared" by code_simp
  ultimately show ?thesis using relay_refines_channels [OF run _ _ demo_poll_quiet] run by blast
qed

section \<open>tunnel_once\<close>

lemma query_local: "k_call fd (sock_require f) k = Some (r, k') \<Longrightarrow> k' = k"
  by (auto simp: k_call_Some sock_require_def k_update_def k_sock_def fun_upd_idem split: option.splits)

lemma accept_Some:
  assumes "k_accept fd k = Some (r, k')"
  shows "(\<exists>e. r = Err e \<and> k_fds k' = k_fds k \<and> k_socks k' = k_socks k) \<or>
    (\<exists>sk rest. k_backlog k fd = Inr sk # rest \<and> r = Ok (k_next k) \<and>
      k_fds k' = (k_fds k)(k_next k \<mapsto> k_next k) \<and> k_socks k' = (k_socks k)(k_next k := sk))"
  using assms by (auto simp: k_accept_def k_open_def split: list.splits sum.splits option.splits if_splits)

lemma tunnel_onceE [consumes 1, case_names Refused Unprepared Relayed]:
  assumes "Tunnel_tunnel_once checked tcp pl ss cn poller timeout (tun, k) = Some (r, (tun', k'))"
  obtains "k_fds k' = k_fds k" and "\<And>v. r \<noteq> Ok v"
    | sk rest k1 r1 k2 where "k_backlog k (listener_fd (tn_listener tun)) = Inr sk # rest"
      and "k_accept (listener_fd (tn_listener tun)) k = Some (Ok (k_next k), k1)"
      and "prepare_tunnel tcp cn (TcpStream (k_next k)) (as_connection ss (tn_session tun)) timeout k1 = Some (r1, k2)"
      and "k' = k_close (k_next k) k2" and "\<And>v. r \<noteq> Ok v"
    | sk rest k1 k2 rl k3 where "k_backlog k (listener_fd (tn_listener tun)) = Inr sk # rest"
      and "k_accept (listener_fd (tn_listener tun)) k = Some (Ok (k_next k), k1)"
      and "prepare_tunnel tcp cn (TcpStream (k_next k)) (as_connection ss (tn_session tun)) timeout k1 = Some (Ok (), k2)"
      and "run_relay checked pl ss cn (TcpStream (k_next k)) (tn_session tun) poller timeout k2 = Some (r, (rl, k3))"
      and "k' = k_close (k_next k) k3" and "tun' = tun\<lparr>tn_session := relay_session rl\<rparr>"
proof -
  let ?fd = "listener_fd (tn_listener tun)"
  let ?prep = "prepare_tunnel tcp cn (TcpStream (k_next k)) (as_connection ss (tn_session tun)) timeout"
  show ?thesis
  proof (cases "Tunnel_local_addr tun" k rule: prog_cases)
    case (Ok a k0)
    then have [simp]: "k0 = k" by (auto simp: Tunnel_local_addr_def dest: query_local)
    show ?thesis
    proof (cases "k_accept ?fd" k rule: prog_cases)
      case acc: (Ok fd k1)
      from accept_Some [OF acc] obtain sk rest where sk: "k_backlog k ?fd = Inr sk # rest"
        and [simp]: "fd = k_next k" by auto
      have eq: "Tunnel_tunnel_once checked tcp pl ss cn poller timeout (tun, k) = (case ?prep k1 of
          None \<Rightarrow> None
        | Some (Err e, k2) \<Rightarrow> Some (Err e, (tun, k_close (k_next k) k2))
        | Some (Panic msg, k2) \<Rightarrow> Some (Panic msg, (tun, k_close (k_next k) k2))
        | Some (Ok _, k2) \<Rightarrow>
            map_option (\<lambda>(r, (rl, k3)). (r, (tun\<lparr>tn_session := relay_session rl\<rparr>, k_close (k_next k) k3)))
              (run_relay checked pl ss cn (TcpStream (k_next k)) (tn_session tun) poller timeout k2))"
        using Ok acc by (simp add: Tunnel_tunnel_once_def expect_def Let_def)
      show ?thesis
      proof (cases ?prep k1 rule: prog_cases)
        case prep: (Ok u k2)
        with assms eq obtain rl k3 where
          "run_relay checked pl ss cn (TcpStream (k_next k)) (tn_session tun) poller timeout k2 = Some (r, (rl, k3))"
          "k' = k_close (k_next k) k3" "tun' = tun\<lparr>tn_session := relay_session rl\<rparr>"
          by auto
        with that(3) [OF sk] acc prep show ?thesis by simp
      next
        case prep: (Err e k2)
        with assms eq that(2) [OF sk _ prep] acc show ?thesis by auto
      next
        case prep: (Panic m k2)
        with assms eq that(2) [OF sk _ prep] acc show ?thesis by auto
      qed (use assms eq in simp)
    next
      case (Err e k1)
      with assms Ok that(1) accept_Some [OF Err] show ?thesis by (auto simp: Tunnel_tunnel_once_def expect_def)
    next
      case (Panic m k1)
      with accept_Some [OF Panic] show ?thesis by simp
    qed (use assms Ok in \<open>auto simp: Tunnel_tunnel_once_def expect_def\<close>)
  qed (use assms that(1) in \<open>auto simp: Tunnel_tunnel_once_def expect_def Tunnel_local_addr_def dest: query_local\<close>)
qed

text \<open>The kernel numbers descriptors and sockets consecutively.\<close>

definition k_ok :: "kernel \<Rightarrow> bool" where
  "k_ok k \<longleftrightarrow> (\<forall>fd \<in> dom (k_fds k). fd < k_next k \<and> the (k_fds k fd) < k_next k)"

lemma k_okD:
  assumes "k_ok k"
  shows "k_fds k (k_next k) = None" and "k_fds k fd \<noteq> Some (k_next k)"
    and "k_fds k fd = Some i \<Longrightarrow> fd \<noteq> k_next k"
  using assms unfolding k_ok_def by (force simp: dom_def)+

text \<open>The state in which the relay starts: the accepted socket is new, the rest is as it was.\<close>

lemma tunnel_once_start:
  assumes ok: "k_ok k" and conn: "k_fds k (stream_fd c) = Some i" and at: "cypher_at sl nl el c (s, k)"
    and acc: "k_accept fd k = Some (Ok (k_next k), k1)" "k_backlog k fd = Inr sk # rest"
    and prep: "prepare_tunnel (TcpStream_connection lib al) (TcpStream_connection lib' al') (TcpStream (k_next k)) c' timeout k1 =
      Some (r, k2)"
  shows "k_fds k2 = (k_fds k)(k_next k \<mapsto> k_next k)"
    and "tunnel_good sl nl el ((k_fds k)(k_next k \<mapsto> k_next k)) c (TcpStream (k_next k)) (s, k2)"
    and "tcp_inp (TcpStream (k_next k)) k2 = sk_rx sk" and "tcp_out (TcpStream (k_next k)) k2 = sk_tx sk"
    and "tcp_inp c k2 = tcp_inp c k" and "tcp_out c k2 = tcp_out c k"
proof -
  from accept_Some [OF acc(1)] acc(2)
  have k1: "k_fds k1 = (k_fds k)(k_next k \<mapsto> k_next k)" "k_socks k1 = (k_socks k)(k_next k := sk)" by auto
  note same = traffic_eqD [OF keepsD [OF prepare_tunnel_traffic prep]]
  have ne: "stream_fd c \<noteq> k_next k" "i \<noteq> k_next k" using k_okD [OF ok] conn by auto
  show "k_fds k2 = (k_fds k)(k_next k \<mapsto> k_next k)" using same k1 by simp
  with ne conn show "tunnel_good sl nl el ((k_fds k)(k_next k \<mapsto> k_next k)) c (TcpStream (k_next k)) (s, k2)"
    using cypher_medium(3) [OF at] by (auto simp: tunnel_good_def apart_def)
  show "tcp_inp (TcpStream (k_next k)) k2 = sk_rx sk" "tcp_out (TcpStream (k_next k)) k2 = sk_tx sk"
    "tcp_inp c k2 = tcp_inp c k" "tcp_out c k2 = tcp_out c k"
    unfolding same(2,3) using k1 ne conn by (simp_all add: tcp_inp_def tcp_out_def k_sock_def)
qed

lemma channel_prefix:
  assumes "copy_step\<^sup>*\<^sup>* c d" and "buffered c = []"
  obtains xs where "delivered d = delivered c @ xs" and "prefix xs (source c)"
proof -
  from copy_extends [OF assms(1)] obtain xs where xs: "delivered d = delivered c @ xs" by blast
  with copy_conserves [OF assms(1)] assms(2) have "source c = xs @ buffered d @ source d" by simp
  with xs that show ?thesis by simp
qed

lemma relay_run_good:
  assumes "tunnel_good sl nl el fds c stream (s, k)" and "poll_quiet pl"
    and "run_relay checked pl (CypherSession_session (TcpStream_connection lib al) sl nl el) cn stream s p timeout k =
      Some (r, (rl, k'))"
  shows "tunnel_good sl nl el fds c stream (relay_session rl, k')"
  using assms by (rule cypher_relay_run) (simp add: relayed_def)

lemma relay_run_counts:
  assumes good: "tunnel_good sl nl el fds c stream (s, k)" and quiet: "poll_quiet pl"
    and run: "run_relay checked pl (CypherSession_session (TcpStream_connection lib al) sl nl el) cn stream s p timeout k =
      Some (Ok (received, sent), (rl, k'))"
  obtains xs ys where "tcp_out stream k' = tcp_out stream k @ xs" and "prefix xs (cypher_inp (s, k))"
    and "cypher_out (relay_session rl, k') = cypher_out (s, k) @ ys" and "prefix ys (tcp_inp stream k)"
    and "received = of_nat (length xs)" and "sent = of_nat (length ys)"
    and "checked \<longrightarrow> unat received = length xs \<and> unat sent = length ys"
proof -
  from cypher_relay_run [OF good quiet run] obtain r0 p0 where
    rel: "relayed checked (tunnel_good sl nl el fds c stream) cypher_inp cypher_out stream
      (\<lparr>relay_session = s, relay_poller = p0, in_buf = [], out_buf = [], in_count = 0, out_count = 0,
        relay_buf = replicate READ_BUFFER_SIZE 0\<rparr>, k) r0 (rl, k')" and ends: "ends_with r0 (Ok (received, sent))"
    by blast
  from ends have r0: "r0 = Err (Finished received sent)" by (simp add: ends_with_def)
  from rel obtain xs where xs: "tcp_out stream k' = tcp_out stream k @ xs" "prefix xs (cypher_inp (s, k))"
    by (auto simp: relayed_def chan_in_def elim: channel_prefix)
  from rel obtain ys where ys: "cypher_out (relay_session rl, k') = cypher_out (s, k) @ ys" "prefix ys (tcp_inp stream k)"
    by (auto simp: relayed_def chan_out_def elim: channel_prefix)
  from rel have "received = of_nat (length xs)" "sent = of_nat (length ys)"
    "checked \<longrightarrow> unat received = length xs \<and> unat sent = length ys"
    by (auto simp: relayed_def r0 counts_def xs(1) ys(1))
  with that xs ys show ?thesis by blast
qed

lemma demo_tunnel_setup:
  "cypher_good demo_socks5 demo_noise demo_eidolon (tn_session demo_tunnel, demo_tunnel_kernel)"
  "k_fds demo_tunnel_kernel (stream_fd (np_session (np_session (np_session (tn_session demo_tunnel))))) \<noteq> None"
  "k_ok demo_tunnel_kernel"
proof -
  show "cypher_good demo_socks5 demo_noise demo_eidolon (tn_session demo_tunnel, demo_tunnel_kernel)" by code_simp
  show "k_fds demo_tunnel_kernel (stream_fd (np_session (np_session (np_session (tn_session demo_tunnel))))) \<noteq> None"
    by code_simp
  show "k_ok demo_tunnel_kernel" by (simp add: k_ok_def demo_tunnel_kernel_def)
qed

text \<open>
  C37: the counters of \<^verbatim>\<open>tunnel_once\<close>.  When it returns \<open>Ok (received, sent)\<close>, the local client has
  been sent the first part of the bytes the session had to deliver, and the session the first part
  of the bytes of the client, in order; \<open>received\<close> and \<open>sent\<close> are the lengths of the two parts modulo
  \<open>2 ^ 64\<close>, and exactly in a build with overflow checks.
\<close>

theorem tunnel_once_counts:
  assumes run: "Tunnel_tunnel_once checked (TcpStream_connection lib al) pl
      (CypherSession_session (TcpStream_connection lib al) sl nl el) (TcpStream_connection lib al) poller timeout (tun, k) =
      Some (Ok (received, sent), (tun', k'))"
    and good: "cypher_good sl nl el (tn_session tun, k)" and quiet: "poll_quiet pl" and ok: "k_ok k"
    and conn: "k_fds k (stream_fd (np_session (np_session (np_session (tn_session tun))))) \<noteq> None"
  shows "\<exists>sk rest xs ys. k_backlog k (listener_fd (tn_listener tun)) = Inr sk # rest \<and>
    sk_tx (k_socks k' (k_next k)) = sk_tx sk @ xs \<and> prefix xs (cypher_inp (tn_session tun, k)) \<and>
    cypher_out (tn_session tun', k') = cypher_out (tn_session tun, k) @ ys \<and> prefix ys (sk_rx sk) \<and>
    received = of_nat (length xs) \<and> sent = of_nat (length ys) \<and>
    (checked \<longrightarrow> unat received = length xs \<and> unat sent = length ys)"
  using run
proof (cases rule: tunnel_onceE)
  case (Relayed sk rest k1 k2 rl k3)
  let ?s = "tn_session tun" and ?st = "TcpStream (k_next k)"
  define c where "c = np_session (np_session (np_session ?s))"
  have at: "cypher_at sl nl el c (?s, k)" using good by (simp add: cypher_at_def c_def)
  from conn obtain i where i: "k_fds k (stream_fd c) = Some i" by (auto simp: c_def)
  note fd = k_okD(3) [OF ok i]
  note start = tunnel_once_start [OF ok i at Relayed(2,1,3)]
  note end_good = relay_run_good [OF start(2) quiet Relayed(4)]
  from relay_run_counts [OF start(2) quiet Relayed(4)] obtain xs ys where
    xs: "tcp_out ?st k3 = tcp_out ?st k2 @ xs" "prefix xs (cypher_inp (?s, k2))"
    and ys: "cypher_out (relay_session rl, k3) = cypher_out (?s, k2) @ ys" "prefix ys (tcp_inp ?st k2)"
    and counters: "received = of_nat (length xs)" "sent = of_nat (length ys)"
      "checked \<longrightarrow> unat received = length xs \<and> unat sent = length ys"
    by blast
  have "sk_tx (k_socks k' (k_next k)) = tcp_out ?st k3"
    using end_good Relayed(5) by (simp add: tunnel_good_def tcp_out_def k_sock_def k_close_def)
  moreover have "cypher_out (relay_session rl, k') = cypher_out (relay_session rl, k3)"
    using cypher_medium(2) [OF tunnel_good_at [OF end_good]] Relayed(5) fd
    by (simp add: tcp_out_def k_sock_def k_close_def split: option.splits)
  ultimately show ?thesis
    using xs ys counters start(3-6) Relayed(1,6) cypher_medium(1,2) [OF at]
    by (intro exI [of _ sk] exI [of _ rest] exI [of _ xs] exI [of _ ys]) simp
qed blast+

theorem tunnel_once_counts_witness:
  "\<exists>tun' k' ys. Tunnel_tunnel_once False demo_cn demo_poll demo_cypher_session demo_cn demo_events 10
      (demo_tunnel, demo_tunnel_kernel) = Some (Ok (0, 2), (tun', k')) \<and>
    cypher_out (tn_session tun', k') = cypher_out (tn_session demo_tunnel, demo_tunnel_kernel) @ ys \<and>
    prefix ys [8, 9] \<and> (2 :: usize) = of_nat (length ys)"
proof -
  from demo_tunnel_run obtain tun' k' where
    run: "Tunnel_tunnel_once False demo_cn demo_poll demo_cypher_session demo_cn demo_events 10
      (demo_tunnel, demo_tunnel_kernel) = Some (Ok (0, 2), (tun', k'))" by blast
  have "k_backlog demo_tunnel_kernel fd = [Inr (demo_socket\<lparr>sk_rx := [8, 9]\<rparr>)]" for fd
    by (simp add: demo_tunnel_kernel_def)
  with tunnel_once_counts [OF run demo_tunnel_setup(1) demo_poll_quiet demo_tunnel_setup(3,2)] run
  show ?thesis by auto
qed

text \<open>
  C38: the relay never waits with bytes it could write.  With a poller that keeps its
  registrations, in every state in which the loop polls, starting from the two registrations of
  \<^verbatim>\<open>tunnel_once\<close>, the local connection is registered for writability exactly if there are bytes for the
  client, and the connection of the session exactly if there are bytes for the peer.
\<close>

theorem relay_asks_for_writability:
  assumes polls: "relay_polls checked pl (CypherSession_session (TcpStream_connection lib al) sl nl el) stream int_id ext_id
      timeout (\<lparr>relay_session = s, relay_poller = p2, in_buf = [], out_buf = [], in_count = 0, out_count = 0,
        relay_buf = replicate READ_BUFFER_SIZE 0\<rparr>, k) (rl, k')"
    and regs: "poll_register pl int_fd read_only p = (int_id, p1)" "poll_register pl ext_fd read_only p1 = (ext_id, p2)"
    and tracks: "tracks_interest pl interest"
  shows "interest (relay_poller rl) int_id = Some (if in_buf rl = [] then read_only else read_write) \<and>
    interest (relay_poller rl) ext_id = Some (if out_buf rl = [] then read_only else read_write)"
proof -
  note reg = tracks_interestD(2) [OF tracks regs(1)] tracks_interestD(2) [OF tracks regs(2)]
  then have ids: "int_id \<noteq> ext_id" by auto
  from cypher_relay.relay_polls_asks [OF polls tracks ids] reg ids show ?thesis
    by (simp add: asks_def)
qed

theorem relay_asks_for_writability_witness:
  "\<exists>rl k'. relay_polls False demo_poll demo_cypher_session (TcpStream 6) 0 1 10
      (\<lparr>relay_session = demo_up, relay_poller = demo_events\<lparr>dp_interest := [read_only, read_only]\<rparr>, in_buf = [],
        out_buf = [], in_count = 0, out_count = 0, relay_buf = replicate READ_BUFFER_SIZE 0\<rparr>, demo_prepared) (rl, k') \<and>
    out_buf rl = [8, 9] \<and> demo_interest (relay_poller rl) 1 = Some read_write"
proof -
  let ?rl = "\<lparr>relay_session = demo_up, relay_poller = demo_events\<lparr>dp_interest := [read_only, read_only]\<rparr>,
    in_buf = [], out_buf = [], in_count = 0, out_count = 0, relay_buf = replicate READ_BUFFER_SIZE 0\<rparr>"
  have "length (replicate READ_BUFFER_SIZE 0) = 65535" by (simp add: READ_BUFFER_SIZE_def)
  note read = demo_client_read [OF this]
  have "\<exists>z rl k'. on_poller (poll_poll demo_poll (Some 10)) (?rl, demo_prepared) = Some (Ok 1, z) \<and>
      relay_drain False demo_poll demo_cypher_session (TcpStream 6) 0 1 z = Some (Ok (), (rl, k')) \<and> out_buf rl = [8, 9]"
    by (simp add: on_poller_def demo_events_def relay_drain_step relay_event_def relay_int_read_cases read
        del: cypher_sel)
  then obtain z rl k' where step: "on_poller (poll_poll demo_poll (Some 10)) (?rl, demo_prepared) = Some (Ok 1, z)"
      "relay_drain False demo_poll demo_cypher_session (TcpStream 6) 0 1 z = Some (Ok (), (rl, k'))"
    and out: "out_buf rl = [8, 9]" by blast
  have polls: "relay_polls False demo_poll demo_cypher_session (TcpStream 6) 0 1 10 (?rl, demo_prepared) (rl, k')"
    by (rule relay_polls.again [OF relay_polls.enter step(1) _ step(2)]) simp
  from relay_asks_for_writability [OF polls _ _ demo_poll_tracks, of 6 demo_events
      "demo_events\<lparr>dp_interest := [read_only]\<rparr>" 3] out
  have "demo_interest (relay_poller rl) 1 = Some read_write" by (simp add: demo_events_def)
  with polls out show ?thesis by blast
qed

text \<open>
  C39: the end of one direction ends the tunnel.  When the client has closed its half of the
  connection, the next read event makes the loop return \<open>Ok\<close> with the counters at once: bytes of the
  client and of the peer that are still buffered are reported as neither sent nor received and are
  dropped with the buffers.  A read event without data makes it return the error \<^verbatim>\<open>EAGAIN\<close>.
\<close>

theorem end_of_input_ends_tunnel:
  assumes sk: "k_sock k (stream_fd stream) = Some sk" "sk_rx sk = []" "sk_script sk = []" "sk_nonblocking sk"
    and buf: "relay_buf rl \<noteq> []"
    and poll: "poll_poll pl (Some timeout) (relay_poller rl, k) = Some (Ok n, (p1, k))" "n \<noteq> 0"
    and ev: "poll_next pl p1 = (Some (int_id, Inr \<lparr>ev_read = True, ev_write = False\<rparr>), p2)"
  shows "relay_loop checked pl ss stream int_id ext_id timeout (rl, k) =
    Some (if sk_eof sk then Ok (in_count rl, out_count rl) else Err EAGAIN, (rl\<lparr>relay_poller := p2\<rparr>, k))"
proof -
  have idem: "k_update (stream_fd stream) (\<lambda>_. sk) k = k"
    using sk(1) by (auto simp: k_update_def k_sock_def fun_upd_idem split: option.splits)
  have "TcpStream_read stream (relay_buf rl) k =
      Some (if sk_eof sk then Ok (0, relay_buf rl) else Err EAGAIN, k)"
    using sk buf idem by (simp add: TcpStream_read_def k_call_def sock_read.simps sock_deliver_def)
  then have "relay_int_read pl ext_id stream (rl\<lparr>relay_poller := p2\<rparr>, k) =
      Some (Err (if sk_eof sk then Finished (in_count rl) (out_count rl) else Failed EAGAIN), (rl\<lparr>relay_poller := p2\<rparr>, k))"
    by (simp add: relay_int_read_cases)
  then have "relay_event checked pl ss stream int_id ext_id int_id (Inr \<lparr>ev_read = True, ev_write = False\<rparr>)
        (rl\<lparr>relay_poller := p2\<rparr>, k) =
      Some (Err (if sk_eof sk then Finished (in_count rl) (out_count rl) else Failed EAGAIN), (rl\<lparr>relay_poller := p2\<rparr>, k))"
    by (simp add: relay_event_def)
  moreover have "on_poller (poll_poll pl (Some timeout)) (rl, k) = Some (Ok n, (rl\<lparr>relay_poller := p1\<rparr>, k))"
    using poll by (simp add: on_poller_Some)
  ultimately show ?thesis
    using poll(2) ev by (subst relay_loop.simps) (simp add: relay_drain.simps)
qed

theorem end_of_input_ends_tunnel_witness:
  "\<exists>k rl y. out_buf rl = [7] \<and>
    relay_loop False demo_poll demo_cypher_session (TcpStream 3) 0 1 10 (rl, k) = Some (Ok (0, 0), y) \<and>
    out_buf (fst y) = [7] \<and> snd y = k"
proof -
  let ?k = "demo_kernel (demo_socket\<lparr>sk_eof := True, sk_nonblocking := True\<rparr>) (Inl EPIPE)"
  let ?rl = "\<lparr>relay_session = demo_up, relay_poller = \<lparr>dp_interest = [read_only, read_write],
    dp_batches = [[(0, Inr demo_readable)]], dp_events = []\<rparr>, in_buf = [], out_buf = [7], in_count = 0, out_count = 0,
    relay_buf = [0, 0]\<rparr>"
  let ?p = "\<lparr>dp_interest = [read_only, read_write], dp_batches = [], dp_events = [(0, Inr demo_readable)]\<rparr>"
  have "relay_loop False demo_poll demo_cypher_session (TcpStream 3) 0 1 10 (?rl, ?k) =
      Some (Ok (0, 0), (?rl\<lparr>relay_poller := ?p\<lparr>dp_events := []\<rparr>\<rparr>, ?k))"
    using end_of_input_ends_tunnel [of ?k "TcpStream 3" "demo_socket\<lparr>sk_eof := True, sk_nonblocking := True\<rparr>" ?rl
        demo_poll 10 1 ?p 0 "?p\<lparr>dp_events := []\<rparr>" False demo_cypher_session 1]
    by (simp add: k_sock_def demo_kernel_def demo_socket_def)
  then show ?thesis by (intro exI [of _ ?k] exI [of _ ?rl]) simp
qed

text \<open>
  C40: \<^verbatim>\<open>tunnel_once\<close> leaks no descriptor.  However it ends, with the counters, with an error of the
  accept, of the preparation or of the loop, or by a panic, the descriptor table is the one it was
  called with: the accepted connection is closed and the connection of the session is kept open.
\<close>

theorem tunnel_once_no_leak:
  assumes run: "Tunnel_tunnel_once checked (TcpStream_connection lib al) pl
      (CypherSession_session (TcpStream_connection lib al) sl nl el) (TcpStream_connection lib al) poller timeout (tun, k) =
      Some (r, (tun', k'))"
    and good: "cypher_good sl nl el (tn_session tun, k)" and quiet: "poll_quiet pl" and ok: "k_ok k"
    and conn: "k_fds k (stream_fd (np_session (np_session (np_session (tn_session tun))))) \<noteq> None"
  shows "k_fds k' = k_fds k"
proof -
  let ?s = "tn_session tun" and ?st = "TcpStream (k_next k)"
  define c where "c = np_session (np_session (np_session ?s))"
  have at: "cypher_at sl nl el c (?s, k)" using good by (simp add: cypher_at_def c_def)
  from conn obtain i where i: "k_fds k (stream_fd c) = Some i" by (auto simp: c_def)
  note start = tunnel_once_start [OF ok i at]
  have closed: "k_fds (k_close (k_next k) k2) = k_fds k" if "k_fds k2 = (k_fds k)(k_next k \<mapsto> k_next k)" for k2
    using that k_okD(1) [OF ok] by (auto simp: k_close_def)
  from run show ?thesis
  proof (cases rule: tunnel_onceE)
    case (Unprepared sk rest k1 r1 k2)
    with closed [OF start(1) [OF Unprepared(2,1,3)]] show ?thesis by simp
  next
    case (Relayed sk rest k1 k2 rl k3)
    from relay_run_good [OF start(2) [OF Relayed(2,1,3)] quiet Relayed(4)] closed [of k3] Relayed(5)
    show ?thesis by (simp add: tunnel_good_def)
  qed
qed

theorem tunnel_once_no_leak_witness:
  "\<exists>tun' k'. Tunnel_tunnel_once False demo_cn demo_poll demo_cypher_session demo_cn demo_events 10
      (demo_tunnel, demo_tunnel_kernel) = Some (Ok (0, 2), (tun', k')) \<and> k_fds k' = [3 \<mapsto> 3, 5 \<mapsto> 5]"
proof -
  from demo_tunnel_run obtain tun' k' where
    run: "Tunnel_tunnel_once False demo_cn demo_poll demo_cypher_session demo_cn demo_events 10
      (demo_tunnel, demo_tunnel_kernel) = Some (Ok (0, 2), (tun', k'))" by blast
  have "k_fds demo_tunnel_kernel = [3 \<mapsto> 3, 5 \<mapsto> 5]" by (simp add: demo_tunnel_kernel_def)
  with tunnel_once_no_leak [OF run demo_tunnel_setup(1) demo_poll_quiet demo_tunnel_setup(3,2)] run
  show ?thesis by auto
qed

end
