(* ===== verification/Spec2Isabelle.thy ===== *)
theory Spec2Isabelle
  imports Frame_Queue Reactor Split Relay
begin

text \<open>
  A verification library for the crate \<^verbatim>\<open>netservices\<close> (sources under \<^verbatim>\<open>src/src\<close>), a library for
  event-driven peer-to-peer services: connections and listeners over TCP sockets, sessions that stack
  handshake protocols on a connection, resources that put a session or a listener under the control of a
  reactor, halves of a split session, a tunnel between a local client and a session, and a marshaller
  for length-delimited frames.

  \<^bold>\<open>The parts and how they interact.\<close>  A \<^verbatim>\<open>NetConnection\<close> is a socket.  A \<^verbatim>\<open>NetSession\<close> is a connection or
  a \<^verbatim>\<open>NetProtocol\<close>: a handshake state machine over an inner session.  \<^verbatim>\<open>CypherSession\<close> is Eidolon over
  Noise over Socks5 over a connection.  A \<^verbatim>\<open>NetTransport\<close> owns a session and reacts to the notifications
  of the reactor; a \<^verbatim>\<open>NetAccept\<close> owns a listener.  \<^verbatim>\<open>Tunnel\<close> polls a local connection and a session and
  copies bytes between them.  Every part reads and writes the part below it, may fail, may panic and may
  wait; so the operations are functions from a state to \<open>None\<close> (the call never returns) or an outcome
  (\<open>Ok\<close>, \<open>Err\<close>, \<open>Panic\<close>) and a state.

  \<^bold>\<open>Theories, in the order of dependence.\<close>

  \<^item> \<open>Prelude\<close>: outcomes, \<^verbatim>\<open>std::io::Error\<close>, the combinators for \<^verbatim>\<open>?\<close> and \<^verbatim>\<open>match\<close>, \<^verbatim>\<open>read_exact\<close>
    and \<^verbatim>\<open>write_all\<close> with an induction rule for their runs, and the interfaces \<open>byte_stream\<close> (counts stay
    within buffers, no panic) and \<open>byte_duplex\<close> (bytes reported are bytes moved).
  \<^item> \<open>Frame_Queue\<close>: \<^verbatim>\<open>frame.rs\<close>.  Frames pushed on one marshaller arrive at another one in order whatever
    the chunking; for every frame type, pops take exactly the bytes of their frames out of the queue.
  \<^item> \<open>Kernel\<close>: the calls of \<^verbatim>\<open>std::net\<close> over an explicit descriptor table; several descriptors may name one
    socket.  What the system may decide is part of the state: a script of verdicts says how much a
    transfer moves, when it fails and when the peer is gone; lists of faults say which option setters
    and which duplications of a descriptor fail.
  \<^item> \<open>Connection\<close>: \<^verbatim>\<open>connection.rs\<close>, the trait as a record of functions and its implementations for
    \<^verbatim>\<open>TcpStream\<close> and \<^verbatim>\<open>socket2::Socket\<close>.  Failed connection attempts leak no handle.
  \<^item> \<open>Session\<close>, \<open>Protocol_Laws\<close>, \<open>Handshake\<close>, \<open>Layers\<close>: the traits \<^verbatim>\<open>NetSession\<close> and \<^verbatim>\<open>NetStateMachine\<close>
    and \<^verbatim>\<open>NetProtocol\<close> of \<^verbatim>\<open>session.rs\<close>.  A layer keeps the stream contract; a complete layer is
    transparent; during the handshake no application data are delivered, and what a write sends is
    the machine's act, except for a machine with nothing to say; the event-driven and the blocking
    handshake agree; the blocking handshake returns.
  \<^item> \<open>Cypher\<close>: the protocol stack of \<^verbatim>\<open>session.rs\<close> and the machines this crate defines around the
    handshakes of the \<^verbatim>\<open>cyphernet\<close> crate.  A session the blocking connector returns is authenticated on
    every layer, and a failed one leaks no descriptor.
  \<^item> \<open>Transport\<close>, \<open>Transport_Laws\<close>, \<open>Reactor\<close>: \<^verbatim>\<open>NetTransport\<close> of \<^verbatim>\<open>resource.rs\<close>.  Histories of
    notifications and sends as an inductive relation; conservation of bytes, the life cycle of the states,
    absence of stalls, the meaning of the events, the cases in which the code panics or drops errors.
    \<^verbatim>\<open>handle_io\<close> asks its session twice whether it is up; the parameter \<open>lapse\<close> is what happens in between.
  \<^item> \<open>Split\<close>: \<^verbatim>\<open>split.rs\<close> and the \<^verbatim>\<open>SplitIo\<close> of sessions.  Splitting and joining is the identity on the session;
    halves of different splits do not join, and the attempt closes both.
  \<^item> \<open>Listener\<close>: \<^verbatim>\<open>listener.rs\<close> and \<^verbatim>\<open>NetAccept\<close> of \<^verbatim>\<open>resource.rs\<close>.  Accepted connections are ready for the
    reactor; accepting neither blocks nor leaks.
  \<^item> \<open>Tunnel\<close>, \<open>Tunnel_Laws\<close>, \<open>Relay\<close>: \<^verbatim>\<open>tunnel.rs\<close>.  The relay refines two channels that copy bytes; the
    counters are the bytes delivered modulo the width of \<^verbatim>\<open>usize\<close>; writability is asked for exactly while
    bytes wait; the end of one direction ends the tunnel and drops what is buffered; no descriptor leaks.

  \<^bold>\<open>Interfaces.\<close>  \<open>byte_stream\<close> and \<open>byte_duplex\<close> are interpreted on \<^verbatim>\<open>TcpStream\<close>, on the marshaller and, through
  \<open>protocol_layer\<close> and \<open>duplex_layer\<close>, on every stack of layers; \<open>transport\<close> and \<open>transport_duplex\<close> on transports
  over \<^verbatim>\<open>TcpStream\<close> and \<^verbatim>\<open>CypherSession\<close>; \<open>splittable\<close> on \<^verbatim>\<open>TcpStream\<close>, \<^verbatim>\<open>socket2::Socket\<close> and
  \<^verbatim>\<open>CypherSession\<close>; \<open>relay_world\<close> on a tunnel between \<^verbatim>\<open>TcpStream\<close> and a complete
  \<^verbatim>\<open>CypherSession\<close>.

  \<^bold>\<open>Parameters.\<close>  The crates \<^verbatim>\<open>socket2\<close>, \<^verbatim>\<open>cyphernet\<close> and \<^verbatim>\<open>reactor\<close> are records of functions: \<open>socket2_lib\<close>,
  \<open>addr_lib\<close>, \<open>noise_lib\<close>, \<open>socks5_lib\<close>, \<open>eidolon_lib\<close>, \<open>Poll\<close>.  The handshake machines among them are taken to
  return without panicking.  Properties that need their documented behaviour
  name it as a hypothesis (\<open>tracks_handles\<close>, \<open>poll_quiet\<close>, \<open>tracks_interest\<close>), which the witnesses discharge for
  a concrete instance.

  \<^bold>\<open>Loops and bounds.\<close>  There is no fuel: loops that may wait forever (\<^verbatim>\<open>read_exact\<close>, \<^verbatim>\<open>write_all\<close>, the blocking
  handshake, the loops of the tunnel) are partial functions in the option type, with a rule for their
  runs, and where the code must return, that is proved.  Counters are 64-bit words and overflow is a
  panic or wraps, by a parameter of the build.  Numbers of descriptors and sizes of sockets are not bounded.

  \<^bold>\<open>Not modelled.\<close>  Log output; \<^verbatim>\<open>Display\<close> and \<^verbatim>\<open>Debug\<close> text beyond what errors carry; the re-exports of
  \<^verbatim>\<open>lib.rs\<close>; a change of the world between the queries of one call, other than the two of \<^verbatim>\<open>handle_io\<close>;
  destructors that run while a panic unwinds, other than those of the halves in a join, of the session in
  the blocking connector and of the client's connection in the tunnel; the internals of the three crates above; and the
  concurrency of the halves of a split session beyond the calls on the shared socket.
\<close>

end
